(* ===== verification/Prelude.thy ===== *)
theory Prelude
  imports "HOL-Library.Word"
begin

text \<open>
  Shared vocabulary of the development: machine integers, byte buffers, failures as values,
  the little-endian codec of the C structures the program reads by pointer casts, and the two
  memories these casts work on.

  \<^item> Failures. Every \<^verbatim>\<open>throw\<close>, \<^verbatim>\<open>assert\<close> and undefined
    access of the source is a value of \<open>error\<close> in \<open>error + 'a\<close>; \<open>bindE\<close> is
    sequencing that stops at the first failure.
  \<^item> Buffers. A \<^verbatim>\<open>std::vector<uint8_t>\<close> or a char array is a list of bytes
    (\<open>bread\<close>, \<open>bwrite\<close>: \<^verbatim>\<open>memcpy\<close> with the bounds C leaves
    unchecked made explicit).
  \<^item> Host memory. The mapped ELF file is a byte list with the address at which the
    \<^verbatim>\<open>mmap\<close> of \<^verbatim>\<open>src/elffile.cpp\<close> put it; pointers into it are 64-bit words
    (\<open>hread\<close>, \<open>hwrite\<close>). An access outside the mapping is \<open>OutOfBounds\<close>.
  The locale \<open>byte_memory\<close> states what both have in common and is interpreted on both.
\<close>

unbundle bit_operations_syntax

named_theorems ki_simps \<open>unfolding rules of the error sequencing\<close>
named_theorems ki_frame \<open>what an operation leaves unchanged\<close>

section \<open>Machine integers and bytes\<close>

type_synonym u8 = "8 word"
type_synonym u16 = "16 word"
type_synonym u32 = "32 word"
type_synonym u64 = "64 word"
type_synonym bytes = "u8 list"

lemma unat_ucast_up:
  assumes "LENGTH('a::len) \<le> LENGTH('b::len)"
  shows "unat (ucast (x :: 'a word) :: 'b word) = unat x"
proof -
  have "unat x < 2 ^ LENGTH('a)" by (rule unsigned_less)
  also have "(2 :: nat) ^ LENGTH('a) \<le> 2 ^ LENGTH('b)" using assms by simp
  finally show ?thesis by (simp add: unsigned_ucast_eq take_bit_nat_eq_self)
qed

lemma unat_of_nat_eq: "n < 2 ^ LENGTH('a::len) \<Longrightarrow> unat (of_nat n :: 'a word) = n"
  by (simp add: unat_of_nat take_bit_nat_eq_self)

lemma ucast_of_nat_down:
  "LENGTH('b::len) \<le> LENGTH('a::len) \<Longrightarrow> (ucast (of_nat n :: 'a word) :: 'b word) = of_nat n"
  by (rule bit_word_eqI) (auto simp: bit_simps)

lemma ucast_down_add:
  assumes "LENGTH('b::len) \<le> LENGTH('a::len)"
  shows "(ucast (x + y :: 'a word) :: 'b word) = ucast x + ucast y"
proof -
  have u: "(ucast (of_nat n :: 'a word) :: 'b word) = of_nat n" for n
    using assms by (rule ucast_of_nat_down)
  have "(ucast (x + y) :: 'b word) = ucast (of_nat (unat x + unat y) :: 'a word)" by simp
  also have "\<dots> = of_nat (unat x) + of_nat (unat y)" by (subst u) (simp only: of_nat_add)
  also have "of_nat (unat x) = (ucast x :: 'b word)" using u [of "unat x"] by simp
  also have "of_nat (unat y) = (ucast y :: 'b word)" using u [of "unat y"] by simp
  finally show ?thesis .
qed

lemma ucast_down_diff:
  assumes "LENGTH('b::len) \<le> LENGTH('a::len)"
  shows "(ucast (x - y :: 'a word) :: 'b word) = ucast x - ucast y"
  using ucast_down_add [OF assms, of "x - y" y] by simp

section \<open>Failures as values\<close>

datatype error =
    AssertFailed
  | ElfException string
  | Error string
  | InternalError string
  | NullDeref
  | OutOfBounds
  | LengthError
  | DoesNotReturn
  | ExitProcess int

type_synonym 'a res = "error + 'a"

definition bindE :: "'a res \<Rightarrow> ('a \<Rightarrow> 'b res) \<Rightarrow> 'b res" where
  "bindE m f = (case m of Inl e \<Rightarrow> Inl e | Inr x \<Rightarrow> f x)"

definition assertE :: "bool \<Rightarrow> unit res" where
  "assertE b = (if b then Inr () else Inl AssertFailed)"

definition guardE :: "error \<Rightarrow> bool \<Rightarrow> unit res" where
  "guardE e b = (if b then Inr () else Inl e)"

definition mapE :: "('a \<Rightarrow> 'b) \<Rightarrow> 'a res \<Rightarrow> 'b res" where
  "mapE f m = bindE m (\<lambda>x. Inr (f x))"

text \<open>The short-circuit \<^verbatim>\<open>&&\<close> and \<^verbatim>\<open>||\<close> of C++ over operands that may fail.\<close>

definition andE :: "bool res \<Rightarrow> bool res \<Rightarrow> bool res" where
  "andE a b = bindE a (\<lambda>x. if x then b else Inr False)"

definition orE :: "bool res \<Rightarrow> bool res \<Rightarrow> bool res" where
  "orE a b = bindE a (\<lambda>x. if x then Inr True else b)"

fun foldE :: "('a \<Rightarrow> 's \<Rightarrow> 's res) \<Rightarrow> 'a list \<Rightarrow> 's \<Rightarrow> 's res" where
  "foldE f [] s = Inr s"
| "foldE f (x # xs) s = bindE (f x s) (foldE f xs)"

lemma bindE_simps [simp, ki_simps]:
  "bindE (Inl e) f = Inl e"
  "bindE (Inr x) f = f x"
  by (simp_all add: bindE_def)

lemma bindE_Inr_iff [ki_simps]: "bindE m f = Inr y \<longleftrightarrow> (\<exists>x. m = Inr x \<and> f x = Inr y)"
  by (cases m) auto

lemma bindE_Inl_iff: "bindE m f = Inl e \<longleftrightarrow> m = Inl e \<or> (\<exists>x. m = Inr x \<and> f x = Inl e)"
  by (cases m) auto

lemma bindE_InrE [elim!]:
  assumes "bindE m f = Inr y"
  obtains x where "m = Inr x" and "f x = Inr y"
  using assms by (auto simp: bindE_Inr_iff)

lemma bindE_cong [fundef_cong]:
  "m = m' \<Longrightarrow> (\<And>x. m' = Inr x \<Longrightarrow> f x = f' x) \<Longrightarrow> bindE m f = bindE m' f'"
  by (cases m') auto

lemma assertE_Inr_iff [simp]: "assertE b = Inr u \<longleftrightarrow> b"
  by (simp add: assertE_def)

lemma assertE_True [simp]: "assertE True = Inr ()"
  by (simp add: assertE_def)

lemma guardE_Inr_iff [simp]: "guardE e b = Inr u \<longleftrightarrow> b"
  by (simp add: guardE_def)

lemma guardE_True [simp]: "guardE e True = Inr ()"
  by (simp add: guardE_def)

lemma andE_simps [simp]:
  "andE (Inr False) b = Inr False" "andE (Inr True) b = b" "andE (Inl e) b = Inl e"
  by (simp_all add: andE_def)

lemma orE_simps [simp]:
  "orE (Inr False) b = b" "orE (Inr True) b = Inr True" "orE (Inl e) b = Inl e"
  by (simp_all add: orE_def)

lemma andE_True_iff: "andE a b = Inr True \<longleftrightarrow> a = Inr True \<and> b = Inr True"
  by (cases a) (auto simp: andE_def)

lemma orE_True_iff: "orE a b = Inr True \<longleftrightarrow> a = Inr True \<or> (a = Inr False \<and> b = Inr True)"
  by (cases a) (auto simp: orE_def)

lemma foldE_append: "foldE f (xs @ ys) s = bindE (foldE f xs s) (foldE f ys)"
  by (induction xs arbitrary: s) (auto simp: bindE_def split: sum.splits)

text \<open>Steps that change nothing.\<close>

lemma foldE_idle: "(\<And>x. x \<in> set xs \<Longrightarrow> f x s = Inr s) \<Longrightarrow> foldE f xs s = Inr s"
  by (induction xs) auto

text \<open>An invariant every step keeps holds after the loop.\<close>

lemma foldE_invariant:
  assumes "foldE f xs s = Inr s'" and "P s"
    and "\<And>x t t'. x \<in> set xs \<Longrightarrow> P t \<Longrightarrow> f x t = Inr t' \<Longrightarrow> P t'"
  shows "P s'"
  using assms
proof (induction xs arbitrary: s)
  case Nil
  then show ?case by simp
next
  case (Cons x xs)
  from Cons.prems(1) obtain t where t: "f x s = Inr t" "foldE f xs t = Inr s'" by auto
  from Cons.prems(2,3) t(1) have "P t" by auto
  with Cons.IH [OF t(2)] Cons.prems(3) show ?case by auto
qed

text \<open>Conditions on what a computation returns, \<open>P\<close>, and on how it fails, \<open>E\<close>.\<close>

definition ends :: "('a \<Rightarrow> bool) \<Rightarrow> (error \<Rightarrow> bool) \<Rightarrow> 'a res \<Rightarrow> bool" where
  "ends P E r = (case r of Inl e \<Rightarrow> E e | Inr x \<Rightarrow> P x)"

lemma ends_simps [simp]: "ends P E (Inl e) = E e" "ends P E (Inr x) = P x"
  by (simp_all add: ends_def)

lemma ends_any: "(\<And>e. r = Inl e \<Longrightarrow> E e) \<Longrightarrow> (\<And>x. r = Inr x \<Longrightarrow> P x) \<Longrightarrow> ends P E r"
  by (cases r) auto

lemma ends_bindE: "ends P E m \<Longrightarrow> (\<And>x. m = Inr x \<Longrightarrow> P x \<Longrightarrow> ends Q E (f x)) \<Longrightarrow> ends Q E (bindE m f)"
  by (cases m) auto

lemma ends_mapE: "ends (\<lambda>x. P (f x)) E m \<Longrightarrow> ends P E (mapE f m)"
  by (cases m) (auto simp: mapE_def)

lemma ends_weaken: "ends P E r \<Longrightarrow> (\<And>x. P x \<Longrightarrow> Q x) \<Longrightarrow> (\<And>e. E e \<Longrightarrow> F e) \<Longrightarrow> ends Q F r"
  by (cases r) auto

lemma ends_foldE:
  "P s \<Longrightarrow> (\<And>x s. x \<in> set xs \<Longrightarrow> P s \<Longrightarrow> ends P E (f x s)) \<Longrightarrow> ends P E (foldE f xs s)"
  by (induction xs arbitrary: s) (auto intro!: ends_bindE)

section \<open>Little-endian fields\<close>

text \<open>
  x86-64 stores the low byte first. \<open>of_le\<close> reads the bytes of a field, \<open>to_le n\<close>
  gives the \<open>n\<close> bytes a store of a field writes.
\<close>

fun of_le :: "bytes \<Rightarrow> 'a::len word" where
  "of_le [] = 0"
| "of_le (b # bs) = ucast b OR push_bit 8 (of_le bs)"

fun to_le :: "nat \<Rightarrow> 'a::len word \<Rightarrow> bytes" where
  "to_le 0 w = []"
| "to_le (Suc n) w = ucast w # to_le n (drop_bit 8 w)"

lemma length_to_le [simp]: "length (to_le n w) = n"
  by (induction n arbitrary: w) auto

lemma nth_to_le: "i < n \<Longrightarrow> to_le n w ! i = ucast (drop_bit (8 * i) w)"
proof (induction n arbitrary: w i)
  case 0
  then show ?case by simp
next
  case (Suc n)
  then show ?case by (cases i) (simp_all add: algebra_simps)
qed

lemma bit_of_le:
  "bit (of_le bs :: 'a::len word) k \<longleftrightarrow>
     k < LENGTH('a) \<and> k div 8 < length bs \<and> bit (bs ! (k div 8)) (k mod 8)"
proof (induction bs arbitrary: k)
  case Nil
  then show ?case by simp
next
  case (Cons b bs)
  show ?case
  proof (cases "k < 8")
    case True
    then show ?thesis
      by (auto simp: bit_simps dest: bit_imp_le_length)
  next
    case False
    then obtain j where j: "k = 8 + j"
      using le_Suc_ex not_less by blast
    have "(8 + j) div 8 = Suc (j div 8)" and "(8 + j) mod 8 = j mod 8" by simp_all
    moreover have "\<not> bit b k" using False bit_imp_le_length [of b k] by auto
    ultimately show ?thesis using Cons.IH [of j] j
      by (simp add: bit_simps del: div_add_self1 mod_add_self1) auto
  qed
qed

lemma of_le_to_le: "LENGTH('a) \<le> 8 * n \<Longrightarrow> of_le (to_le n (w :: 'a::len word)) = w"
proof (rule bit_word_eqI)
  fix k assume n: "LENGTH('a) \<le> 8 * n" and k: "k < LENGTH('a)"
  then have "k div 8 < n" by (simp add: less_mult_imp_div_less mult.commute)
  with k show "bit (of_le (to_le n w) :: 'a word) k = bit w k"
    by (simp add: bit_of_le nth_to_le bit_simps)
qed

lemma to_le_of_le:
  assumes "length bs = n" and "8 * n \<le> LENGTH('a::len)"
  shows "to_le n (of_le bs :: 'a word) = bs"
proof (rule nth_equalityI)
  show "length (to_le n (of_le bs :: 'a word)) = length bs" using assms by simp
next
  fix i assume "i < length (to_le n (of_le bs :: 'a word))"
  then have i: "i < n" by simp
  show "to_le n (of_le bs :: 'a word) ! i = bs ! i"
  proof (rule bit_word_eqI)
    fix k assume "k < LENGTH(8)"
    then have k: "k < 8" by simp
    have "8 * i + k < LENGTH('a)" using i k assms by linarith
    moreover have "(8 * i + k) div 8 = i" "(8 * i + k) mod 8 = k" using k by auto
    ultimately show "bit (to_le n (of_le bs :: 'a word) ! i) k = bit (bs ! i) k"
      using i k assms by (simp add: nth_to_le bit_simps bit_of_le add.commute)
  qed
qed

section \<open>Byte buffers\<close>

definition bread :: "bytes \<Rightarrow> nat \<Rightarrow> nat \<Rightarrow> bytes res" where
  "bread b i n = (if i + n \<le> length b then Inr (take n (drop i b)) else Inl OutOfBounds)"

definition bwrite :: "bytes \<Rightarrow> nat \<Rightarrow> bytes \<Rightarrow> bytes res" where
  "bwrite b i ys =
     (if i + length ys \<le> length b
      then Inr (take i b @ ys @ drop (i + length ys) b) else Inl OutOfBounds)"

lemma length_bread: "bread b i n = Inr x \<Longrightarrow> length x = n"
  by (auto simp: bread_def split: if_splits)

lemma bread_Inr_iff: "bread b i n = Inr x \<longleftrightarrow> i + n \<le> length b \<and> x = take n (drop i b)"
  by (auto simp: bread_def)

lemma bwrite_Inr_iff:
  "bwrite b i ys = Inr b' \<longleftrightarrow>
     i + length ys \<le> length b \<and> b' = take i b @ ys @ drop (i + length ys) b"
  by (auto simp: bwrite_def)

lemma length_bwrite [ki_frame]: "bwrite b i ys = Inr b' \<Longrightarrow> length b' = length b"
  by (auto simp: bwrite_def split: if_splits)

lemma nth_bwrite:
  assumes "bwrite b i ys = Inr b'" and "k < length b"
  shows "b' ! k = (if i \<le> k \<and> k < i + length ys then ys ! (k - i) else b ! k)"
  using assms by (auto simp: bwrite_Inr_iff nth_append min_def)

lemma bread_bwrite_same:
  "bwrite b i ys = Inr b' \<Longrightarrow> bread b' i (length ys) = Inr ys"
  by (auto simp: bwrite_Inr_iff bread_def min_def)

lemma bread_bwrite_other:
  assumes w: "bwrite b i ys = Inr b'" and d: "j + n \<le> i \<or> i + length ys \<le> j"
  shows "bread b' j n = bread b j n"
proof (cases "j + n \<le> length b")
  case True
  have len: "length b' = length b" using w by (rule length_bwrite)
  have "take n (drop j b') = take n (drop j b)"
  proof (rule nth_equalityI)
    show "length (take n (drop j b')) = length (take n (drop j b))" using len by simp
  next
    fix k assume "k < length (take n (drop j b'))"
    then have "k < n" "j + k < length b" using len True by auto
    then show "take n (drop j b') ! k = take n (drop j b) ! k"
      using nth_bwrite [OF w, of "j + k"] d len by auto
  qed
  with True len show ?thesis by (simp add: bread_def)
next
  case False
  with length_bwrite [OF w] show ?thesis by (simp add: bread_def)
qed

text \<open>Two adjacent stores are one.\<close>

lemma bwrite_at_length:
  "length ys \<le> length v \<Longrightarrow> bwrite (u @ v) (length u) ys = Inr (u @ ys @ drop (length ys) v)"
  by (simp add: bwrite_def)

lemma bwrite_append:
  assumes "i + length xs + length ys \<le> length b"
  shows "bindE (bwrite b i xs) (\<lambda>b'. bwrite b' (i + length xs) ys) = bwrite b i (xs @ ys)"
proof -
  let ?p = "take i b @ xs"
  have p: "length ?p = i + length xs" using assms by simp
  have "bwrite b i xs = Inr (?p @ drop (i + length xs) b)"
    using assms by (simp add: bwrite_def)
  moreover have "bwrite (?p @ drop (i + length xs) b) (length ?p) ys
      = Inr (?p @ ys @ drop (i + length xs + length ys) b)"
    using assms by (subst bwrite_at_length) (simp_all add: add.commute add.left_commute)
  ultimately show ?thesis using assms by (simp add: p bwrite_def add.assoc)
qed

lemma bwrite_Nil [simp]: "i \<le> length b \<Longrightarrow> bwrite b i [] = Inr b"
  by (simp add: bwrite_def)

section \<open>Host memory: the mapped file\<close>

record hostmem =
  hbase :: u64
  hbytes :: bytes

definition hread :: "hostmem \<Rightarrow> u64 \<Rightarrow> nat \<Rightarrow> bytes res" where
  "hread m p n = bread (hbytes m) (unat (p - hbase m)) n"

definition hwrite :: "hostmem \<Rightarrow> u64 \<Rightarrow> bytes \<Rightarrow> hostmem res" where
  "hwrite m p ys = mapE (\<lambda>b. m\<lparr>hbytes := b\<rparr>) (bwrite (hbytes m) (unat (p - hbase m)) ys)"

lemma hwrite_Inr_iff:
  "hwrite m p ys = Inr m' \<longleftrightarrow>
     (\<exists>b. bwrite (hbytes m) (unat (p - hbase m)) ys = Inr b \<and> m' = m\<lparr>hbytes := b\<rparr>)"
  by (auto simp: hwrite_def mapE_def bindE_Inr_iff)

lemma hwrite_hbase [ki_frame]: "hwrite m p ys = Inr m' \<Longrightarrow> hbase m' = hbase m"
  by (auto simp: hwrite_Inr_iff)

lemma hwrite_length [ki_frame]:
  "hwrite m p ys = Inr m' \<Longrightarrow> length (hbytes m') = length (hbytes m)"
  by (auto simp: hwrite_Inr_iff dest: length_bwrite)

section \<open>The common interface of both memories\<close>

locale byte_memory =
  fixes rd :: "'m \<Rightarrow> 'a \<Rightarrow> nat \<Rightarrow> bytes res"
    and wr :: "'m \<Rightarrow> 'a \<Rightarrow> bytes \<Rightarrow> 'm res"
    and off :: "'m \<Rightarrow> 'a \<Rightarrow> nat"
  assumes rd_length: "rd m a n = Inr x \<Longrightarrow> length x = n"
    and rd_wr_same: "wr m a ys = Inr m' \<Longrightarrow> rd m' a (length ys) = Inr ys"
    and rd_wr_other: "wr m a ys = Inr m' \<Longrightarrow>
      off m b + n \<le> off m a \<or> off m a + length ys \<le> off m b \<Longrightarrow> rd m' b n = rd m b n"
    and wr_off: "wr m a ys = Inr m' \<Longrightarrow> off m' b = off m b"
begin

definition get :: "nat \<Rightarrow> 'm \<Rightarrow> 'a \<Rightarrow> 'w::len word res" where
  "get n m a = bindE (rd m a n) (\<lambda>x. Inr (of_le x))"

definition put :: "nat \<Rightarrow> 'm \<Rightarrow> 'a \<Rightarrow> 'w::len word \<Rightarrow> 'm res" where
  "put n m a w = wr m a (to_le n w)"

lemma get_put_same:
  "put n m a (w :: 'w::len word) = Inr m' \<Longrightarrow> LENGTH('w) \<le> 8 * n \<Longrightarrow> get n m' a = Inr w"
  using rd_wr_same [of m a "to_le n w" m'] by (simp add: get_def put_def of_le_to_le)

lemma get_put_other:
  "put n m a w = Inr m' \<Longrightarrow> off m b + k \<le> off m a \<or> off m a + n \<le> off m b \<Longrightarrow>
     get k m' b = get k m b"
  using rd_wr_other [of m a "to_le n w" m' b k] by (simp add: get_def put_def)

lemma get_put_low:
  assumes "put n m a (w :: 'w::len word) = Inr m'"
  shows "rd m' a n = Inr (to_le n w)"
  using rd_wr_same [of m a "to_le n w" m'] assms by (simp add: put_def)

end

interpretation buf: byte_memory bread bwrite "\<lambda>_ i. i"
  by unfold_locales
    (auto intro: length_bread bread_bwrite_same bread_bwrite_other)

interpretation host: byte_memory hread hwrite "\<lambda>m p. unat (p - hbase m)"
  by unfold_locales
    (auto simp: hread_def hwrite_Inr_iff
      intro: length_bread bread_bwrite_same bread_bwrite_other)

text \<open>The accesses the loaders use, by width.\<close>

definition host8 :: "hostmem \<Rightarrow> u64 \<Rightarrow> u8 res" where
  "host8 m p = bindE (hread m p 1) (\<lambda>x. Inr (of_le x))"

definition host16 :: "hostmem \<Rightarrow> u64 \<Rightarrow> u16 res" where
  "host16 m p = bindE (hread m p 2) (\<lambda>x. Inr (of_le x))"

definition host32 :: "hostmem \<Rightarrow> u64 \<Rightarrow> u32 res" where
  "host32 m p = bindE (hread m p 4) (\<lambda>x. Inr (of_le x))"

definition host64 :: "hostmem \<Rightarrow> u64 \<Rightarrow> u64 res" where
  "host64 m p = bindE (hread m p 8) (\<lambda>x. Inr (of_le x))"

lemma host64_get: "host64 m p = host.get 8 m p"
  by (simp add: host64_def host.get_def)

lemma host32_get: "host32 m p = host.get 4 m p"
  by (simp add: host32_def host.get_def)

section \<open>C strings\<close>

definition char_of_u8 :: "u8 \<Rightarrow> char" where
  "char_of_u8 b = char_of (unat b)"

definition u8_of_char :: "char \<Rightarrow> u8" where
  "u8_of_char c = of_nat (of_char c)"

lemma unat_u8_of_char: "unat (u8_of_char c) = of_char c"
  by (simp add: u8_of_char_def unat_of_nat)

lemma u8_of_char_inverse [simp]: "char_of_u8 (u8_of_char c) = c"
  by (simp add: char_of_u8_def unat_u8_of_char)

lemma char_of_u8_inverse [simp]: "u8_of_char (char_of_u8 b) = b"
proof -
  have "unat b < 256" using unsigned_less [of b] by simp
  then show ?thesis by (simp add: u8_of_char_def char_of_u8_def)
qed

text \<open>
  \<open>c_string\<close> reads up to the first zero byte, as the \<^verbatim>\<open>std::string(const char *)\<close>
  constructor does; without one the read leaves the buffer.
\<close>

fun c_string :: "bytes \<Rightarrow> string res" where
  "c_string [] = Inl OutOfBounds"
| "c_string (b # bs) =
     (if b = 0 then Inr [] else bindE (c_string bs) (\<lambda>s. Inr (char_of_u8 b # s)))"

definition host_string :: "hostmem \<Rightarrow> u64 \<Rightarrow> string res" where
  "host_string m p = c_string (drop (unat (p - hbase m)) (hbytes m))"

lemma c_string_nul:
  "c_string (map u8_of_char s @ 0 # r) = Inr s" if "\<forall>c \<in> set s. u8_of_char c \<noteq> 0"
  using that by (induction s) auto


definition c_bytes :: "string \<Rightarrow> bytes" where
  "c_bytes s = map u8_of_char s @ [0]"

definition no_nul :: "string \<Rightarrow> bool" where
  "no_nul s \<longleftrightarrow> (\<forall>c \<in> set s. u8_of_char c \<noteq> 0)"

lemma c_string_c_bytes [simp]: "no_nul s \<Longrightarrow> c_string (c_bytes s @ r) = Inr s"
  by (simp add: c_bytes_def no_nul_def c_string_nul)

lemma c_string_drop:
  "c_string v = Inr s \<Longrightarrow> k \<le> length s \<Longrightarrow> c_string (drop k v) = Inr (drop k s)"
proof (induction v arbitrary: s k)
  case (Cons b v)
  then show ?case by (cases k) (auto split: if_splits)
qed simp

lemma c_string_length: "c_string v = Inr s \<Longrightarrow> length s < length v"
  by (induction v arbitrary: s) (auto split: if_splits)

section \<open>Maps of the standard library\<close>

text \<open>
  \<^verbatim>\<open>std::map::insert\<close> keeps an entry that is already there, \<^verbatim>\<open>m[k] = v\<close>
  replaces it.
\<close>

definition map_insert :: "'k \<Rightarrow> 'v \<Rightarrow> ('k \<rightharpoonup> 'v) \<Rightarrow> ('k \<rightharpoonup> 'v)" where
  "map_insert k v m = (case m k of None \<Rightarrow> m(k \<mapsto> v) | Some _ \<Rightarrow> m)"

lemma map_insert_apply:
  "map_insert k v m k' = (if k' = k \<and> m k = None then Some v else m k')"
  by (auto simp: map_insert_def split: option.splits)

text \<open>The contract of a component that registers entries and keeps the first of a key.\<close>

locale first_wins =
  fixes look :: "'s \<Rightarrow> 'k \<Rightarrow> 'v option"
    and add :: "'k \<Rightarrow> 'v \<Rightarrow> 's \<Rightarrow> 's"
  assumes look_add: "look (add k v s) k' =
      (if k' = k \<and> look s k = None then Some v else look s k')"
begin

fun add_all :: "('k \<times> 'v) list \<Rightarrow> 's \<Rightarrow> 's" where
  "add_all [] s = s"
| "add_all ((k, v) # r) s = add_all r (add k v s)"

lemma look_add_all:
  "look (add_all kvs s) k = (case look s k of Some w \<Rightarrow> Some w | None \<Rightarrow> map_of kvs k)"
  by (induction kvs arbitrary: s) (auto simp: look_add split: option.splits)

lemma look_add_known: "look s k = Some w \<Longrightarrow> look (add k v s) k = Some w"
  by (simp add: look_add)

end

text \<open>The contract of a component that assigns entries: the last one counts.\<close>

locale last_wins =
  fixes look :: "'s \<Rightarrow> 'k \<Rightarrow> 'v option"
    and store :: "'k \<Rightarrow> 'v \<Rightarrow> 's \<Rightarrow> 's"
  assumes look_store: "look (store k v s) k' = (if k' = k then Some v else look s k')"
begin

fun store_all :: "('k \<times> 'v) list \<Rightarrow> 's \<Rightarrow> 's" where
  "store_all [] s = s"
| "store_all ((k, v) # r) s = store_all r (store k v s)"

lemma look_store_all:
  "look (store_all kvs s) k =
     (case map_of (rev kvs) k of Some w \<Rightarrow> Some w | None \<Rightarrow> look s k)"
  by (induction kvs arbitrary: s) (auto simp: look_store map_add_def split: option.splits)

lemma store_all_fold:
  "store_all (map (\<lambda>x. (f x, g x)) xs) s = fold (\<lambda>x. store (f x) (g x)) xs s"
  by (induction xs arbitrary: s) auto

end


text \<open>A faster equation for evaluation: one reduction to the word at the end.\<close>

fun int_le :: "bytes \<Rightarrow> int" where
  "int_le [] = 0"
| "int_le (b # bs) = uint b + 256 * int_le bs"

lemma of_le_code [code]: "of_le bs = (word_of_int (int_le bs) :: 'a::len word)"
proof (induction bs)
  case (Cons b bs)
  have "ucast b OR push_bit 8 (of_le bs) = (ucast b + push_bit 8 (of_le bs) :: 'a word)"
    by (rule disjunctive_add [symmetric]) (auto simp: bit_simps dest: bit_imp_le_length)
  with Cons show ?case by (simp add: push_bit_eq_mult)
qed simp


text \<open>
  Reading a memory that is given as a concatenation of chunks: the form in which the example files
  of the development are written.
\<close>

lemma bread_chunk:
  "length a \<le> i \<Longrightarrow> bread (a @ b) i n = bread b (i - length a) n"
  "n = length a \<Longrightarrow> bread (a @ b) 0 n = Inr a"
  "n = length a \<Longrightarrow> bread a 0 n = Inr a"
  by (auto simp: bread_def)

lemma drop_chunk:
  "length a \<le> i \<Longrightarrow> drop i (a @ b) = drop (i - length a) b"
  "i < length a \<Longrightarrow> drop i (a @ b) = drop i a @ b"
  by auto

lemma c_string_append: "c_string v = Inr s \<Longrightarrow> c_string (v @ w) = Inr s"
  by (induction v arbitrary: s) (auto split: if_splits)

section \<open>Ordered maps\<close>

text \<open>
  \<^verbatim>\<open>std::map\<close> as the list of its entries in the order of iteration: \<open>omap_put\<close>
  is \<^verbatim>\<open>m[k] = v\<close>. \<^verbatim>\<open>std::multimap::insert\<close> puts an entry behind
  those with an equal key.
\<close>

fun omap_put :: "'k::linorder \<Rightarrow> 'v \<Rightarrow> ('k \<times> 'v) list \<Rightarrow> ('k \<times> 'v) list" where
  "omap_put k v [] = [(k, v)]"
| "omap_put k v ((k', v') # m) =
     (if k < k' then (k, v) # (k', v') # m
      else if k = k' then (k, v) # m
      else (k', v') # omap_put k v m)"

fun mmap_insert :: "'k::linorder \<Rightarrow> 'v \<Rightarrow> ('k \<times> 'v) list \<Rightarrow> ('k \<times> 'v) list" where
  "mmap_insert k v [] = [(k, v)]"
| "mmap_insert k v ((k', v') # m) =
     (if k < k' then (k, v) # (k', v') # m else (k', v') # mmap_insert k v m)"

lemma map_of_omap_put [simp]: "map_of (omap_put k v m) = (map_of m)(k \<mapsto> v)"
  by (induction k v m rule: omap_put.induct) auto

lemma keys_omap_put: "fst ` set (omap_put k v m) = insert k (fst ` set m)"
  by (induction k v m rule: omap_put.induct) auto

lemma sorted_omap_put:
  "sorted_wrt (<) (map fst m) \<Longrightarrow> sorted_wrt (<) (map fst (omap_put k v m))"
proof (induction k v m rule: omap_put.induct)
  case (2 k v k' v' m)
  have "fst ` set (omap_put k v m) = insert k (fst ` set m)" by (rule keys_omap_put)
  with 2 show ?case by auto
qed simp

lemma set_mmap_insert: "set (mmap_insert k v m) = insert (k, v) (set m)"
  by (induction k v m rule: mmap_insert.induct) auto

lemma sorted_mmap_insert:
  "sorted (map fst m) \<Longrightarrow> sorted (map fst (mmap_insert k v m))"
  by (induction k v m rule: mmap_insert.induct) (auto simp: set_mmap_insert)

interpretation ordered_map: last_wins map_of "omap_put :: 'k::linorder \<Rightarrow> 'v \<Rightarrow> _"
  by unfold_locales simp

section \<open>Loops that skip\<close>

text \<open>
  The scanning loops of the validators: a step at position \<open>i\<close> may fail, change the state and
  have the loop skip \<open>k\<close> positions behind the next.
\<close>

function skip_loop :: "(nat \<Rightarrow> 's \<Rightarrow> (nat \<times> 's) res) \<Rightarrow> nat \<Rightarrow> nat \<Rightarrow> 's \<Rightarrow> 's res" where
  "skip_loop step n i s =
     (if i < n then bindE (step i s) (\<lambda>(k, s'). skip_loop step n (i + Suc k) s') else Inr s)"
  by pat_completeness auto
termination
  by (relation "measure (\<lambda>(step, n, i, s). n - i)") auto

declare skip_loop.simps [simp del]

lemma skip_loop_stop [simp]: "n \<le> i \<Longrightarrow> skip_loop step n i s = Inr s"
  by (subst skip_loop.simps) simp

lemma skip_loop_next:
  "i < n \<Longrightarrow> step i s = Inr (k, s') \<Longrightarrow> skip_loop step n i s = skip_loop step n (i + Suc k) s'"
  by (subst skip_loop.simps) simp

lemma skip_loop_fail: "i < n \<Longrightarrow> step i s = Inl e \<Longrightarrow> skip_loop step n i s = Inl e"
  by (subst skip_loop.simps) simp

lemma skip_loop_invariant:
  assumes "skip_loop step n i s = Inr s'" and "P s"
    and "\<And>j t k t'. j < n \<Longrightarrow> P t \<Longrightarrow> step j t = Inr (k, t') \<Longrightarrow> P t'"
  shows "P s'"
  using assms
proof (induction step n i s rule: skip_loop.induct)
  case (1 step n i s)
  show ?case
  proof (cases "i < n")
    case False
    with 1(2,3) show ?thesis by simp
  next
    case True
    with 1(2) obtain k t where t: "step i s = Inr (k, t)" "skip_loop step n (i + Suc k) t = Inr s'"
      by (subst (asm) skip_loop.simps) auto
    from 1(4) [OF True 1(3) t(1)] have "P t" .
    from 1(1) [OF True t(1) refl t(2) this 1(4)] show ?thesis .
  qed
qed

text \<open>Positions at which nothing happens.\<close>

lemma skip_loop_idle:
  assumes "\<And>j. i \<le> j \<Longrightarrow> j < m \<Longrightarrow> step j s = Inr (0, s)" and "i \<le> m" and "m \<le> n"
  shows "skip_loop step n i s = skip_loop step n m s"
  using assms
proof (induction "m - i" arbitrary: i)
  case 0
  then show ?case by simp
next
  case (Suc d)
  then have "i < m" "i < n" by auto
  with Suc.prems(1) [of i] have "skip_loop step n i s = skip_loop step n (i + Suc 0) s"
    by (intro skip_loop_next) auto
  with Suc.hyps(1) [of "Suc i"] Suc.hyps(2) Suc.prems show ?case by simp
qed

text \<open>A loop that cannot leave before a position at which every step fails.\<close>

lemma skip_loop_reaches_failure:
  assumes "\<And>j s. i \<le> j \<Longrightarrow> j < m \<Longrightarrow> step j s = Inl e \<or> (\<exists>s'. step j s = Inr (0, s'))"
    and "\<And>s. step m s = Inl e" and "i \<le> m" and "m < n"
  shows "skip_loop step n i s = Inl e"
  using assms(1,3)
proof (induction "m - i" arbitrary: i s)
  case 0
  then have "i = m" by simp
  with assms(2,4) show ?case by (simp add: skip_loop_fail)
next
  case (Suc d)
  then have i: "i < m" "i < n" using assms(4) by auto
  from Suc.prems(1) [of i s] i(1)
  have "step i s = Inl e \<or> (\<exists>s'. step i s = Inr (0, s'))" by simp
  then show ?case
  proof
    assume "step i s = Inl e"
    with i(2) show ?thesis by (rule skip_loop_fail)
  next
    assume "\<exists>s'. step i s = Inr (0, s')"
    then obtain s' where "step i s = Inr (0, s')" ..
    with i(2) have "skip_loop step n i s = skip_loop step n (Suc i) s'"
      using skip_loop_next [of i n step s 0 s'] by simp
    also have "\<dots> = Inl e" using Suc.hyps(2) Suc.prems i(1) by (intro Suc.hyps(1)) auto
    finally show ?thesis .
  qed
qed

text \<open>A loop that never skips is a fold over the positions.\<close>

lemma skip_loop_foldE:
  assumes "\<And>j s k s'. j < n \<Longrightarrow> step j s = Inr (k, s') \<Longrightarrow> k = 0"
  shows "skip_loop step n i s = foldE (\<lambda>j s. mapE snd (step j s)) [i..<n] s"
proof (induction "n - i" arbitrary: i s)
  case 0
  then show ?case by simp
next
  case (Suc d)
  then have i: "i < n" by simp
  then have up: "[i..<n] = i # [Suc i..<n]" by (rule upt_conv_Cons)
  show ?case
  proof (cases "step i s")
    case (Inl e)
    with i up show ?thesis by (simp add: skip_loop_fail mapE_def)
  next
    case (Inr r)
    then obtain k s' where r: "step i s = Inr (k, s')" by (cases r) auto
    with assms [OF i] have "k = 0" by simp
    with r i have "skip_loop step n i s = skip_loop step n (Suc i) s'"
      using skip_loop_next [of i n step s 0 s'] by simp
    with Suc.hyps(1) [of "Suc i" s'] Suc.hyps(2) r up show ?thesis by (simp add: mapE_def)
  qed
qed

text \<open>The loop over the end of a longer memory.\<close>

lemma skip_loop_shift:
  assumes "\<And>j s. i \<le> j \<Longrightarrow> j < n \<Longrightarrow> step (d + j) s = step' j s"
  shows "skip_loop step (d + n) (d + i) s = skip_loop step' n i s"
  using assms
proof (induction step' n i s rule: skip_loop.induct)
  case (1 step' n i s)
  show ?case
  proof (cases "i < n")
    case False
    then show ?thesis by simp
  next
    case True
    with 1(2) [of i s] have st: "step (d + i) s = step' i s" by simp
    show ?thesis
    proof (cases "step' i s")
      case (Inl e)
      with st True show ?thesis by (simp add: skip_loop_fail)
    next
      case (Inr r)
      then obtain k t where r: "step' i s = Inr (k, t)" by (cases r) auto
      have "skip_loop step (d + n) (d + (i + Suc k)) t = skip_loop step' n (i + Suc k) t"
        using 1(1) [OF True r refl] 1(2) by simp
      with r st True show ?thesis by (simp add: skip_loop_next add.assoc)
    qed
  qed
qed

end
