(* ===== verification/GuestList.thy ===== *)
theory GuestList
  imports Prelude
begin

text \<open>
  The walk over a circular list of the guest kernel (\<^verbatim>\<open>struct list_head\<close>) that the task
  list, the module list and the list of memory mappings share: go from node to node until the head
  comes again. The guest may present a list that never leads back; then the walk does not return,
  which is \<open>None\<close>.
\<close>

partial_function (option) list_walk ::
  "('a \<Rightarrow> 'a) \<Rightarrow> 'a \<Rightarrow> ('a \<Rightarrow> 's \<Rightarrow> 's) \<Rightarrow> 'a \<Rightarrow> 's \<Rightarrow> 's option" where
  "list_walk nxt head visit cur s =
     (if cur = head then Some s else list_walk nxt head visit (nxt cur) (visit cur s))"

declare list_walk.simps [code]

text \<open>The \<^verbatim>\<open>do\<close> form visits the head first.\<close>

definition list_walk_do :: "('a \<Rightarrow> 'a) \<Rightarrow> 'a \<Rightarrow> ('a \<Rightarrow> 's \<Rightarrow> 's) \<Rightarrow> 's \<Rightarrow> 's option" where
  "list_walk_do nxt head visit s = list_walk nxt head visit (nxt head) (visit head s)"

text \<open>The first \<open>n\<close> nodes from \<open>x\<close> on.\<close>

fun nodes :: "('a \<Rightarrow> 'a) \<Rightarrow> 'a \<Rightarrow> nat \<Rightarrow> 'a list" where
  "nodes nxt x 0 = []"
| "nodes nxt x (Suc n) = x # nodes nxt (nxt x) n"

text \<open>The list leads back to its head after \<open>n\<close> further nodes and not before.\<close>

definition closes_after :: "('a \<Rightarrow> 'a) \<Rightarrow> 'a \<Rightarrow> 'a \<Rightarrow> nat \<Rightarrow> bool" where
  "closes_after nxt head x n \<longleftrightarrow> (nxt ^^ n) x = head \<and> (\<forall>m < n. (nxt ^^ m) x \<noteq> head)"

lemma nodes_conv: "nodes nxt x n = map (\<lambda>m. (nxt ^^ m) x) [0..<n]"
  by (induction n arbitrary: x)
    (auto simp: upt_conv_Cons map_Suc_upt [symmetric] funpow_swap1 simp del: upt_Suc)

lemma closes_after_Suc:
  "closes_after nxt head x (Suc n) \<longleftrightarrow> x \<noteq> head \<and> closes_after nxt head (nxt x) n"
  by (auto simp: closes_after_def less_Suc_eq_0_disj funpow_swap1)

lemma closes_after_0: "closes_after nxt head x 0 \<longleftrightarrow> x = head"
  by (simp add: closes_after_def)

lemma list_walk_closes:
  "closes_after nxt head x n \<Longrightarrow> list_walk nxt head visit x s = Some (fold visit (nodes nxt x n) s)"
proof (induction n arbitrary: x s)
  case 0
  then show ?case by (subst list_walk.simps) (simp add: closes_after_0)
next
  case (Suc n)
  then show ?case by (subst list_walk.simps) (simp add: closes_after_Suc)
qed

lemmas list_walk_induct = list_walk.raw_induct [rotated, consumes 1, case_names step]

lemma list_walk_returns: "list_walk nxt head visit x s = Some s' \<Longrightarrow> \<exists>n. closes_after nxt head x n"
proof (induction nxt head visit x s s' rule: list_walk_induct)
  case (step walk nxt head visit x s r)
  show ?case
  proof (cases "x = head")
    case True
    then have "closes_after nxt head x 0" by (simp add: closes_after_0)
    then show ?thesis ..
  next
    case False
    with step(2) have "walk nxt head visit (nxt x) (visit x s) = Some r" by simp
    from step(1) [OF this] obtain n where "closes_after nxt head (nxt x) n" ..
    with False have "closes_after nxt head x (Suc n)" by (simp add: closes_after_Suc)
    then show ?thesis ..
  qed
qed

text \<open>The walk returns exactly when the list leads back to its head.\<close>

lemma list_walk_iff:
  "list_walk nxt head visit x s = Some s' \<longleftrightarrow>
     (\<exists>n. closes_after nxt head x n \<and> s' = fold visit (nodes nxt x n) s)"
  using list_walk_closes list_walk_returns by fastforce

lemma list_walk_do_iff:
  "list_walk_do nxt head visit s = Some s' \<longleftrightarrow>
     (\<exists>n. closes_after nxt head (nxt head) n \<and> s' = fold visit (nodes nxt head (Suc n)) s)"
  by (simp add: list_walk_do_def list_walk_iff)

lemma list_walk_diverges:
  "(\<forall>n. (nxt ^^ n) x \<noteq> head) \<Longrightarrow> list_walk nxt head visit x s = None"
  using list_walk_returns [of nxt head visit x s] by (cases "list_walk nxt head visit x s") (auto simp: closes_after_def)

text \<open>A walk as a step of a fallible computation.\<close>

definition returnsE :: "'a option \<Rightarrow> 'a res" where
  "returnsE r = (case r of None \<Rightarrow> Inl DoesNotReturn | Some x \<Rightarrow> Inr x)"

lemma returnsE_Inr [simp]: "returnsE r = Inr x \<longleftrightarrow> r = Some x"
  by (auto simp: returnsE_def split: option.splits)

end
