(* ===== verification/Helpers.thy ===== *)
theory Helpers
  imports Prelude
begin

text \<open>
  \<^verbatim>\<open>src/helpers.h\<close> and \<^verbatim>\<open>src/helpers.cpp\<close>: the flag and range macros, the
  string helpers, the report of the first changed byte and the questions the validators ask of
  the disassembler.

  Capstone is not part of the repository: \<^verbatim>\<open>cs_disasm_iter\<close> is the parameter
  \<open>disasm\<close> of the functions below, from the bytes it may read and their address to the
  decoded instruction. Pointers into a code buffer are the buffer and an index; reading past
  its end is \<open>OutOfBounds\<close>, for the call passes Capstone a size it may read.
\<close>

section \<open>Macros\<close>

definition CHECKFLAGS :: "'a::len word \<Rightarrow> 'a word \<Rightarrow> bool" where
  "CHECKFLAGS byte flags \<longleftrightarrow> byte AND flags = flags"

definition SETFLAGS :: "'a::len word \<Rightarrow> 'a word \<Rightarrow> 'a word" where
  "SETFLAGS byte flags = byte OR flags"

text \<open>The macro says \<^verbatim>\<open>!flags\<close>, the logical negation, which is 0 or 1.\<close>

definition CLEARFLAGS :: "'a::len word \<Rightarrow> 'a word \<Rightarrow> 'a word" where
  "CLEARFLAGS byte flags = byte AND (if flags = 0 then 1 else 0)"

definition CONTAINS :: "'a::len word \<Rightarrow> 'a word \<Rightarrow> 'a word \<Rightarrow> bool" where
  "CONTAINS mi sz what \<longleftrightarrow> mi \<le> what \<and> what < mi + sz"

definition IN_RANGE :: "'a::len word \<Rightarrow> 'a word \<Rightarrow> 'a word \<Rightarrow> bool" where
  "IN_RANGE value left right \<longleftrightarrow> left \<le> value \<and> value \<le> right"

lemma CHECKFLAGS_zero [simp]: "CHECKFLAGS x 0"
  by (simp add: CHECKFLAGS_def)

lemma CHECKFLAGS_SETFLAGS [simp]: "CHECKFLAGS (SETFLAGS x f) f"
  by (rule bit_word_eqI [THEN CHECKFLAGS_def [THEN iffD2]]) (auto simp: SETFLAGS_def bit_simps)

lemma CHECKFLAGS_iff_bits: "CHECKFLAGS x f \<longleftrightarrow> (\<forall>k. bit f k \<longrightarrow> bit x k)"
  by (auto simp: CHECKFLAGS_def bit_eq_iff bit_simps dest: bit_imp_le_length)

lemma CHECKFLAGS_OR: "CHECKFLAGS x (f OR g) \<longleftrightarrow> CHECKFLAGS x f \<and> CHECKFLAGS x g"
  by (auto simp: CHECKFLAGS_iff_bits bit_simps)

lemma CHECKFLAGS_SETFLAGS_mono: "CHECKFLAGS x f \<Longrightarrow> CHECKFLAGS (SETFLAGS x g) f"
  by (auto simp: CHECKFLAGS_iff_bits SETFLAGS_def bit_simps)

section \<open>Strings\<close>

function split_string :: "string \<Rightarrow> char \<Rightarrow> string list" where
  "split_string s delim =
     (if s = [] then []
      else takeWhile (\<lambda>c. c \<noteq> delim) s
             # split_string (drop 1 (dropWhile (\<lambda>c. c \<noteq> delim) s)) delim)"
  by pat_completeness auto
termination
proof (relation "measure (length \<circ> fst)")
  show "wf (measure (length \<circ> fst :: string \<times> char \<Rightarrow> nat))" by simp
next
  fix s :: string and delim :: char
  assume "s \<noteq> []"
  then have "length (drop 1 (dropWhile (\<lambda>c. c \<noteq> delim) s)) < length s"
    using length_dropWhile_le [of "\<lambda>c. c \<noteq> delim" s] by (cases s) auto
  then show "((drop 1 (dropWhile (\<lambda>c. c \<noteq> delim) s), delim), s, delim)
      \<in> measure (length \<circ> fst)"
    by simp
qed

declare split_string.simps [simp del]

definition hexmap :: string where
  "hexmap = ''0123456789abcdef''"

definition hexStr :: "bytes \<Rightarrow> string" where
  "hexStr data =
     concat (map (\<lambda>b. [hexmap ! unat (drop_bit 4 (b AND 0xF0)), hexmap ! unat (b AND 0x0F)]) data)"

text \<open>\<^verbatim>\<open>rfind\<close> gives \<^verbatim>\<open>npos\<close> without a slash, and \<^verbatim>\<open>npos + 1\<close> is 0.\<close>

definition getNameFromPath :: "string \<Rightarrow> string" where
  "getNameFromPath path = rev (takeWhile (\<lambda>c. c \<noteq> CHR ''/'') (rev path))"

definition hasEnding :: "string \<Rightarrow> string \<Rightarrow> bool" where
  "hasEnding fullString ending =
     (if length ending \<le> length fullString
      then drop (length fullString - length ending) fullString = ending else False)"

fun betweenRange :: "'a::linorder \<Rightarrow> ('a \<times> 'a) list \<Rightarrow> bool" where
  "betweenRange value [] = False"
| "betweenRange value ((lo, hi) # r) =
     (if lo \<le> value \<and> value \<le> hi then True else betweenRange value r)"

definition appendDataToVector :: "bytes \<Rightarrow> u32 \<Rightarrow> bytes \<Rightarrow> (u32 \<times> bytes) res" where
  "appendDataToVector data len target =
     bindE (bread data 0 (unat len)) (\<lambda>x. Inr (len, target @ x))"

lemma hasEnding_iff: "hasEnding s e \<longleftrightarrow> (\<exists>p. s = p @ e)"
proof
  assume "hasEnding s e"
  then have "drop (length s - length e) s = e" by (auto simp: hasEnding_def split: if_splits)
  then show "\<exists>p. s = p @ e" by (metis append_take_drop_id)
qed (auto simp: hasEnding_def)

lemma getNameFromPath_no_slash: "CHR ''/'' \<notin> set (getNameFromPath p)"
  by (auto simp: getNameFromPath_def dest: set_takeWhileD)

section \<open>The report of a change\<close>

record change =
  ch_offset :: int
  ch_is :: u8
  ch_should :: u8
  ch_loaded :: bytes
  ch_mem :: bytes

text \<open>The indices both windows print: at most 15 to each side, inside the block.\<close>

definition change_window :: "int \<Rightarrow> int \<Rightarrow> int list" where
  "change_window off sz =
     filter (\<lambda>k. \<not> (k < 0 \<or> sz \<le> k)) (takeWhile (\<lambda>k. k < sz) [off - 15..off + 14])"

definition byte_at :: "bytes \<Rightarrow> int \<Rightarrow> u8 res" where
  "byte_at b k =
     (if 0 \<le> k \<and> k < int (length b) then Inr (b ! nat k) else Inl OutOfBounds)"

fun collect_bytes :: "bytes \<Rightarrow> int list \<Rightarrow> bytes res" where
  "collect_bytes b [] = Inr []"
| "collect_bytes b (k # ks) =
     bindE (byte_at b k) (\<lambda>x. bindE (collect_bytes b ks) (\<lambda>xs. Inr (x # xs)))"

definition displayChange :: "bytes \<Rightarrow> bytes \<Rightarrow> int \<Rightarrow> int \<Rightarrow> change res" where
  "displayChange memory reference off sz =
     bindE (byte_at reference off) (\<lambda>r. bindE (byte_at memory off) (\<lambda>m.
     bindE (collect_bytes reference (change_window off sz)) (\<lambda>rs.
     bindE (collect_bytes memory (change_window off sz)) (\<lambda>ms.
       Inr \<lparr>ch_offset = off, ch_is = r, ch_should = m, ch_loaded = rs, ch_mem = ms\<rparr>))))"

lemma collect_bytes_ok:
  "\<forall>k \<in> set ks. 0 \<le> k \<and> k < int (length b) \<Longrightarrow>
     collect_bytes b ks = Inr (map (\<lambda>k. b ! nat k) ks)"
  by (induction ks) (auto simp: byte_at_def)

lemma set_change_window: "k \<in> set (change_window off sz) \<Longrightarrow> 0 \<le> k \<and> k < sz"
  by (auto simp: change_window_def)

text \<open>Inside both blocks the report does not fail and names the differing pair.\<close>

lemma displayChange_ok:
  assumes "0 \<le> off" "off < sz" "sz \<le> int (length m)" "sz \<le> int (length r)"
  obtains c where "displayChange m r off sz = Inr c"
    and "ch_offset c = off" "ch_is c = r ! nat off" "ch_should c = m ! nat off"
proof -
  have w: "\<forall>k \<in> set (change_window off sz). 0 \<le> k \<and> k < int (length b)"
    if "sz \<le> int (length b)" for b :: bytes
    using set_change_window that by fastforce
  show thesis
    using assms w [THEN collect_bytes_ok]
    by (intro that) (auto simp: displayChange_def byte_at_def)
qed

section \<open>Questions to the disassembler\<close>

record insn =
  insn_size :: nat
  mnemonic :: string
  op_str :: string

type_synonym disasm = "bytes \<Rightarrow> u64 \<Rightarrow> insn option"

text \<open>
  \<^verbatim>\<open>strtol(s, NULL, 16)\<close>: white space, a sign, an optional \<^verbatim>\<open>0x\<close>, digits up to
  the first other character, and saturation at the bounds of \<^verbatim>\<open>long\<close>.
\<close>

definition hex_digit :: "char \<Rightarrow> nat option" where
  "hex_digit c =
     (let n = of_char c :: nat in
      if 48 \<le> n \<and> n \<le> 57 then Some (n - 48)
      else if 97 \<le> n \<and> n \<le> 102 then Some (n - 87)
      else if 65 \<le> n \<and> n \<le> 70 then Some (n - 55)
      else None)"

fun hex_value :: "nat \<Rightarrow> string \<Rightarrow> nat" where
  "hex_value acc [] = acc"
| "hex_value acc (c # cs) =
     (case hex_digit c of None \<Rightarrow> acc | Some d \<Rightarrow> hex_value (16 * acc + d) cs)"

definition is_space :: "char \<Rightarrow> bool" where
  "is_space c \<longleftrightarrow> (of_char c :: nat) \<in> {9, 10, 11, 12, 13, 32}"

definition strip_0x :: "string \<Rightarrow> string" where
  "strip_0x s =
     (if take 2 s \<in> {''0x'', ''0X''} \<and> length s > 2 \<and> hex_digit (s ! 2) \<noteq> None
      then drop 2 s else s)"

definition strtol16 :: "string \<Rightarrow> int" where
  "strtol16 str =
     (let s = dropWhile is_space str;
          neg = (s \<noteq> [] \<and> hd s = CHR ''-'');
          s' = (if s \<noteq> [] \<and> hd s \<in> {CHR ''-'', CHR ''+''} then tl s else s);
          v = int (hex_value 0 (strip_0x s')) in
      if neg then max (- (2 ^ 63)) (- v) else min (2 ^ 63 - 1) v)"

text \<open>
  One call of \<^verbatim>\<open>cs_disasm_iter\<close> at index \<open>pos\<close> with \<open>sz\<close> readable bytes.
\<close>

definition disasm_at :: "disasm \<Rightarrow> bytes \<Rightarrow> nat \<Rightarrow> nat \<Rightarrow> u64 \<Rightarrow> insn option res" where
  "disasm_at dis code pos sz addr =
     bindE (bread code pos sz) (\<lambda>bs. Inr (dis bs addr))"

text \<open>
  \<^verbatim>\<open>printInstructions\<close> over the bytes it may read: instruction count, whether every byte
  was consumed, and the listing. An instruction that consumes nothing would make the loop of
  the source run forever; one larger than the rest is outside Capstone's contract.
\<close>

definition insn_line :: "insn \<Rightarrow> string" where
  "insn_line ins = mnemonic ins @ [CHR 0x09] @ op_str ins @ [CHR 0x0A]"

function print_insns :: "disasm \<Rightarrow> bytes \<Rightarrow> u64 \<Rightarrow> nat \<Rightarrow> string \<Rightarrow>
    (nat \<times> bool \<times> string) res" where
  "print_insns dis bs addr n out =
     (case dis bs addr of
        None \<Rightarrow> Inr (n, bs = [], out)
      | Some ins \<Rightarrow>
          if insn_size ins = 0 \<or> length bs < insn_size ins then Inl DoesNotReturn
          else if mnemonic ins = ''ret''
          then Inr (Suc n, length bs = insn_size ins, out @ insn_line ins)
          else print_insns dis (drop (insn_size ins) bs) (addr + of_nat (insn_size ins))
                 (Suc n) (out @ insn_line ins))"
  by pat_completeness auto
termination
  by (relation "measure (\<lambda>(dis, bs, addr, n, out). length bs)") auto

declare print_insns.simps [simp del]

definition printInstructions :: "disasm \<Rightarrow> bytes \<Rightarrow> nat \<Rightarrow> u32 \<Rightarrow> u64 \<Rightarrow>
    (nat \<times> bool \<times> string) res" where
  "printInstructions dis data pos offset index =
     bindE (bread data pos (unat offset)) (\<lambda>bs. print_insns dis bs index 0 '''')"

text \<open>
  \<^verbatim>\<open>isIntendedInstruction\<close>: decode on from the start while the position is before the
  target; \<open>c\<close> is the number of bytes consumed, \<^verbatim>\<open>code - ptr\<close>.
\<close>

function intended_loop :: "disasm \<Rightarrow> bytes \<Rightarrow> u64 \<Rightarrow> nat \<Rightarrow> nat \<Rightarrow> nat res" where
  "intended_loop dis bs addr c target =
     (case dis bs addr of
        None \<Rightarrow> Inr c
      | Some ins \<Rightarrow>
          if insn_size ins = 0 \<or> length bs < insn_size ins then Inl DoesNotReturn
          else if c + insn_size ins < target
          then intended_loop dis (drop (insn_size ins) bs) (addr + of_nat (insn_size ins))
                 (c + insn_size ins) target
          else Inr (c + insn_size ins))"
  by pat_completeness auto
termination
  by (relation "measure (\<lambda>(dis, bs, addr, c, target). length bs)") auto

declare intended_loop.simps [simp del]

definition isIntendedInstruction :: "disasm \<Rightarrow> bytes \<Rightarrow> nat \<Rightarrow> u32 \<Rightarrow> u64 \<Rightarrow> bool res" where
  "isIntendedInstruction dis data pos offset index =
     bindE (bread data pos (unat (offset + 10))) (\<lambda>bs.
     bindE (intended_loop dis bs index 0 (unat offset)) (\<lambda>c. Inr (c = unat offset)))"

definition isValidInstruction :: "disasm \<Rightarrow> bytes \<Rightarrow> u32 \<Rightarrow> u64 \<Rightarrow> bool res" where
  "isValidInstruction dis data offset index =
     bindE (disasm_at dis data (unat offset) 10 (index + ucast offset)) (\<lambda>r. Inr (r \<noteq> None))"

text \<open>
  \<^verbatim>\<open>isReturnAddress\<close>: 0 for no instruction at the address or no call right before it, 1 for
  a call with an unknown target, else the target \<^verbatim>\<open>strtol\<close> reads from the operand.
\<close>

definition is_call :: "insn \<Rightarrow> nat \<Rightarrow> bool" where
  "is_call ins i \<longleftrightarrow> insn_size ins = i \<and> (mnemonic ins = ''call'' \<or> mnemonic ins = ''lcall'')"

definition call_target :: "insn \<Rightarrow> u64" where
  "call_target ins =
     (if take 2 (op_str ins) = ''0x'' then word_of_int (strtol16 (drop 2 (op_str ins))) else 1)"

fun call_before :: "disasm \<Rightarrow> bytes \<Rightarrow> u32 \<Rightarrow> u64 \<Rightarrow> nat list \<Rightarrow> u64 res" where
  "call_before dis data offset index [] = Inr 0"
| "call_before dis data offset index (i # is) =
     bindE (guardE OutOfBounds (i \<le> unat offset)) (\<lambda>_.
     bindE (disasm_at dis data (unat offset - i) 20 (index + ucast offset - of_nat i)) (\<lambda>r.
       case r of
         Some ins \<Rightarrow> (if is_call ins i then Inr (call_target ins)
                       else call_before dis data offset index is)
       | None \<Rightarrow> call_before dis data offset index is))"

definition call_sizes :: "nat list" where
  "call_sizes = [2..<8]"

definition isReturnAddress :: "disasm \<Rightarrow> bytes \<Rightarrow> u32 \<Rightarrow> u64 \<Rightarrow> u64 res" where
  "isReturnAddress dis data offset index =
     bindE (isValidInstruction dis data offset index) (\<lambda>v.
       if \<not> v then Inr 0 else call_before dis data offset index call_sizes)"

subsection \<open>Instruction boundaries\<close>

text \<open>
  The specification of \<open>isIntendedInstruction\<close>: the positions a linear sweep from the start
  of the buffer reaches.
\<close>

inductive boundary :: "disasm \<Rightarrow> bytes \<Rightarrow> u64 \<Rightarrow> nat \<Rightarrow> bool" where
  boundary_first: "dis bs addr = Some ins \<Longrightarrow> 0 < insn_size ins \<Longrightarrow>
     boundary dis bs addr (insn_size ins)"
| boundary_next: "dis bs addr = Some ins \<Longrightarrow> 0 < insn_size ins \<Longrightarrow>
     boundary dis (drop (insn_size ins) bs) (addr + of_nat (insn_size ins)) n \<Longrightarrow>
     boundary dis bs addr (insn_size ins + n)"

inductive_cases boundaryE: "boundary dis bs addr n"

lemma boundary_positive: "boundary dis bs addr n \<Longrightarrow> 0 < n"
  by (induction rule: boundary.induct) auto

lemma boundary_unfold:
  "dis bs addr = Some ins \<Longrightarrow> boundary dis bs addr n \<Longrightarrow>
     n = insn_size ins \<or>
     (insn_size ins < n \<and>
      boundary dis (drop (insn_size ins) bs) (addr + of_nat (insn_size ins)) (n - insn_size ins))"
  by (erule boundaryE) (auto dest: boundary_positive)

lemma boundary_None: "dis bs addr = None \<Longrightarrow> \<not> boundary dis bs addr n"
  by (auto elim: boundaryE)

text \<open>Capstone's contract: a decoded instruction is not empty and lies in the bytes given.\<close>

definition disasm_ok :: "disasm \<Rightarrow> bool" where
  "disasm_ok dis \<longleftrightarrow>
     (\<forall>bs addr ins. dis bs addr = Some ins \<longrightarrow> 0 < insn_size ins \<and> insn_size ins \<le> length bs)"

lemma disasm_okD:
  "disasm_ok dis \<Longrightarrow> dis bs addr = Some ins \<Longrightarrow> 0 < insn_size ins \<and> insn_size ins \<le> length bs"
  by (auto simp: disasm_ok_def)

lemma intended_loop_boundary:
  "disasm_ok dis \<Longrightarrow> c < target \<Longrightarrow>
    \<exists>r. intended_loop dis bs addr c target = Inr r \<and>
        (r = target \<longleftrightarrow> boundary dis bs addr (target - c))"
proof (induction dis bs addr c target rule: intended_loop.induct)
  case (1 dis bs addr c target)
  show ?case
  proof (cases "dis bs addr")
    case None
    with 1 show ?thesis by (auto simp: intended_loop.simps [of dis bs] boundary_None)
  next
    case (Some ins)
    from disasm_okD [OF "1.prems"(1) Some]
    have ok: "0 < insn_size ins" "insn_size ins \<le> length bs" by simp_all
    let ?n = "insn_size ins"
    show ?thesis
    proof (cases "c + ?n < target")
      case True
      with "1.IH" [OF Some] "1.prems"(1) ok obtain r where
        r: "intended_loop dis (drop ?n bs) (addr + of_nat ?n) (c + ?n) target = Inr r"
          "(r = target) = boundary dis (drop ?n bs) (addr + of_nat ?n) (target - (c + ?n))"
        by auto
      have "boundary dis bs addr (target - c)
          = boundary dis (drop ?n bs) (addr + of_nat ?n) (target - c - ?n)"
        using boundary_unfold [of dis bs addr ins "target - c"] True
          boundary_next [of dis bs addr ins "target - c - ?n"] Some ok by auto
      with r Some ok True show ?thesis by (simp add: intended_loop.simps [of dis bs])
    next
      case False
      with "1.prems" Some ok have "boundary dis bs addr (target - c) \<longleftrightarrow> c + ?n = target"
        using boundary_unfold [of dis bs addr ins "target - c"] boundary_first [of dis bs addr ins]
        by auto
      with Some ok False show ?thesis by (simp add: intended_loop.simps [of dis bs])
    qed
  qed
qed

text \<open>C10: the validators' question whether a pointer hits an instruction the compiler emitted
  is answered by the linear sweep: true exactly on the instruction boundaries of the function.\<close>

theorem isIntendedInstruction_iff_boundary:
  assumes "disasm_ok dis" and "0 < offset"
    and "bread data pos (unat (offset + 10)) = Inr code"
  shows "isIntendedInstruction dis data pos offset index
       = Inr (boundary dis code index (unat offset))"
proof -
  have "0 < unat offset" using assms(2) by (simp add: unat_gt_0 word_neq_0_conv)
  then obtain r where "intended_loop dis code index 0 (unat offset) = Inr r"
    "(r = unat offset) = boundary dis code index (unat offset - 0)"
    using intended_loop_boundary [OF assms(1)] by blast
  with assms(3) show ?thesis by (simp add: isIntendedInstruction_def)
qed


theorem isIntendedInstruction_iff_boundary_witness:
  "isIntendedInstruction
     (\<lambda>bs a. if bs = [] then None else Some \<lparr>insn_size = 1, mnemonic = ''nop'', op_str = []\<rparr>)
     (replicate 20 0x90) 0 3 0
   = Inr (boundary
     (\<lambda>bs a. if bs = [] then None else Some \<lparr>insn_size = 1, mnemonic = ''nop'', op_str = []\<rparr>)
     (replicate 13 0x90) 0 3)"
  by (subst isIntendedInstruction_iff_boundary [where code = "replicate 13 0x90"])
    (auto simp: disasm_ok_def bread_def not_le Suc_le_eq split: if_splits)

subsection \<open>Call targets\<close>

lemma strtol16_bounds: "- (2 ^ 63) \<le> strtol16 s \<and> strtol16 s \<le> 2 ^ 63 - 1"
  by (auto simp: strtol16_def Let_def)

lemma strtol16_digits_nonneg:
  assumes "s \<noteq> []" and "hex_digit (hd s) \<noteq> None"
  shows "0 \<le> strtol16 s"
proof -
  have "\<not> is_space (hd s)" "hd s \<noteq> CHR ''-''"
    using assms(2) by (auto simp: hex_digit_def is_space_def Let_def split: if_splits)
  with assms(1) have "dropWhile is_space s = s" "hd s \<noteq> CHR ''-''"
    by (cases s; simp)+
  then show ?thesis by (simp add: strtol16_def Let_def)
qed

lemma call_target_bound:
  assumes "take 2 (op_str ins) = ''0x'' \<longrightarrow>
      2 < length (op_str ins) \<and> hex_digit (op_str ins ! 2) \<noteq> None"
  shows "unat (call_target ins) < 2 ^ 63"
proof (cases "take 2 (op_str ins) = ''0x''")
  case True
  let ?v = "strtol16 (drop 2 (op_str ins))"
  have "0 \<le> ?v" using assms True by (intro strtol16_digits_nonneg) (auto simp: hd_drop_conv_nth)
  moreover have "?v \<le> 2 ^ 63 - 1" using strtol16_bounds by blast
  ultimately show ?thesis using True
    by (simp add: call_target_def unat_eq_nat_uint uint_word_of_int nat_less_iff)
qed (simp add: call_target_def)

lemma call_before_bound:
  assumes "call_before dis data offset index is = Inr r"
    and "\<And>bs a ins. dis bs a = Some ins \<Longrightarrow> unat (call_target ins) < 2 ^ 63"
  shows "unat r < 2 ^ 63"
  using assms(1)
proof (induction "is")
  case (Cons i "is")
  from Cons.prems obtain x where
    "disasm_at dis data (unat offset - i) 20 (index + ucast offset - of_nat i) = Inr x" and
    c: "(case x of
         Some ins \<Rightarrow> (if is_call ins i then Inr (call_target ins)
                       else call_before dis data offset index is)
       | None \<Rightarrow> call_before dis data offset index is) = Inr r"
    by auto
  then show ?case using Cons.IH assms(2)
    by (auto simp: disasm_at_def split: option.splits if_splits)
qed simp

text \<open>\<^verbatim>\<open>strtol\<close> saturates at the largest \<^verbatim>\<open>long\<close>, so with
  Capstone's operand format the call target \<^verbatim>\<open>isReturnAddress\<close> reports is always below
  \<^verbatim>\<open>2^63\<close>, while every kernel function lies above it: comparing the target of a direct
  call with a kernel function address, as \<^verbatim>\<open>validateStackPage\<close> does, never succeeds.\<close>

theorem isReturnAddress_not_kernel:
  assumes "isReturnAddress dis data offset index = Inr callAddr"
    and "\<And>bs a ins. dis bs a = Some ins \<Longrightarrow> take 2 (op_str ins) = ''0x'' \<Longrightarrow>
      2 < length (op_str ins) \<and> hex_digit (op_str ins ! 2) \<noteq> None"
  shows "unat callAddr < 2 ^ 63"
proof -
  have "unat (call_target ins) < 2 ^ 63" if "dis bs a = Some ins" for bs a ins
    using assms(2) [OF that] by (intro call_target_bound) blast
  then have "?thesis" if "call_before dis data offset index call_sizes = Inr callAddr"
    using that by (metis call_before_bound)
  moreover have "callAddr = 0 \<or> call_before dis data offset index call_sizes = Inr callAddr"
    using assms(1) by (auto simp: isReturnAddress_def split: if_splits)
  ultimately show ?thesis by auto
qed

definition call_example :: disasm where
  "call_example bs a =
     (if length bs = 20
      then Some \<lparr>insn_size = 5, mnemonic = ''call'', op_str = ''0xffffffff81001234''\<rparr>
      else if length bs = 10 then Some \<lparr>insn_size = 1, mnemonic = ''nop'', op_str = []\<rparr>
      else None)"

lemma call_example_value:
  "isReturnAddress call_example (replicate 32 0x90) 8 0xffffffff81000000
     = Inr 0x7fffffffffffffff"
  by (simp add: isReturnAddress_def isValidInstruction_def disasm_at_def bread_def
      call_example_def call_sizes_def upt_rec is_call_def call_target_def strtol16_def is_space_def
      strip_0x_def hex_digit_def Let_def)

theorem isReturnAddress_not_kernel_witness:
  "isReturnAddress call_example (replicate 32 0x90) 8 0xffffffff81000000
     = Inr 0x7fffffffffffffff \<and> unat (0x7fffffffffffffff :: u64) < 2 ^ 63"
  using isReturnAddress_not_kernel [OF call_example_value] call_example_value
  by (auto simp: call_example_def hex_digit_def Let_def split: if_splits)

end
