(* ===== verification/ElfFile.thy ===== *)
theory ElfFile
  imports Helpers
begin

text \<open>
  \<^verbatim>\<open>src/elffile.h\<close>, \<^verbatim>\<open>src/elffile.cpp\<close> and
  \<^verbatim>\<open>src/elffile64.cpp\<close> without the relocations (theory \<open>Relocation\<close>): the parsed
  ELF file, its section and segment tables, the lookups on them, dependencies and symbols.

  The file is host memory (\<open>mem\<close>), read with the layout of the structures of
  \<^verbatim>\<open><elf.h>\<close>; a host pointer is a 64-bit word. A pointer to an element of the
  \<^verbatim>\<open>sections\<close> or \<^verbatim>\<open>segments\<close> vector is its index.
\<close>

section \<open>Constants and structures of \<^verbatim>\<open><elf.h>\<close>\<close>

definition ET_REL :: u16 where "ET_REL = 1"
definition ET_EXEC :: u16 where "ET_EXEC = 2"
definition ET_DYN :: u16 where "ET_DYN = 3"
definition PT_LOAD :: u32 where "PT_LOAD = 1"
definition PF_X :: u32 where "PF_X = 1"
definition PF_W :: u32 where "PF_W = 2"
definition PF_R :: u32 where "PF_R = 4"
definition SHT_PROGBITS :: u32 where "SHT_PROGBITS = 1"
definition SHT_SYMTAB :: u32 where "SHT_SYMTAB = 2"
definition SHT_RELA :: u32 where "SHT_RELA = 4"
definition SHT_NOTE :: u32 where "SHT_NOTE = 7"
definition SHT_REL :: u32 where "SHT_REL = 9"
definition SHF_WRITE :: u64 where "SHF_WRITE = 1"
definition SHF_ALLOC :: u64 where "SHF_ALLOC = 2"
definition SHF_EXECINSTR :: u64 where "SHF_EXECINSTR = 4"
definition SHF_STRINGS :: u64 where "SHF_STRINGS = 0x20"
definition SHN_UNDEF :: u16 where "SHN_UNDEF = 0"
definition SHN_ABS :: u16 where "SHN_ABS = 0xfff1"
definition SHN_COMMON :: u16 where "SHN_COMMON = 0xfff2"
definition STB_LOCAL :: u8 where "STB_LOCAL = 0"
definition STB_WEAK :: u8 where "STB_WEAK = 2"
definition STT_FUNC :: u8 where "STT_FUNC = 2"
definition DT_NULL :: u64 where "DT_NULL = 0"
definition DT_NEEDED :: u64 where "DT_NEEDED = 1"
definition DT_SONAME :: u64 where "DT_SONAME = 14"
definition ELFCLASS64 :: u8 where "ELFCLASS64 = 2"

lemmas elf_consts = ET_REL_def ET_EXEC_def ET_DYN_def PT_LOAD_def PF_X_def PF_W_def PF_R_def
  SHT_PROGBITS_def SHT_SYMTAB_def SHT_RELA_def SHT_NOTE_def SHT_REL_def SHF_WRITE_def
  SHF_ALLOC_def SHF_EXECINSTR_def SHF_STRINGS_def SHN_UNDEF_def SHN_ABS_def SHN_COMMON_def
  STB_LOCAL_def STB_WEAK_def STT_FUNC_def DT_NULL_def DT_NEEDED_def DT_SONAME_def
  ELFCLASS64_def

definition ELF64_ST_BIND :: "u8 \<Rightarrow> u8" where "ELF64_ST_BIND i = drop_bit 4 i"
definition ELF64_ST_TYPE :: "u8 \<Rightarrow> u8" where "ELF64_ST_TYPE i = i AND 0xf"

text \<open>A field of \<open>n\<close> bytes at offset \<open>o\<close> of a structure.\<close>

definition fld :: "bytes \<Rightarrow> nat \<Rightarrow> nat \<Rightarrow> 'a::len word" where
  "fld b i n = of_le (take n (drop i b))"

record Elf64_Ehdr =
  e_type :: u16
  e_entry :: u64
  e_phoff :: u64
  e_shoff :: u64
  e_phnum :: u16
  e_shnum :: u16
  e_shstrndx :: u16

record Elf64_Shdr =
  sh_name :: u32
  sh_type :: u32
  sh_flags :: u64
  sh_addr :: u64
  sh_offset :: u64
  sh_size :: u64
  sh_link :: u32
  sh_info :: u32
  sh_addralign :: u64

record Elf64_Phdr =
  p_type :: u32
  p_flags :: u32
  p_offset :: u64
  p_vaddr :: u64
  p_paddr :: u64
  p_filesz :: u64
  p_memsz :: u64
  p_align :: u64

record Elf64_Sym =
  st_name :: u32
  st_info :: u8
  st_shndx :: u16
  st_value :: u64

definition dec_ehdr :: "bytes \<Rightarrow> Elf64_Ehdr" where
  "dec_ehdr b = \<lparr>e_type = fld b 16 2, e_entry = fld b 24 8, e_phoff = fld b 32 8,
     e_shoff = fld b 40 8, e_phnum = fld b 56 2, e_shnum = fld b 60 2, e_shstrndx = fld b 62 2\<rparr>"

definition dec_shdr :: "bytes \<Rightarrow> Elf64_Shdr" where
  "dec_shdr b = \<lparr>sh_name = fld b 0 4, sh_type = fld b 4 4, sh_flags = fld b 8 8,
     sh_addr = fld b 16 8, sh_offset = fld b 24 8, sh_size = fld b 32 8, sh_link = fld b 40 4,
     sh_info = fld b 44 4, sh_addralign = fld b 48 8\<rparr>"

definition dec_phdr :: "bytes \<Rightarrow> Elf64_Phdr" where
  "dec_phdr b = \<lparr>p_type = fld b 0 4, p_flags = fld b 4 4, p_offset = fld b 8 8,
     p_vaddr = fld b 16 8, p_paddr = fld b 24 8, p_filesz = fld b 32 8, p_memsz = fld b 40 8,
     p_align = fld b 48 8\<rparr>"

definition dec_sym :: "bytes \<Rightarrow> Elf64_Sym" where
  "dec_sym b = \<lparr>st_name = fld b 0 4, st_info = fld b 4 1, st_shndx = fld b 6 2,
     st_value = fld b 8 8\<rparr>"

definition ehdr :: "hostmem \<Rightarrow> Elf64_Ehdr res" where
  "ehdr m = mapE dec_ehdr (hread m (hbase m) 64)"

definition shdr :: "hostmem \<Rightarrow> nat \<Rightarrow> Elf64_Shdr res" where
  "shdr m i = bindE (ehdr m) (\<lambda>e.
     mapE dec_shdr (hread m (hbase m + e_shoff e + 64 * of_nat i) 64))"

definition phdr :: "hostmem \<Rightarrow> nat \<Rightarrow> Elf64_Phdr res" where
  "phdr m i = bindE (ehdr m) (\<lambda>e.
     mapE dec_phdr (hread m (hbase m + e_phoff e + 56 * of_nat i) 56))"

definition sym_at :: "hostmem \<Rightarrow> u64 \<Rightarrow> Elf64_Sym res" where
  "sym_at m p = mapE dec_sym (hread m p 24)"

section \<open>Sections, segments and symbols\<close>

record SectionInfo =
  si_name :: string
  secID :: u32
  si_offset :: u64
  si_index :: u64
  memindex :: u64
  si_size :: u64
  si_flags :: u64

text \<open>The default constructor; it leaves \<^verbatim>\<open>offset\<close> unset, here 0.\<close>

definition SectionInfo_default :: SectionInfo where
  "SectionInfo_default = \<lparr>si_name = '''', secID = 0xffffffff, si_offset = 0, si_index = 0,
     memindex = 0, si_size = 0, si_flags = 0\<rparr>"

definition containsElfAddress :: "SectionInfo \<Rightarrow> u64 \<Rightarrow> bool" where
  "containsElfAddress s address \<longleftrightarrow>
     si_index s \<le> address \<and> address \<le> si_index s + si_size s"

definition containsMemAddress :: "SectionInfo \<Rightarrow> u64 \<Rightarrow> bool" where
  "containsMemAddress s address \<longleftrightarrow>
     memindex s \<le> address \<and> address \<le> memindex s + si_size s"

definition isWritable :: "SectionInfo \<Rightarrow> bool" where
  "isWritable s = CHECKFLAGS (si_flags s) SHF_WRITE"

definition isExec :: "SectionInfo \<Rightarrow> bool" where
  "isExec s = CHECKFLAGS (si_flags s) SHF_ALLOC"

definition isAlloc :: "SectionInfo \<Rightarrow> bool" where
  "isAlloc s = CHECKFLAGS (si_flags s) SHF_EXECINSTR"

record SegmentInfo =
  sg_type :: u32
  sg_flags :: u32
  sg_offset :: u64
  sg_vaddr :: u64
  sg_paddr :: u64
  sg_filesz :: u64
  sg_memsz :: u64
  sg_align :: u64

record ElfSymbol =
  sy_name :: string
  sy_value :: u64
  sy_info :: u8
  sy_shndx :: u32
  sy_section :: "nat option"
  sy_segment :: "nat option"

record ElfFile64 =
  mem :: hostmem
  shstrindex :: u32
  sections :: "SectionInfo list"
  segments :: "SegmentInfo list"
  section_ids :: "u32 \<rightharpoonup> nat"
  section_names :: "string \<rightharpoonup> nat"
  symbolCount :: nat

section \<open>Loading\<close>

definition host_sectionName :: "hostmem \<Rightarrow> nat \<Rightarrow> string res" where
  "host_sectionName m i = bindE (ehdr m) (\<lambda>e.
     bindE (shdr m (unat (e_shstrndx e))) (\<lambda>str.
     bindE (shdr m i) (\<lambda>s.
       host_string m (hbase m + sh_offset str + ucast (sh_name s)))))"

definition section_of :: "hostmem \<Rightarrow> string \<Rightarrow> nat \<Rightarrow> Elf64_Shdr \<Rightarrow> SectionInfo" where
  "section_of m nm i s = \<lparr>si_name = nm, secID = of_nat i, si_offset = sh_offset s,
     si_index = hbase m + sh_offset s, memindex = sh_addr s, si_size = sh_size s,
     si_flags = sh_flags s\<rparr>"

definition add_section_id :: "u32 \<Rightarrow> nat \<Rightarrow> ElfFile64 \<Rightarrow> ElfFile64" where
  "add_section_id k v f = f\<lparr>section_ids := map_insert k v (section_ids f)\<rparr>"

definition add_section_name :: "string \<Rightarrow> nat \<Rightarrow> ElfFile64 \<Rightarrow> ElfFile64" where
  "add_section_name k v f = f\<lparr>section_names := map_insert k v (section_names f)\<rparr>"

definition load_section :: "nat \<Rightarrow> ElfFile64 \<Rightarrow> ElfFile64 res" where
  "load_section i f =
     bindE (host_sectionName (mem f) i) (\<lambda>nm.
     bindE (shdr (mem f) i) (\<lambda>s.
       let f1 = f\<lparr>sections := sections f @ [section_of (mem f) nm i s]\<rparr> in
       Inr (add_section_name nm i (add_section_id (of_nat i) i f1))))"

definition segment_of :: "Elf64_Phdr \<Rightarrow> SegmentInfo" where
  "segment_of h = \<lparr>sg_type = p_type h, sg_flags = p_flags h, sg_offset = p_offset h,
     sg_vaddr = p_vaddr h, sg_paddr = p_paddr h, sg_filesz = p_filesz h, sg_memsz = p_memsz h,
     sg_align = p_align h\<rparr>"

definition load_segment :: "nat \<Rightarrow> ElfFile64 \<Rightarrow> ElfFile64 res" where
  "load_segment i f =
     bindE (phdr (mem f) i) (\<lambda>h.
       Inr (if p_type h = PT_LOAD then f\<lparr>segments := segments f @ [segment_of h]\<rparr> else f))"

text \<open>The constructor.\<close>

definition ElfFile64_new :: "hostmem \<Rightarrow> ElfFile64 res" where
  "ElfFile64_new m =
     bindE (ehdr m) (\<lambda>e.
     bindE (foldE load_section [0..<unat (e_shnum e)]
       \<lparr>mem = m, shstrindex = ucast (e_shstrndx e), sections = [], segments = [],
        section_ids = Map.empty, section_names = Map.empty, symbolCount = 0\<rparr>) (\<lambda>f.
     foldE load_segment [0..<unat (e_phnum e)] f))"

text \<open>
  \<^verbatim>\<open>ElfFile::loadElfFile\<close> on a file's content that \<^verbatim>\<open>mmap\<close> put at
  \<open>base\<close>: \<open>None\<close> is the null pointer for a file that is not ELF.
\<close>

definition ELFMAG :: bytes where
  "ELFMAG = [0x7f, 0x45, 0x4c, 0x46]"

definition loadElfFile :: "bytes option \<Rightarrow> u64 \<Rightarrow> ElfFile64 option res" where
  "loadElfFile content base =
     (case content of
        None \<Rightarrow> Inr None
      | Some bs \<Rightarrow>
          if take 4 bs \<noteq> ELFMAG then Inr None
          else bindE (host8 \<lparr>hbase = base, hbytes = bs\<rparr> (base + 4)) (\<lambda>cls.
            if cls = ELFCLASS64
            then mapE Some (ElfFile64_new \<lparr>hbase = base, hbytes = bs\<rparr>)
            else Inl (ElfException ''unsupported elfclass!'')))"

section \<open>Lookups\<close>

definition getNrOfSections :: "ElfFile64 \<Rightarrow> nat res" where
  "getNrOfSections f = mapE (\<lambda>e. unat (e_shnum e)) (ehdr (mem f))"

definition findSectionWithName :: "ElfFile64 \<Rightarrow> string \<Rightarrow> SectionInfo res" where
  "findSectionWithName f nm =
     (case section_names f nm of
        Some i \<Rightarrow> Inr (sections f ! i)
      | None \<Rightarrow> Inl (Error ''could not find section by name''))"

definition findSectionByID :: "ElfFile64 \<Rightarrow> u32 \<Rightarrow> SectionInfo res" where
  "findSectionByID f k =
     (case section_ids f k of
        Some i \<Rightarrow> Inr (sections f ! i)
      | None \<Rightarrow> Inl (Error ''could not find section by id''))"

definition findSectionByOffset :: "ElfFile64 \<Rightarrow> u64 \<Rightarrow> SectionInfo option" where
  "findSectionByOffset f off = find (\<lambda>s. CONTAINS (si_offset s) (si_size s) off) (sections f)"

text \<open>Both questions stop at the first section that contains the address.\<close>

fun first_section :: "ElfFile64 \<Rightarrow> (Elf64_Shdr \<Rightarrow> bool) \<Rightarrow> u64 \<Rightarrow> nat list \<Rightarrow> bool res" where
  "first_section f answer address [] = Inr False"
| "first_section f answer address (i # is) =
     bindE (shdr (mem f) i) (\<lambda>s.
       if CONTAINS (sh_addr s) (sh_size s) address then Inr (answer s)
       else first_section f answer address is)"

definition ElfFile64_isCodeAddress :: "ElfFile64 \<Rightarrow> u64 \<Rightarrow> bool res" where
  "ElfFile64_isCodeAddress f address =
     bindE (getNrOfSections f) (\<lambda>n.
       first_section f (\<lambda>s. CHECKFLAGS (sh_flags s) (SHF_ALLOC AND SHF_EXECINSTR)) address [0..<n])"

definition ElfFile64_isDataAddress :: "ElfFile64 \<Rightarrow> u64 \<Rightarrow> bool res" where
  "ElfFile64_isDataAddress f address =
     bindE (getNrOfSections f) (\<lambda>n.
       first_section f (\<lambda>s. CHECKFLAGS (sh_flags s) SHF_ALLOC \<and>
         \<not> CHECKFLAGS (sh_flags s) SHF_EXECINSTR) address [0..<n])"

definition sectionName :: "ElfFile64 \<Rightarrow> nat \<Rightarrow> string res" where
  "sectionName f i = host_sectionName (mem f) i"

definition sectionAddress :: "ElfFile64 \<Rightarrow> nat \<Rightarrow> u64 res" where
  "sectionAddress f i = mapE (\<lambda>s. hbase (mem f) + sh_offset s) (shdr (mem f) i)"

definition sectionAlign :: "ElfFile64 \<Rightarrow> nat \<Rightarrow> u64 res" where
  "sectionAlign f i = mapE sh_addralign (shdr (mem f) i)"

definition symbolName :: "ElfFile64 \<Rightarrow> u32 \<Rightarrow> u32 \<Rightarrow> string res" where
  "symbolName f index strindex =
     bindE (sectionAddress f (unat strindex)) (\<lambda>p. host_string (mem f) (p + ucast index))"

definition dynSymbolName :: "ElfFile64 \<Rightarrow> u64 \<Rightarrow> string res" where
  "dynSymbolName f off0 =
     bindE (findSectionWithName f ''.dynsym'') (\<lambda>symtab.
       let off = (if off0 mod 24 \<noteq> 0 then off0 - off0 mod 24 else off0) in
     bindE (assertE (off < si_size symtab)) (\<lambda>_.
     bindE (sym_at (mem f) (si_index symtab + off)) (\<lambda>sym.
     bindE (findSectionWithName f ''.dynstr'') (\<lambda>strtab.
       host_string (mem f) (si_index strtab + ucast (st_name sym))))))"

definition entryPoint :: "ElfFile64 \<Rightarrow> u64 res" where
  "entryPoint f = mapE e_entry (ehdr (mem f))"

definition isRelocatable :: "ElfFile64 \<Rightarrow> bool res" where
  "isRelocatable f = mapE (\<lambda>e. e_type e = ET_REL) (ehdr (mem f))"

definition isDynamic :: "ElfFile64 \<Rightarrow> bool res" where
  "isDynamic f = mapE (\<lambda>e. e_type e = ET_DYN) (ehdr (mem f))"

definition isExecutable :: "ElfFile64 \<Rightarrow> bool res" where
  "isExecutable f = mapE (\<lambda>e. e_type e = ET_EXEC) (ehdr (mem f))"

fun find_res :: "string \<Rightarrow> 'a option \<Rightarrow> 'a res" where
  "find_res msg (Some x) = Inr x"
| "find_res msg None = Inl (Error msg)"

definition findCodeSegment :: "ElfFile64 \<Rightarrow> SegmentInfo res" where
  "findCodeSegment f =
     find_res ''could not find code segment''
       (find (\<lambda>g. sg_type g = PT_LOAD \<and> sg_flags g = (PF_X OR PF_R)) (segments f))"

definition findDataSegment :: "ElfFile64 \<Rightarrow> SegmentInfo res" where
  "findDataSegment f =
     find_res ''could not find data segment''
       (find (\<lambda>g. sg_type g = PT_LOAD \<and> \<not> CHECKFLAGS (sg_flags g) PF_X) (segments f))"

text \<open>The first segment whose range, end included, holds the address; its index.\<close>

definition segment_contains :: "SegmentInfo \<Rightarrow> u64 \<Rightarrow> bool" where
  "segment_contains g addr \<longleftrightarrow> sg_vaddr g \<le> addr \<and> addr \<le> sg_vaddr g + sg_memsz g"

definition findSegmentByVaddr :: "ElfFile64 \<Rightarrow> u64 \<Rightarrow> nat res" where
  "findSegmentByVaddr f addr =
     find_res ''could not find segment by vaddr''
       (find (\<lambda>i. segment_contains (segments f ! i) addr) [0..<length (segments f)])"


section \<open>What the tables hold\<close>

interpretation section_id_map: first_wins section_ids add_section_id
  by unfold_locales (simp add: add_section_id_def map_insert_apply)

interpretation section_name_map: first_wins section_names add_section_name
  by unfold_locales (simp add: add_section_name_def map_insert_apply)

lemma add_section_frame [simp, ki_frame]:
  "sections (add_section_id k v f) = sections f" "mem (add_section_id k v f) = mem f"
  "section_names (add_section_id k v f) = section_names f"
  "sections (add_section_name q v f) = sections f" "mem (add_section_name q v f) = mem f"
  "section_ids (add_section_name q v f) = section_ids f"
  by (simp_all add: add_section_id_def add_section_name_def)

text \<open>
  The invariant of the constructor's first loop after \<open>k\<close> rounds: the vector holds the first
  \<open>k\<close> sections of the file, and both maps point at them, by number and by first name.
\<close>

definition section_loaded :: "ElfFile64 \<Rightarrow> nat \<Rightarrow> bool" where
  "section_loaded f i \<longleftrightarrow>
     (\<exists>nm s. host_sectionName (mem f) i = Inr nm \<and> shdr (mem f) i = Inr s \<and>
        sections f ! i = section_of (mem f) nm i s)"

definition first_named :: "ElfFile64 \<Rightarrow> string \<Rightarrow> nat option" where
  "first_named f nm = find (\<lambda>i. si_name (sections f ! i) = nm) [0..<length (sections f)]"

definition tables_ok :: "nat \<Rightarrow> ElfFile64 \<Rightarrow> bool" where
  "tables_ok k f \<longleftrightarrow>
     length (sections f) = k \<and> (\<forall>i < k. section_loaded f i) \<and>
     (\<forall>x. section_ids f x = (if unat x < k then Some (unat x) else None)) \<and>
     (\<forall>nm. section_names f nm = first_named f nm)"

lemma find_append:
  "find P (xs @ ys) = (case find P xs of Some x \<Rightarrow> Some x | None \<Rightarrow> find P ys)"
  by (induction xs) auto

lemma find_cong_set: "(\<And>x. x \<in> set xs \<Longrightarrow> P x = Q x) \<Longrightarrow> find P xs = find Q xs"
  by (induction xs) auto

lemma find_nth:
  "find P xs = map_option (\<lambda>i. xs ! i) (find (\<lambda>i. P (xs ! i)) [0..<length xs])"
proof (induction xs rule: rev_induct)
  case (snoc x xs)
  have "find (\<lambda>i. P ((xs @ [x]) ! i)) [0..<length xs] = find (\<lambda>i. P (xs ! i)) [0..<length xs]"
    by (rule find_cong_set) (simp add: nth_append)
  moreover have "find Q [length xs] = (if Q (length xs) then Some (length xs) else None)"
    for Q by simp
  ultimately have "find (\<lambda>i. P ((xs @ [x]) ! i)) [0..<length (xs @ [x])]
      = (case find (\<lambda>i. P (xs ! i)) [0..<length xs] of
           Some i \<Rightarrow> Some i | None \<Rightarrow> if P x then Some (length xs) else None)"
    by (simp add: find_append split: option.split)
  moreover have "i < length xs" if "find (\<lambda>i. P (xs ! i)) [0..<length xs] = Some i" for i
    using that by (auto simp: find_Some_iff)
  ultimately show ?case
    by (auto simp: find_append snoc.IH nth_append split: option.splits)
qed simp

lemma load_section_mem: "load_section i f = Inr f' \<Longrightarrow> mem f' = mem f"
  by (auto simp: load_section_def Let_def)

lemma unat_of_nat_u32: "k < 2 ^ 32 \<Longrightarrow> unat (of_nat k :: u32) = k"
  by (simp add: unat_of_nat)

lemma load_section_ok:
  assumes "load_section k f = Inr f'" and ok: "tables_ok k f" and k: "k < 2 ^ 32"
  shows "tables_ok (Suc k) f'"
proof -
  from assms(1) obtain nm s where
    nm: "host_sectionName (mem f) k = Inr nm" and s: "shdr (mem f) k = Inr s" and
    f': "f' = add_section_name nm k (add_section_id (of_nat k) k
           (f\<lparr>sections := sections f @ [section_of (mem f) nm k s]\<rparr>))"
    by (auto simp: load_section_def Let_def)
  let ?S = "section_of (mem f) nm k s"
  have len: "length (sections f) = k" using ok by (simp add: tables_ok_def)
  have secs: "sections f' = sections f @ [?S]" "mem f' = mem f" by (simp_all add: f')
  have old: "sections f' ! i = sections f ! i" if "i < k" for i
    using that len by (simp add: secs nth_append)
  have new: "sections f' ! k = ?S" using len by (simp add: secs nth_append)
  have loaded: "section_loaded f' i" if "i < Suc k" for i
    using that ok old new nm s
    by (cases "i = k") (auto simp: section_loaded_def tables_ok_def secs)
  have ids: "section_ids f' x = (if unat x < Suc k then Some (unat x) else None)" for x
  proof -
    have "x = of_nat k \<longleftrightarrow> unat x = k"
      by (simp add: word_unat_eq_iff unat_of_nat_u32 [OF k] del: of_nat_unat)
    with ok show ?thesis
      by (auto simp: f' section_id_map.look_add tables_ok_def unat_of_nat_u32 [OF k])
  qed
  have "first_named f' q
      = (case first_named f q of Some i \<Rightarrow> Some i | None \<Rightarrow> if nm = q then Some k else None)" for q
  proof -
    have "find (\<lambda>i. si_name (sections f' ! i) = q) [0..<k]
        = find (\<lambda>i. si_name (sections f ! i) = q) [0..<k]"
      by (rule find_cong_set) (simp add: old)
    then show ?thesis
      by (simp add: first_named_def secs(1) find_append len [symmetric] section_of_def
          split: option.splits)
  qed
  moreover have "section_names f q = first_named f q" for q
    using ok by (simp add: tables_ok_def)
  ultimately have "section_names f' q = first_named f' q" for q
    by (auto simp: f' section_name_map.look_add split: option.splits)
  then show ?thesis using loaded ids len by (simp add: tables_ok_def secs(1))
qed

lemma load_sections_ok:
  "foldE load_section [0..<k] f0 = Inr f \<Longrightarrow> tables_ok 0 f0 \<Longrightarrow> k \<le> 2 ^ 32 \<Longrightarrow>
     tables_ok k f \<and> mem f = mem f0"
proof (induction k arbitrary: f)
  case (Suc k)
  from Suc.prems(1) obtain g where g: "foldE load_section [0..<k] f0 = Inr g"
    and f: "load_section k g = Inr f"
    by (auto simp: foldE_append)
  with Suc show ?case
    using load_section_ok [OF f] load_section_mem [OF f] by auto
qed simp

lemma load_segment_frame:
  assumes "foldE load_segment is f = Inr f'"
  shows "mem f' = mem f \<and> sections f' = sections f \<and> section_ids f' = section_ids f \<and>
    section_names f' = section_names f"
  by (rule foldE_invariant [OF assms]) (auto simp: load_segment_def split: if_splits)

lemma tables_ok_cong:
  assumes "mem f' = mem f" "sections f' = sections f" "section_ids f' = section_ids f"
    "section_names f' = section_names f"
  shows "tables_ok k f' = tables_ok k f"
  using assms by (simp add: tables_ok_def section_loaded_def first_named_def)

lemma ElfFile64_new_tables:
  assumes "ElfFile64_new m = Inr f" and "ehdr m = Inr e"
  shows "tables_ok (unat (e_shnum e)) f \<and> mem f = m"
proof -
  let ?f0 = "\<lparr>mem = m, shstrindex = ucast (e_shstrndx e), sections = [], segments = [],
      section_ids = Map.empty, section_names = Map.empty, symbolCount = 0\<rparr>"
  from assms obtain g where
    g: "foldE load_section [0..<unat (e_shnum e)] ?f0 = Inr g" and
    f: "foldE load_segment [0..<unat (e_phnum e)] g = Inr f"
    by (auto simp: ElfFile64_new_def)
  have "tables_ok 0 ?f0" by (simp add: tables_ok_def first_named_def)
  moreover have "unat (e_shnum e) < 2 ^ LENGTH(16)" by (rule unsigned_less)
  then have "unat (e_shnum e) \<le> 2 ^ 32" by simp
  ultimately have "tables_ok (unat (e_shnum e)) g \<and> mem g = m"
    using load_sections_ok [OF g] by simp
  with load_segment_frame [OF f] show ?thesis
    by (simp add: tables_ok_cong [of f g])
qed

text \<open>A small file for the witnesses: two sections, the second is \<^verbatim>\<open>.text\<close>.\<close>

definition demo_ehdr :: "u16 \<Rightarrow> u64 \<Rightarrow> u64 \<Rightarrow> u16 \<Rightarrow> u16 \<Rightarrow> u16 \<Rightarrow> bytes" where
  "demo_ehdr type phoff shoff phnum shnum shstrndx =
     [0x7f, 0x45, 0x4c, 0x46, 2] @ replicate 11 0 @ to_le 2 type @ replicate 6 0 @
     to_le 8 (0x1040 :: u64) @ to_le 8 phoff @ to_le 8 shoff @ replicate 8 0 @ to_le 2 phnum @
     replicate 2 0 @ to_le 2 shnum @ to_le 2 shstrndx"

definition demo_shdr :: "u32 \<Rightarrow> u32 \<Rightarrow> u64 \<Rightarrow> u64 \<Rightarrow> u64 \<Rightarrow> u64 \<Rightarrow> u32 \<Rightarrow> u32 \<Rightarrow> bytes" where
  "demo_shdr nm type flags addr off sz lnk info =
     to_le 4 nm @ to_le 4 type @ to_le 8 flags @ to_le 8 addr @ to_le 8 off @ to_le 8 sz @
     to_le 4 lnk @ to_le 4 info @ replicate 16 0"

definition demo_mem :: hostmem where
  "demo_mem = \<lparr>hbase = 0x10000, hbytes =
     demo_ehdr 3 0 64 0 2 1 @ replicate 64 0 @ demo_shdr 0 3 2 0x1000 192 6 0 0 @
     [0x2e, 0x74, 0x65, 0x78, 0x74, 0]\<rparr>"

definition demo_file :: ElfFile64 where
  "demo_file = (case ElfFile64_new demo_mem of Inr f \<Rightarrow> f | Inl _ \<Rightarrow>
     \<lparr>mem = demo_mem, shstrindex = 0, sections = [], segments = [],
        section_ids = Map.empty, section_names = Map.empty, symbolCount = 0\<rparr>)"

lemma demo_parse:
  "mapE (\<lambda>f. map si_name (sections f)) (ElfFile64_new demo_mem) = Inr [''.text'', ''.text'']"
  by code_simp

lemma demo_new: "ElfFile64_new demo_mem = Inr demo_file"
  using demo_parse by (auto simp: demo_file_def mapE_def)

lemma demo_file_sections: "map si_name (sections demo_file) = [''.text'', ''.text'']"
  using demo_parse by (simp add: demo_new mapE_def)

definition demo_hdr :: Elf64_Ehdr where
  "demo_hdr = \<lparr>e_type = 3, e_entry = 0x1040, e_phoff = 0, e_shoff = 64, e_phnum = 0,
     e_shnum = 2, e_shstrndx = 1\<rparr>"

lemma demo_ehdr_ok: "ehdr demo_mem = Inr demo_hdr"
  by code_simp

text \<open>A section number of the header table finds exactly the section the constructor read
  for it from the file, with its name, host pointer, address, size and flags; every other number
  is the thrown \<^verbatim>\<open>Error\<close>.\<close>

theorem findSectionByID_spec:
  assumes "ElfFile64_new m = Inr f" and "ehdr m = Inr e"
  shows "if unat k < unat (e_shnum e)
    then \<exists>nm s. host_sectionName m (unat k) = Inr nm \<and> shdr m (unat k) = Inr s \<and>
           findSectionByID f k = Inr (section_of m nm (unat k) s)
    else findSectionByID f k = Inl (Error ''could not find section by id'')"
  using ElfFile64_new_tables [OF assms]
  by (auto simp: tables_ok_def section_loaded_def findSectionByID_def)

theorem findSectionByID_spec_witness:
  "(\<exists>nm s. host_sectionName demo_mem 1 = Inr nm \<and> shdr demo_mem 1 = Inr s \<and>
      findSectionByID demo_file 1 = Inr (section_of demo_mem nm 1 s)) \<and>
   findSectionByID demo_file 2 = Inl (Error ''could not find section by id'')"
  using findSectionByID_spec [OF demo_new demo_ehdr_ok, of 1]
    findSectionByID_spec [OF demo_new demo_ehdr_ok, of 2]
  by (simp add: demo_hdr_def)

text \<open>Looking a section up by name gives the first section of that name in header order, and
  throws exactly when no section has it.\<close>

theorem findSectionWithName_first:
  assumes "ElfFile64_new m = Inr f"
  shows "findSectionWithName f nm =
    (case find (\<lambda>s. si_name s = nm) (sections f) of
       Some s \<Rightarrow> Inr s
     | None \<Rightarrow> Inl (Error ''could not find section by name''))"
proof -
  from assms obtain e where "ehdr m = Inr e" by (auto simp: ElfFile64_new_def)
  with assms have "section_names f nm = first_named f nm"
    using ElfFile64_new_tables by (auto simp: tables_ok_def)
  then show ?thesis
    by (auto simp: findSectionWithName_def first_named_def
        find_nth [of "\<lambda>s. si_name s = nm" "sections f"] split: option.splits)
qed

theorem findSectionWithName_first_witness:
  "findSectionWithName demo_file ''.text'' = Inr (sections demo_file ! 0)"
proof -
  have "find (\<lambda>s. si_name s = ''.text'') (sections demo_file) = Some (sections demo_file ! 0)"
    using demo_file_sections by (cases "sections demo_file") auto
  with findSectionWithName_first [OF demo_new, of "''.text''"] show ?thesis by simp
qed

end
