(* ===== verification/ElfSymbols.thy ===== *)
theory ElfSymbols
  imports ElfFile
begin

text \<open>
  The second half of \<^verbatim>\<open>src/elffile64.cpp\<close>: the walk over \<^verbatim>\<open>.dynamic\<close>
  (\<^verbatim>\<open>getDependencies\<close>, \<^verbatim>\<open>isDynamicLibrary\<close>), the symbols a file exports
  (\<^verbatim>\<open>getSymbols\<close>) and those it enters into the symbol store
  (\<^verbatim>\<open>addSymbolsToStore\<close>), with what the lookups of \<open>ElfFile\<close> guarantee.

  The symbol store is a class of another repository: the calls made on it are the list of
  \<open>store_op\<close> values. The debug file \<^verbatim>\<open>loadDebugVersion\<close> finds on disk is the
  argument \<open>dbg\<close>.
\<close>

section \<open>The dynamic section\<close>

text \<open>
  The entries from a pointer on, up to the terminating \<^verbatim>\<open>DT_NULL\<close>: tag and value.
  The walk leaves the file when there is no terminator; of this only the tag is read.
\<close>

function dyn_entries :: "bytes \<Rightarrow> (u64 \<times> u64) list res" where
  "dyn_entries b =
     (if length b < 8 then Inl OutOfBounds
      else if fld b 0 8 = DT_NULL then Inr []
      else if length b < 16 then Inl OutOfBounds
      else bindE (dyn_entries (drop 16 b)) (\<lambda>r. Inr ((fld b 0 8, fld b 8 8) # r)))"
  by pat_completeness auto
termination
  by (relation "measure length") auto

declare dyn_entries.simps [simp del]

definition host_tail :: "hostmem \<Rightarrow> u64 \<Rightarrow> bytes" where
  "host_tail m p = drop (unat (p - hbase m)) (hbytes m)"

definition is_static :: "ElfFile64 \<Rightarrow> bool res" where
  "is_static f = bindE (isDynamic f) (\<lambda>d. bindE (isExecutable f) (\<lambda>x. Inr (\<not> d \<and> \<not> x)))"

text \<open>The search for \<^verbatim>\<open>DT_SONAME\<close> ends at the first one, before a missing terminator is noticed.\<close>

function soname_walk :: "bytes \<Rightarrow> bool res" where
  "soname_walk b =
     (if length b < 8 then Inl OutOfBounds
      else if fld b 0 8 = DT_NULL then Inr False
      else if fld b 0 8 = DT_SONAME then Inr True
      else soname_walk (drop 16 b))"
  by pat_completeness auto
termination
  by (relation "measure length") auto

declare soname_walk.simps [simp del]

definition isDynamicLibrary :: "ElfFile64 \<Rightarrow> bool res" where
  "isDynamicLibrary f =
     bindE (is_static f) (\<lambda>st.
       if st then Inr False
       else bindE (findSectionWithName f ''.dynamic'') (\<lambda>dynamic.
         soname_walk (host_tail (mem f) (si_index dynamic))))"

fun needed_names :: "hostmem \<Rightarrow> u64 \<Rightarrow> (u64 \<times> u64) list \<Rightarrow> string list res" where
  "needed_names m strtab [] = Inr []"
| "needed_names m strtab ((tag, val) # es) =
     (if tag = DT_NEEDED
      then bindE (host_string m (strtab + val)) (\<lambda>s.
           bindE (needed_names m strtab es) (\<lambda>r. Inr (s # r)))
      else needed_names m strtab es)"

definition getDependencies :: "ElfFile64 \<Rightarrow> string list res" where
  "getDependencies f =
     bindE (is_static f) (\<lambda>st.
       if st then Inr []
       else bindE (findSectionWithName f ''.dynamic'') (\<lambda>dynamic.
         bindE (findSectionWithName f ''.dynstr'') (\<lambda>dynstr.
         bindE (dyn_entries (host_tail (mem f) (si_index dynamic))) (\<lambda>es.
           needed_names (mem f) (si_index dynstr) es))))"

section \<open>Exported symbols\<close>

definition exported :: "Elf64_Sym \<Rightarrow> bool" where
  "exported s \<longleftrightarrow>
     st_shndx s \<noteq> SHN_UNDEF \<and> st_shndx s \<noteq> SHN_ABS \<and> st_shndx s \<noteq> SHN_COMMON"

text \<open>
  Where a symbol is: the section by its number and the segment by its address, each a lookup
  that may throw.
\<close>

definition locate_symbol :: "ElfFile64 \<Rightarrow> ElfSymbol \<Rightarrow> ElfSymbol res" where
  "locate_symbol f es =
     bindE (findSectionByID f (sy_shndx es)) (\<lambda>sec.
     bindE (findSegmentByVaddr f (sy_value es)) (\<lambda>seg.
       Inr (es\<lparr>sy_section := section_ids f (sy_shndx es), sy_segment := Some seg\<rparr>)))"

text \<open>One entry of the symbol table: \<open>None\<close> is the \<^verbatim>\<open>continue\<close>.\<close>

definition symbol_entry :: "ElfFile64 \<Rightarrow> bool \<Rightarrow> u64 \<Rightarrow> u64 \<Rightarrow> nat \<Rightarrow> ElfSymbol option res" where
  "symbol_entry f locate symtab strtab i =
     bindE (sym_at (mem f) (symtab + 24 * of_nat i)) (\<lambda>s.
       if \<not> exported s then Inr None
       else bindE (host_string (mem f) (strtab + ucast (st_name s))) (\<lambda>nm.
         if nm = [] then Inr None
         else if st_value s = 0 then Inr None
         else let es = \<lparr>sy_name = nm, sy_value = st_value s, sy_info = st_info s,
                         sy_shndx = ucast (st_shndx s), sy_section = None, sy_segment = None\<rparr> in
           if locate then mapE Some (locate_symbol f es) else Inr (Some es)))"

text \<open>
  The loop pushes onto \<^verbatim>\<open>ret\<close>; what it pushed before an exception stays there, so its
  result is the symbols and the exception, if any.
\<close>

fun symbol_loop :: "ElfFile64 \<Rightarrow> bool \<Rightarrow> u64 \<Rightarrow> u64 \<Rightarrow> nat list \<Rightarrow>
    ElfSymbol list \<Rightarrow> ElfSymbol list \<times> error option" where
  "symbol_loop f locate symtab strtab [] ret = (ret, None)"
| "symbol_loop f locate symtab strtab (i # is) ret =
     (case symbol_entry f locate symtab strtab i of
        Inl e \<Rightarrow> (ret, Some e)
      | Inr None \<Rightarrow> symbol_loop f locate symtab strtab is ret
      | Inr (Some s) \<Rightarrow> symbol_loop f locate symtab strtab is (ret @ [s]))"

definition symbols_in :: "ElfFile64 \<Rightarrow> bool \<Rightarrow> SectionInfo \<Rightarrow> SectionInfo \<Rightarrow>
    ElfSymbol list \<Rightarrow> ElfSymbol list \<times> error option" where
  "symbols_in f locate symtab strtab ret =
     symbol_loop f locate (si_index symtab) (si_index strtab) [0..<unat (si_size symtab) div 24] ret"

text \<open>
  The \<^verbatim>\<open>SHT_SYMTAB\<close> section and its string table; both default when there is none.
\<close>

fun find_symtab :: "ElfFile64 \<Rightarrow> nat list \<Rightarrow> (SectionInfo \<times> SectionInfo) res" where
  "find_symtab f [] = Inr (SectionInfo_default, SectionInfo_default)"
| "find_symtab f (i # is) =
     bindE (shdr (mem f) i) (\<lambda>s.
       if sh_type s = SHT_SYMTAB
       then bindE (findSectionByID f (of_nat i)) (\<lambda>symtab.
            bindE (findSectionByID f (sh_link s)) (\<lambda>strtab. Inr (symtab, strtab)))
       else find_symtab f is)"

text \<open>
  The \<^verbatim>\<open>try\<close> block. It catches the class \<^verbatim>\<open>Error\<close> and what derives from it,
  nothing else.
\<close>

fun is_Error :: "error \<Rightarrow> bool" where
  "is_Error (Error _) = True"
| "is_Error (InternalError _) = True"
| "is_Error _ = False"

definition own_symbols :: "ElfFile64 \<Rightarrow> bool \<Rightarrow> ElfSymbol list res" where
  "own_symbols f loadDbg =
     bindE (getNrOfSections f) (\<lambda>n.
       case find_symtab f [0..<n] of
         Inl e \<Rightarrow> (if is_Error e then Inr [] else Inl e)
       | Inr (symtab, strtab) \<Rightarrow>
           (case symbols_in f loadDbg symtab strtab [] of
              (ret, None) \<Rightarrow> Inr ret
            | (ret, Some e) \<Rightarrow> (if is_Error e then Inr ret else Inl e)))"

fun mapM_E :: "('a \<Rightarrow> 'b res) \<Rightarrow> 'a list \<Rightarrow> 'b list res" where
  "mapM_E g [] = Inr []"
| "mapM_E g (x # xs) = bindE (g x) (\<lambda>y. bindE (mapM_E g xs) (\<lambda>ys. Inr (y # ys)))"

text \<open>\<^verbatim>\<open>getSymbols(false)\<close>, the form called on the debug file.\<close>

definition getSymbols_plain :: "ElfFile64 \<Rightarrow> ElfSymbol list res" where
  "getSymbols_plain f =
     bindE (is_static f) (\<lambda>st. if st then Inr [] else own_symbols f False)"

text \<open>
  The symbols of the symbol table; the debug file's when there are none, with section and segment
  looked up in this file.
\<close>

definition internal_symbols :: "ElfFile64 \<Rightarrow> ElfFile64 option \<Rightarrow> ElfSymbol list res" where
  "internal_symbols f dbg =
     bindE (own_symbols f True) (\<lambda>own.
       case dbg of
         Some d \<Rightarrow> (if own = [] then bindE (getSymbols_plain d) (mapM_E (locate_symbol f))
                    else Inr own)
       | None \<Rightarrow> Inr own)"

text \<open>\<^verbatim>\<open>getSymbols(true)\<close>; it also stores the number of internal symbols.\<close>

definition getSymbols :: "ElfFile64 \<Rightarrow> ElfFile64 option \<Rightarrow> (ElfSymbol list \<times> ElfFile64) res" where
  "getSymbols f dbg =
     bindE (is_static f) (\<lambda>st.
       if st then Inr ([], f)
       else bindE (internal_symbols f dbg) (\<lambda>ret.
         let f' = f\<lparr>symbolCount := length ret\<rparr> in
         bindE (findSectionWithName f' ''.dynsym'') (\<lambda>symtab.
         bindE (findSectionWithName f' ''.dynstr'') (\<lambda>strtab.
           case symbols_in f' True symtab strtab ret of
             (all, None) \<Rightarrow> Inr (all, f')
           | (all, Some e) \<Rightarrow> Inl e))))"

section \<open>The symbol store\<close>

datatype store_op = AddSymbol string u64 | AddFunction string u64

text \<open>The last \<^verbatim>\<open>SHT_SYMTAB\<close> section and its link; index 0 means none.\<close>

fun last_symtab :: "hostmem \<Rightarrow> nat list \<Rightarrow> nat \<times> u32 \<Rightarrow> (nat \<times> u32) res" where
  "last_symtab m [] r = Inr r"
| "last_symtab m (i # is) r =
     bindE (shdr m i) (\<lambda>s.
       last_symtab m is (if sh_type s = SHT_SYMTAB then (i, sh_link s) else r))"

definition store_symbol :: "string \<Rightarrow> Elf64_Sym \<Rightarrow> u64 \<Rightarrow> store_op list" where
  "store_symbol nm s base =
     (let name = (if ELF64_ST_BIND (st_info s) = STB_LOCAL then nm @ ''@@'' @ ''kernel'' else nm);
          addr = st_value s in
      AddSymbol name addr #
      (if ELF64_ST_TYPE (st_info s) = STT_FUNC
       then [AddFunction name (if addr < base then addr + base else addr)] else []))"

fun store_loop :: "ElfFile64 \<Rightarrow> u64 \<Rightarrow> u32 \<Rightarrow> u64 \<Rightarrow> nat list \<Rightarrow> store_op list res" where
  "store_loop f symBase strindex base [] = Inr []"
| "store_loop f symBase strindex base (i # is) =
     bindE (sym_at (mem f) (symBase + 24 * of_nat i)) (\<lambda>s.
       if st_name s = 0 then store_loop f symBase strindex base is
       else bindE (symbolName f (st_name s) strindex) (\<lambda>nm.
         bindE (store_loop f symBase strindex base is) (\<lambda>r.
           Inr (store_symbol nm s base @ r))))"

text \<open>
  The pointer runs in steps of 24 while it is below \<^verbatim>\<open>symBase + symSize\<close>, so the number
  of steps is the size over 24, rounded up.
\<close>

definition addSymbolsToStore :: "ElfFile64 \<Rightarrow> u64 \<Rightarrow> store_op list res" where
  "addSymbolsToStore f base =
     bindE (getNrOfSections f) (\<lambda>n.
     bindE (last_symtab (mem f) [0..<n] (0, 0)) (\<lambda>(symindex, strindex).
       if symindex = 0 then Inr []
       else bindE (shdr (mem f) symindex) (\<lambda>s.
         let symSize = ucast (sh_size s) :: u32 in
         store_loop f (hbase (mem f) + sh_offset s) strindex base
           [0..<(unat symSize + 23) div 24])))"

section \<open>Code addresses\<close>

lemma first_section_const:
  assumes "\<And>i. i \<in> set is \<Longrightarrow> shdr (mem f) i = Inr (S i)"
  shows "first_section f (\<lambda>_. True) a is =
    Inr (\<exists>i \<in> set is. CONTAINS (sh_addr (S i)) (sh_size (S i)) a)"
  using assms by (induction "is") auto

lemma CHECKFLAGS_0: "CHECKFLAGS v 0"
  by (simp add: CHECKFLAGS_def)

text \<open>\<^verbatim>\<open>isCodeAddress\<close> tests the flags \<^verbatim>\<open>SHF_ALLOC & SHF_EXECINSTR\<close>, which
  is the empty mask: an address counts as code as soon as any section contains it, whatever the
  flags of that section are.\<close>

theorem isCodeAddress_any_section:
  assumes "ehdr (mem f) = Inr e"
    and "\<forall>i < unat (e_shnum e). shdr (mem f) i = Inr (S i)"
  shows "ElfFile64_isCodeAddress f a =
    Inr (\<exists>i < unat (e_shnum e). CONTAINS (sh_addr (S i)) (sh_size (S i)) a)"
proof -
  have mask: "CHECKFLAGS (sh_flags s) (SHF_ALLOC AND SHF_EXECINSTR)" for s
    by (simp add: elf_consts CHECKFLAGS_0)
  show ?thesis
    using assms first_section_const [of "[0..<unat (e_shnum e)]" f S a]
    by (auto simp: ElfFile64_isCodeAddress_def getNrOfSections_def mapE_def mask)
qed

text \<open>The demo file's second section has only \<^verbatim>\<open>SHF_ALLOC\<close> set.\<close>

definition demo_sections :: "nat \<Rightarrow> Elf64_Shdr" where
  "demo_sections i = (case shdr demo_mem i of Inr s \<Rightarrow> s | Inl _ \<Rightarrow> dec_shdr [])"

lemma demo_sections_ok: "\<forall>i < 2. shdr demo_mem i = Inr (demo_sections i)"
proof -
  have "\<not> isl (shdr demo_mem 0) \<and> \<not> isl (shdr demo_mem 1)" by code_simp
  then show ?thesis
    by (auto simp: demo_sections_def isl_def less_2_cases_iff split: sum.splits)
qed

lemma demo_section_1:
  "sh_flags (demo_sections 1) = SHF_ALLOC \<and>
   CONTAINS (sh_addr (demo_sections 1)) (sh_size (demo_sections 1)) 0x1002"
  by code_simp

lemma demo_file_mem: "mem demo_file = demo_mem"
  using ElfFile64_new_tables [OF demo_new demo_ehdr_ok] by simp

theorem isCodeAddress_any_section_witness:
  "ElfFile64_isCodeAddress demo_file 0x1002 = Inr True \<and>
   \<not> CHECKFLAGS (sh_flags (demo_sections 1)) SHF_EXECINSTR"
proof
  have "\<forall>i < unat (e_shnum demo_hdr). shdr (mem demo_file) i = Inr (demo_sections i)"
    using demo_sections_ok by (simp add: demo_hdr_def demo_file_mem)
  from isCodeAddress_any_section [where f = demo_file and a = "0x1002", OF _ this] demo_section_1
  show "ElfFile64_isCodeAddress demo_file 0x1002 = Inr True"
    by (auto simp: demo_file_mem demo_ehdr_ok demo_hdr_def intro!: exI [of _ 1])
  show "\<not> CHECKFLAGS (sh_flags (demo_sections 1)) SHF_EXECINSTR"
    using demo_section_1 by (simp add: CHECKFLAGS_def elf_consts)
qed

section \<open>Segments by address\<close>

lemma find_res_Inr_iff: "find_res msg r = Inr x \<longleftrightarrow> r = Some x"
  by (cases r) auto

lemma findSegmentByVaddr_Inr:
  "findSegmentByVaddr f a = Inr i \<longleftrightarrow>
     i < length (segments f) \<and> segment_contains (segments f ! i) a \<and>
     (\<forall>j < i. \<not> segment_contains (segments f ! j) a)"
  by (auto simp: findSegmentByVaddr_def find_res_Inr_iff find_Some_iff)

section \<open>Exported symbols are located\<close>

definition symbol_ok :: "ElfFile64 \<Rightarrow> ElfSymbol \<Rightarrow> bool" where
  "symbol_ok f s \<longleftrightarrow>
     sy_name s \<noteq> [] \<and> sy_value s \<noteq> 0 \<and>
     (\<forall>x \<in> {SHN_UNDEF, SHN_ABS, SHN_COMMON}. sy_shndx s \<noteq> ucast x)"

definition symbol_located :: "ElfFile64 \<Rightarrow> ElfSymbol \<Rightarrow> bool" where
  "symbol_located f s \<longleftrightarrow>
     sy_section s = Some (unat (sy_shndx s)) \<and> unat (sy_shndx s) < length (sections f) \<and>
     (\<exists>g. sy_segment s = Some g \<and> g < length (segments f) \<and>
        segment_contains (segments f ! g) (sy_value s))"

lemma ucast_u16_u32_inj: "(ucast (x :: u16) :: u32) = ucast y \<longleftrightarrow> x = y"
proof
  assume eq: "(ucast x :: u32) = ucast y"
  have "bit x n = bit y n" if "n < LENGTH(16)" for n
    using arg_cong [OF eq, of "\<lambda>w. bit w n"] that by (simp add: bit_simps)
  then show "x = y" by (rule bit_word_eqI)
qed simp

lemma symbol_entry_ok:
  assumes "symbol_entry f l symtab strtab i = Inr (Some s)"
  shows "symbol_ok f s"
  using assms
  by (auto simp: symbol_entry_def Let_def symbol_ok_def locate_symbol_def mapE_def exported_def
      ucast_u16_u32_inj split: if_splits)

lemma locate_symbol_located:
  assumes "locate_symbol f s = Inr s'" and "tables_ok n f"
  shows "symbol_located f s'" and "sy_name s' = sy_name s" and "sy_value s' = sy_value s"
    and "sy_shndx s' = sy_shndx s"
  using assms
  by (auto simp: locate_symbol_def symbol_located_def findSegmentByVaddr_Inr findSectionByID_def
      tables_ok_def split: if_splits)

lemma symbol_entry_located:
  assumes "symbol_entry f True symtab strtab i = Inr (Some s)" and "tables_ok n f"
  shows "symbol_located f s"
  using assms(1) locate_symbol_located(1) [OF _ assms(2)]
  by (auto simp: symbol_entry_def Let_def mapE_def split: if_splits)

lemma symbol_loop_all:
  "symbol_loop f l symtab strtab is ret = (all, r) \<Longrightarrow> \<forall>s \<in> set ret. P s \<Longrightarrow>
   (\<And>i s. symbol_entry f l symtab strtab i = Inr (Some s) \<Longrightarrow> P s) \<Longrightarrow> \<forall>s \<in> set all. P s"
  by (induction f l symtab strtab "is" ret rule: symbol_loop.induct)
    (auto split: sum.splits option.splits)

lemma symbol_loop_prefix:
  "symbol_loop f l symtab strtab is ret = (all, r) \<Longrightarrow> \<exists>new. all = ret @ new"
  by (induction f l symtab strtab "is" ret rule: symbol_loop.induct)
    (auto split: sum.splits option.splits)

lemma own_symbols_all:
  assumes "own_symbols f l = Inr ret"
    and "\<And>symtab strtab i s. symbol_entry f l symtab strtab i = Inr (Some s) \<Longrightarrow> P s"
  shows "\<forall>s \<in> set ret. P s"
  using assms(1) symbol_loop_all [where P = P and ret = "[]", OF _ _ assms(2)]
  by (auto simp: own_symbols_def symbols_in_def split: sum.splits if_splits option.splits prod.splits)

lemma mapM_E_all:
  assumes "mapM_E g xs = Inr ys" and "\<And>x y. x \<in> set xs \<Longrightarrow> g x = Inr y \<Longrightarrow> P y"
  shows "\<forall>y \<in> set ys. P y"
  using assms
proof (induction xs arbitrary: ys)
  case (Cons x xs)
  from Cons.prems(1) obtain y zs where "ys = y # zs" "g x = Inr y" "mapM_E g xs = Inr zs" by auto
  moreover from this have "P y" using Cons.prems(2) [of x y] by simp
  moreover have "\<forall>z \<in> set zs. P z"
    using Cons.IH [OF \<open>mapM_E g xs = Inr zs\<close>] Cons.prems(2) by (meson list.set_intros(2))
  ultimately show ?case by simp
qed simp

lemma symbol_entry_both:
  assumes "symbol_entry f True symtab strtab i = Inr (Some s)" and "tables_ok n f"
  shows "symbol_ok f s \<and> symbol_located f s"
  using symbol_entry_ok [OF assms(1)] symbol_entry_located [OF assms] by simp

lemma debug_symbols_both:
  assumes "getSymbols_plain d = Inr ss" and "mapM_E (locate_symbol f) ss = Inr ret"
    and tab: "tables_ok n f"
  shows "\<forall>s \<in> set ret. symbol_ok f s \<and> symbol_located f s"
proof (rule mapM_E_all [OF assms(2)])
  fix s s' assume s: "s \<in> set ss" and loc: "locate_symbol f s = Inr s'"
  have "\<forall>s \<in> set ss. symbol_ok d s"
    using assms(1) own_symbols_all [where P = "symbol_ok d", OF _ symbol_entry_ok]
    by (auto simp: getSymbols_plain_def split: if_splits)
  with s locate_symbol_located [OF loc tab]
  show "symbol_ok f s' \<and> symbol_located f s'" by (simp add: symbol_ok_def)
qed

lemma own_symbols_both:
  assumes "own_symbols f True = Inr ret" and "tables_ok n f"
  shows "\<forall>s \<in> set ret. symbol_ok f s \<and> symbol_located f s"
  using own_symbols_all [where P = "\<lambda>s. symbol_ok f s \<and> symbol_located f s", OF assms(1)]
    symbol_entry_both [OF _ assms(2)] by blast

lemma symbolCount_frame [simp, ki_frame]:
  "symbol_located (f\<lparr>symbolCount := c\<rparr>) s = symbol_located f s"
  "symbol_ok (f\<lparr>symbolCount := c\<rparr>) s = symbol_ok f s"
  by (simp_all add: symbol_located_def symbol_ok_def)

lemma tables_ok_symbolCount: "tables_ok n f \<Longrightarrow> tables_ok n (f\<lparr>symbolCount := c\<rparr>)"
  using tables_ok_cong [of "f\<lparr>symbolCount := c\<rparr>" f n] by simp

lemma internal_symbols_both:
  assumes "internal_symbols f dbg = Inr ret" and tab: "tables_ok n f"
  shows "\<forall>s \<in> set ret. symbol_ok f s \<and> symbol_located f s"
proof -
  from assms(1) obtain own where own: "own_symbols f True = Inr own" and
    r: "(case dbg of
          Some d \<Rightarrow> (if own = [] then bindE (getSymbols_plain d) (mapM_E (locate_symbol f))
                     else Inr own)
        | None \<Rightarrow> Inr own) = Inr ret"
    unfolding internal_symbols_def by (elim bindE_InrE)
  show ?thesis
  proof (cases "dbg = None \<or> own \<noteq> []")
    case True
    with r have "ret = own" by (cases dbg) simp_all
    with own_symbols_both [OF own tab] show ?thesis by simp
  next
    case False
    with r obtain d where "bindE (getSymbols_plain d) (mapM_E (locate_symbol f)) = Inr ret" by auto
    then obtain ss where "getSymbols_plain d = Inr ss" "mapM_E (locate_symbol f) ss = Inr ret"
      by (elim bindE_InrE)
    then show ?thesis by (rule debug_symbols_both [OF _ _ tab])
  qed
qed

lemma getSymbols_all:
  assumes "getSymbols f dbg = Inr (all, f')" and tab: "tables_ok n f"
  shows "(\<forall>s \<in> set all. symbol_ok f s \<and> symbol_located f s) \<and>
    (all \<noteq> [] \<longrightarrow> symbolCount f' \<le> length all)"
proof (cases "is_static f = Inr True")
  case True
  with assms show ?thesis by (auto simp: getSymbols_def)
next
  case False
  let ?P = "\<lambda>s. symbol_ok f s \<and> symbol_located f s"
  from False assms(1) obtain ret symtab strtab where
    ret: "internal_symbols f dbg = Inr ret" and f': "f' = f\<lparr>symbolCount := length ret\<rparr>"
    and all: "symbols_in f' True symtab strtab ret = (all, None)"
    by (auto simp: getSymbols_def Let_def simp del: split_paired_Ex
        split: if_splits option.splits prod.splits)
  have "?P s" if "symbol_entry f' True a b i = Inr (Some s)" for a b i s
    using symbol_entry_both [OF that [unfolded f'] tables_ok_symbolCount [OF tab]] by simp
  with internal_symbols_both [OF ret tab] have "\<forall>s \<in> set all. ?P s"
    using symbol_loop_all [where P = ?P, OF all [unfolded symbols_in_def]] by blast
  moreover have "\<exists>new. all = ret @ new"
    using symbol_loop_prefix [OF all [unfolded symbols_in_def]] .
  ultimately show ?thesis by (auto simp: f')
qed

section \<open>Encoding a dynamic section\<close>

definition enc_dyn :: "u64 \<times> u64 \<Rightarrow> bytes" where
  "enc_dyn e = to_le 8 (fst e) @ to_le 8 (snd e)"

lemma fld_enc_dyn [simp]:
  "fld (enc_dyn (t, v) @ r) 0 8 = t" "fld (enc_dyn (t, v) @ r) 8 8 = v"
  "length (enc_dyn (t, v)) = 16" "drop 16 (enc_dyn (t, v) @ r) = r"
  by (simp_all add: fld_def enc_dyn_def of_le_to_le)

lemma dyn_entries_enc:
  "\<forall>e \<in> set es. fst e \<noteq> DT_NULL \<Longrightarrow>
     dyn_entries (concat (map enc_dyn es) @ enc_dyn (DT_NULL, v) @ r) = Inr es"
proof (induction es)
  case Nil
  show ?case by (subst dyn_entries.simps) simp
next
  case (Cons e es)
  obtain t w where e: "e = (t, w)" by (cases e)
  with Cons show ?case by (subst dyn_entries.simps) (simp del: drop_append)
qed

lemma needed_names_strings:
  assumes "\<And>v. (DT_NEEDED, v) \<in> set es \<Longrightarrow> host_string m (p + v) = Inr (str v)"
  shows "needed_names m p es = Inr [str v. (t, v) \<leftarrow> es, t = DT_NEEDED]"
  using assms by (induction es) (auto)

section \<open>A dynamic file with one symbol\<close>

text \<open>
  One load segment, the sections \<^verbatim>\<open>.dynstr\<close>, \<^verbatim>\<open>.dynsym\<close> and
  \<^verbatim>\<open>.dynamic\<close>, the dependency \<^verbatim>\<open>m\<close> and the function
  \<^verbatim>\<open>f\<close>.
\<close>

definition dyn_phdr :: bytes where
  "dyn_phdr = to_le 4 PT_LOAD @ to_le 4 (5 :: u32) @ replicate 8 0 @ to_le 8 (0x1000 :: u64) @
     replicate 16 0 @ to_le 8 (0x100 :: u64) @ replicate 8 0"

definition dyn_str :: bytes where
  "dyn_str = map (\<lambda>c. if c = CHR ''?'' then 0 else u8_of_char c) ''?.dynsym?.dynstr?.dynamic?m?f?''"

definition dyn_symbols :: bytes where
  "dyn_symbols = replicate 24 0 @ to_le 4 (28 :: u32) @ [0x12, 0] @ to_le 2 (1 :: u16) @
     to_le 8 (0x1000 :: u64) @ replicate 8 0"

definition dyn_mem :: hostmem where
  "dyn_mem = \<lparr>hbase = 0x10000, hbytes =
     demo_ehdr 3 64 120 1 3 0 @ dyn_phdr @
     demo_shdr 9 3 2 0 312 30 0 0 @ demo_shdr 1 11 2 0 342 48 0 0 @
     demo_shdr 17 6 2 0 390 32 0 0 @ dyn_str @
     take 24 dyn_symbols @ drop 24 dyn_symbols @ enc_dyn (DT_NEEDED, 26) @ enc_dyn (DT_NULL, 0)\<rparr>"

lemma dyn_lengths [simp]:
  "length (demo_ehdr a b c d e f) = 64" "length (demo_shdr g h b c i j k l) = 64"
  "length dyn_phdr = 56" "length dyn_str = 30" "length dyn_symbols = 48"
  by (simp_all add: demo_ehdr_def demo_shdr_def dyn_phdr_def dyn_str_def dyn_symbols_def)

lemma dyn_reads:
  "hread dyn_mem 0x10000 64 = Inr (demo_ehdr 3 64 120 1 3 0)"
  "hread dyn_mem 0x10040 56 = Inr dyn_phdr"
  "hread dyn_mem 0x10078 64 = Inr (demo_shdr 9 3 2 0 312 30 0 0)"
  "hread dyn_mem 0x100B8 64 = Inr (demo_shdr 1 11 2 0 342 48 0 0)"
  "hread dyn_mem 0x100F8 64 = Inr (demo_shdr 17 6 2 0 390 32 0 0)"
  "hread dyn_mem 0x10156 24 = Inr (take 24 dyn_symbols)"
  "hread dyn_mem 0x1016E 24 = Inr (drop 24 dyn_symbols)"
  by (simp_all add: dyn_mem_def hread_def bread_chunk del: take_append drop_append)

lemma dyn_strings:
  "host_string dyn_mem (0x10138 + 9) = Inr ''.dynstr''"
  "host_string dyn_mem (0x10138 + 1) = Inr ''.dynsym''"
  "host_string dyn_mem (0x10138 + 17) = Inr ''.dynamic''"
  "host_string dyn_mem (0x10138 + 26) = Inr ''m''"
  "host_string dyn_mem (0x10138 + 28) = Inr ''f''"
proof -
  have "c_string (drop 9 dyn_str) = Inr ''.dynstr''" "c_string (drop 1 dyn_str) = Inr ''.dynsym''"
    "c_string (drop 17 dyn_str) = Inr ''.dynamic''" "c_string (drop 26 dyn_str) = Inr ''m''"
    "c_string (drop 28 dyn_str) = Inr ''f''" by code_simp+
  then show "host_string dyn_mem (0x10138 + 9) = Inr ''.dynstr''"
    "host_string dyn_mem (0x10138 + 1) = Inr ''.dynsym''"
    "host_string dyn_mem (0x10138 + 17) = Inr ''.dynamic''"
    "host_string dyn_mem (0x10138 + 26) = Inr ''m''"
    "host_string dyn_mem (0x10138 + 28) = Inr ''f''"
    by (simp_all add: dyn_mem_def host_string_def drop_chunk c_string_append
        del: take_append drop_append)
qed

lemma dyn_headers:
  "dec_ehdr (demo_ehdr 3 64 120 1 3 0) =
     \<lparr>e_type = 3, e_entry = 0x1040, e_phoff = 64, e_shoff = 120, e_phnum = 1, e_shnum = 3,
      e_shstrndx = 0\<rparr>"
  "dec_phdr dyn_phdr =
     \<lparr>p_type = PT_LOAD, p_flags = 5, p_offset = 0, p_vaddr = 0x1000, p_paddr = 0, p_filesz = 0,
      p_memsz = 0x100, p_align = 0\<rparr>"
  "dec_shdr (demo_shdr 9 3 2 0 312 30 0 0) =
     \<lparr>sh_name = 9, sh_type = 3, sh_flags = 2, sh_addr = 0, sh_offset = 312, sh_size = 30,
      sh_link = 0, sh_info = 0, sh_addralign = 0\<rparr>"
  "dec_shdr (demo_shdr 1 11 2 0 342 48 0 0) =
     \<lparr>sh_name = 1, sh_type = 11, sh_flags = 2, sh_addr = 0, sh_offset = 342, sh_size = 48,
      sh_link = 0, sh_info = 0, sh_addralign = 0\<rparr>"
  "dec_shdr (demo_shdr 17 6 2 0 390 32 0 0) =
     \<lparr>sh_name = 17, sh_type = 6, sh_flags = 2, sh_addr = 0, sh_offset = 390, sh_size = 32,
      sh_link = 0, sh_info = 0, sh_addralign = 0\<rparr>"
  "dec_sym (take 24 dyn_symbols) = \<lparr>st_name = 0, st_info = 0, st_shndx = 0, st_value = 0\<rparr>"
  "dec_sym (drop 24 dyn_symbols) =
     \<lparr>st_name = 28, st_info = 0x12, st_shndx = 1, st_value = 0x1000\<rparr>"
  by code_simp+

definition dyn_file :: ElfFile64 where
  "dyn_file = \<lparr>mem = dyn_mem, shstrindex = 0,
     sections =
       [\<lparr>si_name = ''.dynstr'', secID = 0, si_offset = 312, si_index = 0x10138, memindex = 0,
         si_size = 30, si_flags = 2\<rparr>,
        \<lparr>si_name = ''.dynsym'', secID = 1, si_offset = 342, si_index = 0x10156, memindex = 0,
         si_size = 48, si_flags = 2\<rparr>,
        \<lparr>si_name = ''.dynamic'', secID = 2, si_offset = 390, si_index = 0x10186, memindex = 0,
         si_size = 32, si_flags = 2\<rparr>],
     segments = [\<lparr>sg_type = PT_LOAD, sg_flags = 5, sg_offset = 0, sg_vaddr = 0x1000, sg_paddr = 0,
        sg_filesz = 0, sg_memsz = 0x100, sg_align = 0\<rparr>],
     section_ids = [0 \<mapsto> 0, 1 \<mapsto> 1, 2 \<mapsto> 2],
     section_names = [''.dynstr'' \<mapsto> 0, ''.dynsym'' \<mapsto> 1, ''.dynamic'' \<mapsto> 2],
     symbolCount = 0\<rparr>"

lemma hbase_dyn_mem [simp]: "hbase dyn_mem = 0x10000"
  by (simp add: dyn_mem_def)

lemma dyn_new: "ElfFile64_new dyn_mem = Inr dyn_file"
  using dyn_strings
  by (simp add: ElfFile64_new_def ehdr_def shdr_def phdr_def mapE_def dyn_reads dyn_headers
      upt_rec load_section_def load_segment_def host_sectionName_def Let_def section_of_def
      segment_of_def add_section_id_def add_section_name_def map_insert_def dyn_file_def
      fun_eq_iff)

lemma dyn_shdrs:
  "ehdr dyn_mem = Inr \<lparr>e_type = 3, e_entry = 0x1040, e_phoff = 64, e_shoff = 120, e_phnum = 1,
     e_shnum = 3, e_shstrndx = 0\<rparr>"
  "shdr dyn_mem 0 = Inr (dec_shdr (demo_shdr 9 3 2 0 312 30 0 0))"
  "shdr dyn_mem (Suc 0) = Inr (dec_shdr (demo_shdr 1 11 2 0 342 48 0 0))"
  "shdr dyn_mem (Suc (Suc 0)) = Inr (dec_shdr (demo_shdr 17 6 2 0 390 32 0 0))"
  by (simp_all add: ehdr_def shdr_def mapE_def dyn_reads dyn_headers(1))

lemma dyn_static: "is_static dyn_file = Inr False"
  by (simp add: is_static_def isDynamic_def isExecutable_def dyn_file_def dyn_shdrs mapE_def
      elf_consts)

lemma dyn_names:
  "findSectionWithName dyn_file ''.dynsym'' = Inr (sections dyn_file ! 1)"
  "findSectionWithName dyn_file ''.dynstr'' = Inr (sections dyn_file ! 0)"
  "findSectionWithName dyn_file ''.dynamic'' = Inr (sections dyn_file ! 2)"
  by (simp_all add: findSectionWithName_def dyn_file_def)

section \<open>Properties\<close>

text \<open>C8: Every symbol \<^verbatim>\<open>getSymbols\<close> returns for a parsed file, whether from the symbol
  table, the debug file or the dynamic symbol table, has a name, a nonzero value and a section
  index that is neither undefined, absolute nor common; its section is the one with this number
  and its segment one whose range holds the value. The count of internal symbols never exceeds
  the number of symbols returned.\<close>

theorem getSymbols_located:
  assumes "ElfFile64_new m = Inr f" and "getSymbols f dbg = Inr (all, f')"
  shows "(\<forall>s \<in> set all. symbol_ok f s \<and> symbol_located f s) \<and>
    (all \<noteq> [] \<longrightarrow> symbolCount f' \<le> length all)"
proof -
  from assms(1) obtain e where "ehdr m = Inr e" by (auto simp: ElfFile64_new_def)
  with assms show ?thesis using ElfFile64_new_tables getSymbols_all by blast
qed

theorem getSymbols_located_witness:
  "\<exists>f'. getSymbols dyn_file None =
     Inr ([\<lparr>sy_name = ''f'', sy_value = 0x1000, sy_info = 0x12, sy_shndx = 1,
            sy_section = Some 1, sy_segment = Some 0\<rparr>], f') \<and> symbolCount f' \<le> 1"
proof -
  let ?s = "\<lparr>sy_name = ''f'', sy_value = 0x1000, sy_info = 0x12, sy_shndx = 1,
    sy_section = Some 1, sy_segment = Some 0\<rparr>"
  have "own_symbols dyn_file True = Inr []"
    by (simp add: own_symbols_def getNrOfSections_def dyn_file_def dyn_shdrs mapE_def upt_rec
        dyn_headers elf_consts symbols_in_def SectionInfo_default_def)
  then have "internal_symbols dyn_file None = Inr []"
    by (simp add: internal_symbols_def)
  then have "getSymbols dyn_file None = Inr ([?s], dyn_file\<lparr>symbolCount := 0\<rparr>)"
    using dyn_strings dyn_static dyn_names
    by (simp add: getSymbols_def findSectionWithName_def Let_def symbols_in_def dyn_file_def
        upt_rec symbol_entry_def sym_at_def mapE_def dyn_reads dyn_headers exported_def elf_consts
        locate_symbol_def findSectionByID_def findSegmentByVaddr_def segment_contains_def)
  with getSymbols_located [OF dyn_new this] show ?thesis by auto
qed

text \<open>C9: For a dynamic file whose dynamic section is the encoding of a list of entries ended by
  \<^verbatim>\<open>DT_NULL\<close>, the dependencies are the strings of its \<^verbatim>\<open>DT_NEEDED\<close> entries, in
  order and nothing else; the walk stops at the terminator, whatever follows it.\<close>

theorem getDependencies_needed:
  assumes "is_static f = Inr False"
    and "findSectionWithName f ''.dynamic'' = Inr dynamic"
    and "findSectionWithName f ''.dynstr'' = Inr dynstr"
    and "host_tail (mem f) (si_index dynamic) =
      concat (map enc_dyn es) @ enc_dyn (DT_NULL, v) @ r"
    and "\<forall>e \<in> set es. fst e \<noteq> DT_NULL"
    and "\<forall>v. (DT_NEEDED, v) \<in> set es \<longrightarrow>
      host_string (mem f) (si_index dynstr + v) = Inr (str v)"
  shows "getDependencies f = Inr [str v. (t, v) \<leftarrow> es, t = DT_NEEDED]"
  using assms needed_names_strings [of es "mem f" "si_index dynstr" str]
  by (simp add: getDependencies_def dyn_entries_enc)

theorem getDependencies_needed_witness:
  "getDependencies dyn_file = Inr [''m'']"
proof -
  have "host_tail (mem dyn_file) (si_index (sections dyn_file ! 2)) =
      concat (map enc_dyn [(DT_NEEDED, 26)]) @ enc_dyn (DT_NULL, 0) @ []"
    by (simp add: host_tail_def dyn_file_def dyn_mem_def drop_chunk del: take_append drop_append)
  from getDependencies_needed [OF dyn_static dyn_names(3,2) this, where str = "\<lambda>_. ''m''"]
    dyn_strings
  show ?thesis by (simp add: elf_consts dyn_file_def)
qed

end
