(* ===== verification/Nops.thy ===== *)
theory Nops
  imports Prelude
begin

text \<open>
  \<^verbatim>\<open>src/kernel_headers.h\<close> and \<^verbatim>\<open>src/kernel_headers.cpp\<close>: the kernel's nop
  tables and the structures its patch sections hold, and
  \<^verbatim>\<open>ParavirtPatcher::add_nops\<close> of \<^verbatim>\<open>src/paravirt_patch.cpp\<close>, which every
  patcher ends with.

  A table is the byte array and the array of pointers into it, entry 0 being the null pointer.
  The locale \<open>nop_table\<close> is what the patchers need of a table; it is interpreted on
  both tables of the program.
\<close>

section \<open>The nop tables\<close>

record nops =
  nop_bytes :: bytes
  nop_ptrs :: "nat option list"

definition ASM_NOP_MAX :: nat where
  "ASM_NOP_MAX = 8"

definition p6nops :: bytes where
  "p6nops =
     [0x90] @
     [0x66, 0x90] @
     [0x0f, 0x1f, 0x00] @
     [0x0f, 0x1f, 0x40, 0] @
     [0x0f, 0x1f, 0x44, 0x00, 0] @
     [0x66, 0x0f, 0x1f, 0x44, 0x00, 0] @
     [0x0f, 0x1f, 0x80, 0, 0, 0, 0] @
     [0x0f, 0x1f, 0x84, 0x00, 0, 0, 0, 0] @
     [0x0f, 0x1f, 0x44, 0x00, 0]"

abbreviation (input) K8_NOP1 :: bytes where "K8_NOP1 \<equiv> [0x90]"
abbreviation (input) K8_NOP2 :: bytes where "K8_NOP2 \<equiv> 0x66 # K8_NOP1"
abbreviation (input) K8_NOP3 :: bytes where "K8_NOP3 \<equiv> 0x66 # K8_NOP2"
abbreviation (input) K8_NOP4 :: bytes where "K8_NOP4 \<equiv> 0x66 # K8_NOP3"

definition k8nops :: bytes where
  "k8nops =
     K8_NOP1 @ K8_NOP2 @ K8_NOP3 @ K8_NOP4 @ (K8_NOP3 @ K8_NOP2) @ (K8_NOP3 @ K8_NOP3) @
     (K8_NOP4 @ K8_NOP3) @ (K8_NOP4 @ K8_NOP4) @ (0x66 # K8_NOP4)"

definition nop_offsets :: "nat option list" where
  "nop_offsets =
     [None,
      Some 0,
      Some 1,
      Some (1 + 2),
      Some (1 + 2 + 3),
      Some (1 + 2 + 3 + 4),
      Some (1 + 2 + 3 + 4 + 5),
      Some (1 + 2 + 3 + 4 + 5 + 6),
      Some (1 + 2 + 3 + 4 + 5 + 6 + 7),
      Some (1 + 2 + 3 + 4 + 5 + 6 + 7 + 8)]"

definition p6_nops :: nops where
  "p6_nops = \<lparr>nop_bytes = p6nops, nop_ptrs = nop_offsets\<rparr>"

definition k8_nops :: nops where
  "k8_nops = \<lparr>nop_bytes = k8nops, nop_ptrs = nop_offsets\<rparr>"

text \<open>\<open>n\<close> bytes from the pointer in entry \<open>k\<close> of the table.\<close>

definition nop_read :: "nops \<Rightarrow> nat \<Rightarrow> nat \<Rightarrow> bytes res" where
  "nop_read t k n =
     (if k < length (nop_ptrs t)
      then (case nop_ptrs t ! k of None \<Rightarrow> Inl NullDeref | Some i \<Rightarrow> bread (nop_bytes t) i n)
      else Inl OutOfBounds)"

section \<open>Patch structures\<close>

record alt_instr =
  instr_offset :: "32 word"
  repl_offset :: "32 word"
  cpuid :: u16
  instrlen :: u8
  replacementlen :: u8

record paravirt_patch_site =
  ps_instr :: u64
  ps_instrtype :: u8
  ps_len :: u8
  ps_clobbers :: u16

record jump_entry =
  je_code :: u64
  je_target :: u64
  je_key :: u64

section \<open>Filling with nops\<close>

lemma unat_noplen: "unat (of_nat (min (unat len) ASM_NOP_MAX) :: u8) = min (unat len) ASM_NOP_MAX"
  by (simp add: unat_of_nat ASM_NOP_MAX_def min_def)

lemma unat_sub_noplen:
  "unat (len - of_nat (min (unat len) ASM_NOP_MAX) :: u8) = unat len - min (unat len) ASM_NOP_MAX"
proof -
  have "(of_nat (min (unat len) ASM_NOP_MAX) :: u8) \<le> len"
    by (simp add: word_le_nat_alt unat_noplen)
  then show ?thesis by (simp add: unat_sub unat_noplen)
qed

lemma noplen_decreases:
  "0 < len \<Longrightarrow> unat (len - of_nat (min (unat len) ASM_NOP_MAX) :: u8) < unat len"
  by (simp only: unat_sub_noplen) (simp add: ASM_NOP_MAX_def unat_gt_0 word_gt_0)

function add_nops :: "nops \<Rightarrow> bytes \<Rightarrow> nat \<Rightarrow> u8 \<Rightarrow> bytes res" where
  "add_nops t buf pos len =
     (if 0 < len
      then let noplen = min (unat len) ASM_NOP_MAX in
        bindE (nop_read t noplen noplen) (\<lambda>x.
        bindE (bwrite buf pos x) (\<lambda>buf'.
          add_nops t buf' (pos + noplen) (len - of_nat noplen)))
      else Inr buf)"
  by pat_completeness auto
termination
  by (relation "measure (\<lambda>(t, buf, pos, len). unat len)") (auto intro: noplen_decreases)

declare add_nops.simps [simp del]

text \<open>
  The specification: eight-byte nops, then one nop of the length left over.
\<close>

function nop_fill :: "(nat \<Rightarrow> bytes) \<Rightarrow> nat \<Rightarrow> bytes" where
  "nop_fill nop n =
     (if n = 0 then [] else nop (min n ASM_NOP_MAX) @ nop_fill nop (n - min n ASM_NOP_MAX))"
  by pat_completeness auto
termination
  by (relation "measure snd") (auto simp: ASM_NOP_MAX_def)

declare nop_fill.simps [simp del]

definition nop_of :: "nops \<Rightarrow> nat \<Rightarrow> bytes" where
  "nop_of t n = (case nop_read t n n of Inr x \<Rightarrow> x | Inl _ \<Rightarrow> [])"

locale nop_table =
  fixes t :: nops
  assumes nop_lengths: "1 \<le> n \<Longrightarrow> n \<le> ASM_NOP_MAX \<Longrightarrow> nop_read t n n = Inr (nop_of t n)"
begin

lemma length_nop: "1 \<le> n \<Longrightarrow> n \<le> ASM_NOP_MAX \<Longrightarrow> length (nop_of t n) = n"
  using nop_lengths [of n]
  by (auto simp: nop_read_def dest: length_bread split: if_splits option.splits)

lemma length_fill: "length (nop_fill (nop_of t) n) = n"
proof (induction n rule: less_induct)
  case (less n)
  have "min n ASM_NOP_MAX \<le> ASM_NOP_MAX" by simp
  with less [of "n - min n ASM_NOP_MAX"] length_nop [of "min n ASM_NOP_MAX"] show ?case
    by (cases "n = 0") (auto simp: nop_fill.simps [of _ n] nop_fill.simps [of _ 0] ASM_NOP_MAX_def)
qed

lemma add_nops_fill:
  "pos + unat len \<le> length buf \<Longrightarrow>
     add_nops t buf pos len = bwrite buf pos (nop_fill (nop_of t) (unat len))"
proof (induction "unat len" arbitrary: buf pos len rule: less_induct)
  case less
  show ?case
  proof (cases "len = 0")
    case True
    with less.prems show ?thesis
      by (simp add: add_nops.simps [of t buf pos 0] nop_fill.simps [of _ 0])
  next
    case False
    let ?n = "min (unat len) ASM_NOP_MAX"
    let ?x = "nop_of t ?n" and ?r = "nop_fill (nop_of t) (unat len - ?n)"
    have n: "1 \<le> ?n" "?n \<le> ASM_NOP_MAX" "0 < unat len"
      using False by (simp_all add: ASM_NOP_MAX_def unat_gt_0 Suc_le_eq)
    have lx: "length ?x = ?n" using n by (simp add: length_nop)
    then have "pos + length ?x \<le> length buf" using less.prems by linarith
    then obtain buf' where w: "bwrite buf pos ?x = Inr buf'"
      by (simp add: bwrite_def)
    then have w': "length buf' = length buf" by (rule length_bwrite)
    have "unat (len - of_nat ?n) < unat len" using n by (simp add: unat_sub_noplen)
    then have "add_nops t buf' (pos + ?n) (len - of_nat ?n) = bwrite buf' (pos + ?n) ?r"
      using less.hyps [of "len - of_nat ?n" "pos + ?n" buf'] less.prems w' n(3)
      unfolding unat_sub_noplen by linarith
    moreover have "add_nops t buf pos len = add_nops t buf' (pos + ?n) (len - of_nat ?n)"
      by (subst add_nops.simps)
        (simp only: word_gt_0 False [symmetric] False not_False_eq_True if_True Let_def
          nop_lengths [OF n(1,2)] w bindE_simps simp_thms)
    ultimately have "add_nops t buf pos len
        = bindE (bwrite buf pos ?x) (\<lambda>b. bwrite b (pos + length ?x) ?r)"
      by (simp only: w bindE_simps lx)
    also have "\<dots> = bwrite buf pos (?x @ ?r)"
      using less.prems n lx length_fill by (intro bwrite_append) simp
    also have "?x @ ?r = nop_fill (nop_of t) (unat len)"
      using n(3) by (subst (2) nop_fill.simps) simp
    finally show ?thesis .
  qed
qed

end

interpretation p6: nop_table p6_nops
proof
  fix n :: nat assume "1 \<le> n" "n \<le> ASM_NOP_MAX"
  then have "n \<in> {1, 2, 3, 4, 5, 6, 7, 8}" by (auto simp: ASM_NOP_MAX_def)
  then show "nop_read p6_nops n n = Inr (nop_of p6_nops n)"
    by (auto simp: nop_of_def nop_read_def p6_nops_def nop_offsets_def p6nops_def bread_def)
qed

interpretation k8: nop_table k8_nops
proof
  fix n :: nat assume "1 \<le> n" "n \<le> ASM_NOP_MAX"
  then have "n \<in> {1, 2, 3, 4, 5, 6, 7, 8}" by (auto simp: ASM_NOP_MAX_def)
  then show "nop_read k8_nops n n = Inr (nop_of k8_nops n)"
    by (auto simp: nop_of_def nop_read_def k8_nops_def nop_offsets_def k8nops_def bread_def)
qed

text \<open>The two tables the patchers can be given.\<close>

definition kernel_nops :: "nops \<Rightarrow> bool" where
  "kernel_nops t \<longleftrightarrow> t \<in> {p6_nops, k8_nops}"

lemma kernel_nops_table: "kernel_nops t \<Longrightarrow> nop_table t"
  by (auto simp: kernel_nops_def intro: p6.nop_table_axioms k8.nop_table_axioms)

lemmas add_nops_spec = nop_table.add_nops_fill [OF kernel_nops_table]
lemmas nop_fill_length = nop_table.length_fill [OF kernel_nops_table]

text \<open>C11: \<^verbatim>\<open>add_nops\<close> overwrites exactly \<open>len\<close> bytes with whole nop instructions
  of the table, longest first, and leaves the rest of the buffer as it was.\<close>

theorem add_nops_writes_nops:
  assumes "kernel_nops t" and "pos + unat len \<le> length buf"
  shows "add_nops t buf pos len
    = Inr (take pos buf @ nop_fill (nop_of t) (unat len) @ drop (pos + unat len) buf)"
  using add_nops_spec [OF assms] assms nop_fill_length [OF assms(1)] by (simp add: bwrite_def)

theorem add_nops_writes_nops_witness:
  "add_nops p6_nops (replicate 12 0xcc) 1 10
    = Inr ([0xcc] @ [0x0f, 0x1f, 0x84, 0, 0, 0, 0, 0] @ [0x66, 0x90] @ [0xcc])"
  by (subst add_nops_writes_nops)
    (auto simp: kernel_nops_def nop_fill.simps nop_of_def nop_read_def p6_nops_def
      nop_offsets_def p6nops_def bread_def ASM_NOP_MAX_def)

end
