(* ===== verification/Loader.thy ===== *)
theory Loader
  imports ElfSymbols Nops
begin

text \<open>
  \<^verbatim>\<open>src/elfloader.h\<close>, \<^verbatim>\<open>src/elfloader.cpp\<close> and the members of
  \<^verbatim>\<open>src/elfkernelspaceloader.h\<close>: the working copy of an ELF file, the base class of all
  loaders. The derived classes are record extensions; the ordered map \<open>jumpEntries\<close> is an
  association list with at most one entry for a key. A loader owns its file, so patching the image
  updates the host memory of \<open>elffile\<close>.
\<close>

record ElfLoader =
  elffile :: ElfFile64
  textSegment :: SectionInfo
  dataSection :: SectionInfo
  bssSection :: SectionInfo
  roDataSection :: SectionInfo
  jumpTable :: bytes
  roData :: bytes
  textSegmentContent :: bytes
  dataSegmentContent :: bytes

record ElfKernelspaceLoader = ElfLoader +
  jumpEntries :: "(u64 \<times> 32 word) list"
  jumpDestinations :: "u64 set"
  smpOffsets :: "u64 set"

abbreviation loader_mem :: "'a ElfLoader_scheme \<Rightarrow> hostmem" where
  "loader_mem l \<equiv> mem (elffile l)"

definition set_loader_mem :: "hostmem \<Rightarrow> 'a ElfLoader_scheme \<Rightarrow> 'a ElfLoader_scheme" where
  "set_loader_mem m l = l\<lparr>elffile := (elffile l)\<lparr>mem := m\<rparr>\<rparr>"

lemma set_loader_mem_simps [simp, ki_frame]:
  "loader_mem (set_loader_mem m l) = m"
  "textSegment (set_loader_mem m l) = textSegment l"
  "textSegmentContent (set_loader_mem m l) = textSegmentContent l"
  "sections (elffile (set_loader_mem m l)) = sections (elffile l)"
  "section_names (elffile (set_loader_mem m l)) = section_names (elffile l)"
  "section_ids (elffile (set_loader_mem m l)) = section_ids (elffile l)"
  by (simp_all add: set_loader_mem_def)

text \<open>The kernel's half of the canonical address space.\<close>

definition kernel_half :: "u64 \<Rightarrow> u64" where
  "kernel_half a = a OR 0xffff000000000000"

definition ElfLoader_isCodeAddress :: "'a ElfLoader_scheme \<Rightarrow> u64 \<Rightarrow> bool" where
  "ElfLoader_isCodeAddress l addr = containsMemAddress (textSegment l) (kernel_half addr)"

lemma kernel_half_idem [simp]: "kernel_half (kernel_half a) = kernel_half a"
  by (simp add: kernel_half_def or.assoc)

text \<open>
  The first two virtual calls of \<^verbatim>\<open>initImage\<close>; each loader has its own.
\<close>

definition initImage :: "('l \<Rightarrow> 'l res) \<Rightarrow> ('l \<Rightarrow> 'l res) \<Rightarrow> 'l \<Rightarrow> 'l res" where
  "initImage initText initData l = bindE (initText l) initData"

text \<open>Which of the two classes \<^verbatim>\<open>dynamic_cast\<close> asks for a kernel-space loader is.\<close>

datatype loader_kind = KernelLoader | ModuleLoader

text \<open>The bytes between two host pointers, as the range form of \<^verbatim>\<open>vector::insert\<close>
  copies them.\<close>

definition host_range :: "hostmem \<Rightarrow> u64 \<Rightarrow> u64 \<Rightarrow> bytes res" where
  "host_range m start stop = hread m start (unat (stop - start))"

definition section_bytes :: "hostmem \<Rightarrow> SectionInfo \<Rightarrow> bytes res" where
  "section_bytes m s = hread m (si_index s) (unat (si_size s))"

text \<open>
  \<^verbatim>\<open>vector::insert(end, n, v)\<close> with a \<^verbatim>\<open>size_t\<close> count: a vector of bytes
  holds at most \<^verbatim>\<open>PTRDIFF_MAX\<close> elements, more is \<^verbatim>\<open>std::length_error\<close>.
\<close>

definition max_vector :: nat where
  "max_vector = 2 ^ 63 - 1"

definition append_fill :: "bytes \<Rightarrow> u64 \<Rightarrow> u8 \<Rightarrow> bytes res" where
  "append_fill v n b =
     (if length v + unat n \<le> max_vector then Inr (v @ replicate (unat n) b) else Inl LengthError)"

lemma append_fill_Inr:
  "append_fill v n b = Inr w \<Longrightarrow> w = v @ replicate (unat n) b"
  by (auto simp: append_fill_def split: if_splits)

end
