(* ===== verification/Paravirt.thy ===== *)
theory Paravirt
  imports Loader
begin

text \<open>
  \<^verbatim>\<open>src/paravirt_state.cpp\<close> and \<^verbatim>\<open>src/paravirt_patch.cpp\<close>: the state
  of the guest's paravirtualisation operations and the patcher that repeats, on the loaded ELF
  image, what the guest kernel did to its call sites at boot.

  Parameters. The debug-information classes \<^verbatim>\<open>Instance\<close>, \<^verbatim>\<open>Variable\<close> and
  \<^verbatim>\<open>Function\<close> belong to another repository: \<open>pv_instance\<close> holds the three answers
  the code asks of an operations structure, \<open>pv_symbols\<close> the lookups of
  \<^verbatim>\<open>updateState\<close>. The bytes the assembler makes of the \<^verbatim>\<open>DEF_NATIVE\<close>
  snippets are the argument \<open>native\<close>, by symbol name.
\<close>

section \<open>The state\<close>

record pv_instance =
  pv_size :: u32
  pv_member :: "u32 \<Rightarrow> u64"
  pv_offset :: "string \<Rightarrow> u32"

record ParavirtState =
  ideal_nops :: "nops option"
  pv_init_ops :: pv_instance
  pv_time_ops :: pv_instance
  pv_cpu_ops :: pv_instance
  pv_irq_ops :: pv_instance
  pv_apic_ops :: pv_instance
  pv_mmu_ops :: pv_instance
  pv_lock_ops :: pv_instance
  nopFuncAddress :: u64
  ident32NopFuncAddress :: u64
  ident64NopFuncAddress :: u64
  pv_irq_opsOffset :: u32
  pv_cpu_opsOffset :: u32
  pv_mmu_opsOffset :: u32

text \<open>
  What the symbols answer: the value and the address of a variable, the instance of an operations
  structure, the address of a function, the offsets of \<^verbatim>\<open>paravirt_patch_template\<close>.
\<close>

record pv_symbols =
  vs_value :: "string \<Rightarrow> u64 option"
  vs_address :: "string \<Rightarrow> u64 option"
  vs_ops :: "string \<Rightarrow> pv_instance option"
  vs_func :: "string \<Rightarrow> u64 option"
  vs_template :: "(string \<Rightarrow> u32) option"

definition deref :: "'a option \<Rightarrow> 'a res" where
  "deref x = (case x of None \<Rightarrow> Inl NullDeref | Some v \<Rightarrow> Inr v)"

definition pv_func_address :: "pv_symbols \<Rightarrow> string \<Rightarrow> u64 res" where
  "pv_func_address s nm =
     (case vs_func s nm of
        None \<Rightarrow> Inl AssertFailed
      | Some a \<Rightarrow> bindE (assertE (a \<noteq> 0)) (\<lambda>_. Inr a))"

definition select_nops :: "u64 \<Rightarrow> u64 \<Rightarrow> u64 \<Rightarrow> ParavirtState \<Rightarrow> ParavirtState" where
  "select_nops nopaddr p6_address k8_address st =
     (if nopaddr = p6_address then st\<lparr>ideal_nops := Some p6_nops\<rparr>
      else if nopaddr = k8_address then st\<lparr>ideal_nops := Some k8_nops\<rparr>
      else st)"

text \<open>
  The seven structures; one whose variable is missing keeps its old instance. The source keeps the
  pairs in an unordered map, their order does not matter.
\<close>

definition update_ops :: "pv_symbols \<Rightarrow> ParavirtState \<Rightarrow> ParavirtState" where
  "update_ops s st =
     (let new = (\<lambda>nm old. case vs_ops s nm of Some i \<Rightarrow> i | None \<Rightarrow> old) in
      st\<lparr>pv_init_ops := new ''pv_init_ops'' (pv_init_ops st),
         pv_time_ops := new ''pv_time_ops'' (pv_time_ops st),
         pv_cpu_ops := new ''pv_cpu_ops'' (pv_cpu_ops st),
         pv_irq_ops := new ''pv_irq_ops'' (pv_irq_ops st),
         pv_apic_ops := new ''pv_apic_ops'' (pv_apic_ops st),
         pv_mmu_ops := new ''pv_mmu_ops'' (pv_mmu_ops st),
         pv_lock_ops := new ''pv_lock_ops'' (pv_lock_ops st)\<rparr>)"

definition updateState :: "pv_symbols \<Rightarrow> ParavirtState \<Rightarrow> ParavirtState res" where
  "updateState s st =
     bindE (deref (vs_value s ''ideal_nops'')) (\<lambda>nopaddr.
     bindE (deref (vs_address s ''p6_nops'')) (\<lambda>p6_address.
     bindE (deref (vs_address s ''k8_nops'')) (\<lambda>k8_address.
     let st1 = update_ops s (select_nops nopaddr p6_address k8_address st) in
     bindE (pv_func_address s ''_paravirt_nop'') (\<lambda>nop.
     bindE (pv_func_address s ''_paravirt_ident_32'') (\<lambda>ident32.
     bindE (pv_func_address s ''_paravirt_ident_64'') (\<lambda>ident64.
     case vs_template s of
       None \<Rightarrow> Inl AssertFailed
     | Some off \<Rightarrow>
         Inr (st1\<lparr>nopFuncAddress := nop, ident32NopFuncAddress := ident32,
           ident64NopFuncAddress := ident64, pv_irq_opsOffset := off ''pv_irq_ops'',
           pv_cpu_opsOffset := off ''pv_cpu_ops'', pv_mmu_opsOffset := off ''pv_mmu_ops''\<rparr>)))))))"

section \<open>Patching one site\<close>

text \<open>
  A patch function works on the instruction buffer and returns it with the number of bytes it
  used. \<open>code\<close> is the snippet between the two labels, \<open>None\<close> the null pointer.
\<close>

definition patcher_nops :: "ParavirtState \<Rightarrow> bytes \<Rightarrow> nat \<Rightarrow> u8 \<Rightarrow> bytes res" where
  "patcher_nops st buf pos len =
     (if len = 0 then Inr buf
      else bindE (deref (ideal_nops st)) (\<lambda>t. add_nops t buf pos len))"

definition patch_nop :: u8 where
  "patch_nop = 0"

definition patch_ignore :: "u32 \<Rightarrow> u8" where
  "patch_ignore len = ucast len"

definition patch_insns :: "bytes \<Rightarrow> u32 \<Rightarrow> bytes option \<Rightarrow> (bytes \<times> u8) res" where
  "patch_insns insnbuf len code =
     (case code of
        None \<Rightarrow> Inr (insnbuf, ucast len)
      | Some c \<Rightarrow>
          let insn_len = of_nat (length c) :: u8 in
          if len < ucast insn_len then Inr (insnbuf, ucast len)
          else bindE (bwrite insnbuf 0 (take (unat insn_len) c)) (\<lambda>b. Inr (b, insn_len)))"

definition patch_branch :: "u8 \<Rightarrow> bytes \<Rightarrow> u64 \<Rightarrow> u64 \<Rightarrow> (bytes \<times> u8) res" where
  "patch_branch opcode insnbuf target addr =
     (let delta = ucast (target - (addr + 5)) :: u32 in
      bindE (bwrite insnbuf 0 [opcode]) (\<lambda>b.
      bindE (bwrite b 1 (to_le 4 delta)) (\<lambda>b'. Inr (b', 5))))"

definition patch_jmp :: "bytes \<Rightarrow> u64 \<Rightarrow> u64 \<Rightarrow> u8 \<Rightarrow> (bytes \<times> u8) res" where
  "patch_jmp insnbuf target addr len =
     (if len < 5 then Inr (insnbuf, len) else patch_branch 0xe9 insnbuf target addr)"

definition patch_call :: "bytes \<Rightarrow> u64 \<Rightarrow> u16 \<Rightarrow> u64 \<Rightarrow> u16 \<Rightarrow> u8 \<Rightarrow> (bytes \<times> u8) res" where
  "patch_call insnbuf target tgt_clobbers addr site_clobbers len =
     (if tgt_clobbers AND NOT site_clobbers \<noteq> 0 then Inr (insnbuf, len)
      else if len < 5 then Inr (insnbuf, len)
      else patch_branch 0xe8 insnbuf target addr)"

definition CLBR_ANY :: u16 where
  "CLBR_ANY = push_bit 4 1 - 1"

text \<open>
  The operation at byte offset \<open>type\<close> of the seven structures laid out one after the other.
\<close>

fun call_destination :: "pv_instance list \<Rightarrow> u32 \<Rightarrow> u64" where
  "call_destination [] type = 0"
| "call_destination (i # is) type =
     (if type < pv_size i then pv_member i type else call_destination is (type - pv_size i))"

definition get_call_destination :: "ParavirtState \<Rightarrow> u32 \<Rightarrow> u64" where
  "get_call_destination st type =
     call_destination [pv_init_ops st, pv_time_ops st, pv_cpu_ops st, pv_irq_ops st,
       pv_apic_ops st, pv_mmu_ops st, pv_lock_ops st] type"

definition cpu_op :: "ParavirtState \<Rightarrow> string \<Rightarrow> u32" where
  "cpu_op st nm = pv_cpu_opsOffset st + pv_offset (pv_cpu_ops st) nm"

definition irq_op :: "ParavirtState \<Rightarrow> string \<Rightarrow> u32" where
  "irq_op st nm = pv_irq_opsOffset st + pv_offset (pv_irq_ops st) nm"

definition mmu_op :: "ParavirtState \<Rightarrow> string \<Rightarrow> u32" where
  "mmu_op st nm = pv_mmu_opsOffset st + pv_offset (pv_mmu_ops st) nm"

definition is_jmp_op :: "ParavirtState \<Rightarrow> u32 \<Rightarrow> bool" where
  "is_jmp_op st type \<longleftrightarrow>
     type = cpu_op st ''iret'' \<or> type = cpu_op st ''irq_enable_sysexit'' \<or>
     type = cpu_op st ''usergs_sysret32'' \<or> type = cpu_op st ''usergs_sysret64''"

definition paravirt_patch_default ::
  "(string \<Rightarrow> bytes) \<Rightarrow> ParavirtState \<Rightarrow> u32 \<Rightarrow> u16 \<Rightarrow> bytes \<Rightarrow> u64 \<Rightarrow> u8 \<Rightarrow> (bytes \<times> u8) res" where
  "paravirt_patch_default native st type clobbers insnbuf addr len =
     (let opfunc = get_call_destination st type in
      if opfunc = 0 then Inr (insnbuf, patch_nop)
      else if opfunc = nopFuncAddress st then Inr (insnbuf, patch_nop)
      else if opfunc = ident32NopFuncAddress st
        then patch_insns insnbuf (ucast len) (Some (native ''_mov32''))
      else if opfunc = ident64NopFuncAddress st
        then patch_insns insnbuf (ucast len) (Some (native ''_mov64''))
      else if is_jmp_op st type then patch_jmp insnbuf opfunc addr len
      else patch_call insnbuf opfunc CLBR_ANY addr clobbers len)"

text \<open>The \<^verbatim>\<open>PATCH_SITE\<close> chain: operation and name of its native code, in order.\<close>

definition native_sites :: "ParavirtState \<Rightarrow> (u32 \<times> string) list" where
  "native_sites st =
     [(irq_op st ''restore_fl'', ''pv_irq_ops_restore_fl''),
      (irq_op st ''save_fl'', ''pv_irq_ops_save_fl''),
      (irq_op st ''irq_enable'', ''pv_irq_ops_irq_enable''),
      (irq_op st ''irq_disable'', ''pv_irq_ops_irq_disable''),
      (cpu_op st ''irq_enable_sysexit'', ''pv_cpu_ops_irq_enable_sysexit''),
      (cpu_op st ''usergs_sysret32'', ''pv_cpu_ops_usergs_sysret32''),
      (cpu_op st ''usergs_sysret64'', ''pv_cpu_ops_usergs_sysret64''),
      (cpu_op st ''swapgs'', ''pv_cpu_ops_swapgs''),
      (mmu_op st ''read_cr2'', ''pv_mmu_ops_read_cr2''),
      (mmu_op st ''read_cr3'', ''pv_mmu_ops_read_cr3''),
      (mmu_op st ''write_cr3'', ''pv_mmu_ops_write_cr3''),
      (cpu_op st ''clts'', ''pv_cpu_ops_clts''),
      (mmu_op st ''flush_tlb_single'', ''pv_mmu_ops_flush_tlb_single''),
      (cpu_op st ''wbinvd'', ''pv_cpu_ops_wbinvd'')]"

definition paravirtNativePatch ::
  "(string \<Rightarrow> bytes) \<Rightarrow> ParavirtState \<Rightarrow> u32 \<Rightarrow> u16 \<Rightarrow> bytes \<Rightarrow> u64 \<Rightarrow> u32 \<Rightarrow> (bytes \<times> u32) res" where
  "paravirtNativePatch native st type clobbers ibuf addr len =
     mapE (\<lambda>(b, used). (b, ucast used))
       (case map_of (native_sites st) type of
          Some nm \<Rightarrow> patch_insns ibuf len (Some (native nm))
        | None \<Rightarrow> paravirt_patch_default native st type clobbers ibuf addr (ucast len))"

section \<open>The patch section\<close>

definition dec_patch_site :: "bytes \<Rightarrow> paravirt_patch_site" where
  "dec_patch_site b = \<lparr>ps_instr = fld b 0 8, ps_instrtype = fld b 8 1, ps_len = fld b 9 1,
     ps_clobbers = fld b 10 2\<rparr>"

definition patch_site_at :: "hostmem \<Rightarrow> u64 \<Rightarrow> paravirt_patch_site res" where
  "patch_site_at m p = mapE dec_patch_site (hread m p 12)"

text \<open>Where a guest address of the text segment is in the mapped file.\<close>

definition text_in_elf :: "SectionInfo \<Rightarrow> u64 \<Rightarrow> u64" where
  "text_in_elf text a = a - memindex text + si_index text"

text \<open>
  One entry. The instruction buffer lives outside the loop, so it keeps what the previous entry
  left behind its end.
\<close>

definition apply_site ::
  "(string \<Rightarrow> bytes) \<Rightarrow> ParavirtState \<Rightarrow> SectionInfo \<Rightarrow> u64 \<Rightarrow> bytes \<times> hostmem \<Rightarrow> (bytes \<times> hostmem) res" where
  "apply_site native st text p = (\<lambda>(insnbuf, m).
     bindE (patch_site_at m p) (\<lambda>s.
     bindE (assertE (ps_len s < 255)) (\<lambda>_.
     let instrInElf = text_in_elf text (ps_instr s) in
     bindE (hread m instrInElf (unat (ps_len s))) (\<lambda>orig.
     bindE (bwrite insnbuf 0 orig) (\<lambda>b0.
     bindE (paravirtNativePatch native st (ucast (ps_instrtype s) * 8) (ps_clobbers s) b0
         (ps_instr s) (ucast (ps_len s))) (\<lambda>(b1, used).
     bindE (patcher_nops st b1 (unat used) (ucast (ucast (ps_len s) - used))) (\<lambda>b2.
     bindE (bread b2 0 (unat (ps_len s))) (\<lambda>x.
     bindE (hwrite m instrInElf x) (\<lambda>m'. Inr (b2, m'))))))))))"

definition site_pointers :: "SectionInfo \<Rightarrow> u64 list" where
  "site_pointers info = [si_index info + 16 * of_nat i. i \<leftarrow> [0..<(unat (si_size info) + 15) div 16]]"

definition applyParainstr ::
  "(string \<Rightarrow> bytes) \<Rightarrow> ParavirtState \<Rightarrow> bytes \<Rightarrow> 'a ElfLoader_scheme \<Rightarrow> 'a ElfLoader_scheme res" where
  "applyParainstr native st insnbuf l =
     bindE (findSectionWithName (elffile l) ''.parainstructions'') (\<lambda>info.
       if si_index info = 0 then Inr l
       else mapE (\<lambda>(b, m). set_loader_mem m l)
         (foldE (apply_site native st (textSegment l)) (site_pointers info)
           (insnbuf, loader_mem l)))"

section \<open>What a site holds after patching\<close>

text \<open>
  The specification: the code a site of original bytes \<open>orig\<close> gets, before it is padded
  with nops. A snippet or branch that does not fit leaves the original bytes.
\<close>

definition fit :: "bytes \<Rightarrow> bytes \<Rightarrow> bytes" where
  "fit orig c = (if length c \<le> length orig then c else orig)"

definition branch_code :: "u8 \<Rightarrow> u64 \<Rightarrow> u64 \<Rightarrow> bytes" where
  "branch_code opcode target addr = opcode # to_le 4 (ucast (target - (addr + 5)) :: u32)"

definition site_code ::
  "(string \<Rightarrow> bytes) \<Rightarrow> ParavirtState \<Rightarrow> u32 \<Rightarrow> u16 \<Rightarrow> u64 \<Rightarrow> bytes \<Rightarrow> bytes" where
  "site_code native st type clobbers addr orig =
     (case map_of (native_sites st) type of
        Some nm \<Rightarrow> fit orig (native nm)
      | None \<Rightarrow>
          let f = get_call_destination st type in
          if f = 0 \<or> f = nopFuncAddress st then []
          else if f = ident32NopFuncAddress st then fit orig (native ''_mov32'')
          else if f = ident64NopFuncAddress st then fit orig (native ''_mov64'')
          else if is_jmp_op st type then fit orig (branch_code 0xe9 f addr)
          else if CLBR_ANY AND NOT clobbers \<noteq> 0 then orig
          else fit orig (branch_code 0xe8 f addr))"

definition site_bytes ::
  "(string \<Rightarrow> bytes) \<Rightarrow> ParavirtState \<Rightarrow> nops \<Rightarrow> u32 \<Rightarrow> u16 \<Rightarrow> u64 \<Rightarrow> bytes \<Rightarrow> bytes" where
  "site_bytes native st t type clobbers addr orig =
     (let c = site_code native st type clobbers addr orig in
      c @ nop_fill (nop_of t) (length orig - length c))"

lemma length_fit: "length (fit orig c) \<le> length orig"
  by (simp add: fit_def)

lemma length_branch_code [simp]: "length (branch_code opc f addr) = 5"
  by (simp add: branch_code_def)

lemma length_site_code: "length (site_code native st type clob addr orig) \<le> length orig"
  by (simp add: site_code_def Let_def length_fit split: option.split)

text \<open>\<open>patched buf c n\<close>: the result of a patch function that put \<open>c\<close> in front.\<close>

abbreviation patched :: "bytes \<Rightarrow> bytes \<Rightarrow> (bytes \<times> u8) res" where
  "patched buf c \<equiv> Inr (c @ drop (length c) buf, of_nat (length c))"

lemma patch_insns_fit:
  assumes "length orig < 256" and "length c < 256"
  shows "patch_insns (orig @ rest) (of_nat (length orig)) (Some c) = patched (orig @ rest) (fit orig c)"
proof -
  have "unat (of_nat (length c) :: u8) = length c" "unat (of_nat (length orig) :: u32) = length orig"
    using assms by (simp_all add: unat_of_nat_eq)
  then show ?thesis using assms
    by (auto simp: patch_insns_def Let_def fit_def bwrite_def word_less_nat_alt unat_ucast_up
        ucast_of_nat_down)
qed

lemma patch_branch_code:
  assumes "5 \<le> length buf"
  shows "patch_branch opc buf f addr = patched buf (branch_code opc f addr)"
proof -
  let ?d = "to_le 4 (ucast (f - (addr + 5)) :: u32)"
  have "bindE (bwrite buf 0 [opc]) (\<lambda>b. bwrite b 1 ?d) = bwrite buf 0 (opc # ?d)"
    using bwrite_append [of 0 "[opc]" ?d buf] assms by simp
  then have "patch_branch opc buf f addr = bindE (bwrite buf 0 (opc # ?d)) (\<lambda>b'. Inr (b', 5))"
    by (auto simp: patch_branch_def Let_def bindE_def split: sum.splits)
  then show ?thesis using assms by (simp add: bwrite_def branch_code_def)
qed

lemma patched_self: "Inr (orig @ rest, of_nat (length orig)) = patched (orig @ rest) orig"
  by simp

lemma unat_of_nat_lt_5: "n < 256 \<Longrightarrow> (of_nat n :: u8) < 5 \<longleftrightarrow> n < 5"
  by (simp add: word_less_nat_alt unat_of_nat_eq)

lemma patch_default_code:
  assumes "length orig < 256" and "\<forall>nm. length (native nm) < 256"
    and "map_of (native_sites st) type = None"
  shows "paravirt_patch_default native st type clob (orig @ rest) addr (of_nat (length orig))
    = patched (orig @ rest) (site_code native st type clob addr orig)"
proof -
  have l: "(ucast (of_nat (length orig) :: u8) :: u32) = of_nat (length orig)"
    using assms(1) by (simp add: word_unat_eq_iff unat_ucast_up unat_of_nat_eq)
  note simps = paravirt_patch_default_def Let_def site_code_def assms(3) patch_nop_def l
    patch_insns_fit [OF assms(1) assms(2) [THEN spec]] patch_jmp_def patch_call_def
    unat_of_nat_lt_5 [OF assms(1)] patch_branch_code
  show ?thesis
    by (cases "length orig < 5") (auto simp: simps fit_def)
qed

lemma native_patch_code:
  assumes "length orig < 256" and "\<forall>nm. length (native nm) < 256"
  shows "paravirtNativePatch native st type clob (orig @ rest) addr (of_nat (length orig))
    = Inr (let c = site_code native st type clob addr orig in
        (c @ drop (length c) (orig @ rest), of_nat (length c)))"
proof -
  have up: "(ucast (of_nat n :: u8) :: u32) = of_nat n" if "n \<le> length orig" for n
    using that assms(1) by (simp add: word_unat_eq_iff unat_ucast_up unat_of_nat_eq)
  have fit: "length (fit orig c) \<le> length orig" for c by (rule length_fit)
  show ?thesis
  proof (cases "map_of (native_sites st) type")
    case None
    then show ?thesis
      using patch_default_code [OF assms None] up [OF length_site_code]
      by (simp add: paravirtNativePatch_def mapE_def Let_def ucast_of_nat_down)
  next
    case (Some nm)
    then show ?thesis
      using up [OF fit]
      by (simp add: paravirtNativePatch_def mapE_def Let_def patch_insns_fit assms site_code_def)
  qed
qed

text \<open>Padding the rest of the site with nops completes it.\<close>

lemma patcher_nops_pad:
  assumes "ideal_nops st = Some t" and "kernel_nops t" and "length c \<le> n" and "n < 256"
    and "n \<le> length buf"
  shows "patcher_nops st (c @ drop (length c) buf) (length c) (of_nat (n - length c))
    = Inr (c @ nop_fill (nop_of t) (n - length c) @ drop n buf)"
proof -
  have u: "unat (of_nat (n - length c) :: u8) = n - length c"
    using assms(4) by (simp add: unat_of_nat_eq del: of_nat_diff)
  have "add_nops t (c @ drop (length c) buf) (length c) (of_nat (n - length c))
      = bwrite (c @ drop (length c) buf) (length c) (nop_fill (nop_of t) (n - length c))"
    using assms(3,5) by (subst add_nops_spec [OF assms(2)]) (simp_all add: u del: of_nat_diff)
  also have "\<dots> = Inr (c @ nop_fill (nop_of t) (n - length c) @ drop n buf)"
    using assms(3,5) nop_fill_length [OF assms(2)] by (simp add: bwrite_def)
  finally have fill: "add_nops t (c @ drop (length c) buf) (length c) (of_nat (n - length c))
      = Inr (c @ nop_fill (nop_of t) (n - length c) @ drop n buf)" .
  show ?thesis
  proof (cases "(of_nat (n - length c) :: u8) = 0")
    case True
    with u have "n = length c" using assms(3) by simp
    then show ?thesis by (simp add: patcher_nops_def nop_fill.simps [of _ 0])
  next
    case False
    then show ?thesis by (simp add: patcher_nops_def assms(1) deref_def fill del: of_nat_diff)
  qed
qed

lemma length_site_bytes:
  "kernel_nops t \<Longrightarrow> length (site_bytes native st t type clob addr orig) = length orig"
  using length_site_code [of native st type clob addr orig]
  by (simp add: site_bytes_def Let_def nop_fill_length)

text \<open>
  One entry in terms of the specification: when the entry and its site are readable, exactly the
  site's bytes are replaced, whatever the instruction buffer held before.
\<close>

definition site_patch ::
  "(string \<Rightarrow> bytes) \<Rightarrow> ParavirtState \<Rightarrow> nops \<Rightarrow> SectionInfo \<Rightarrow> u64 \<Rightarrow> hostmem \<Rightarrow> hostmem res" where
  "site_patch native st t text p m =
     bindE (patch_site_at m p) (\<lambda>s.
     bindE (assertE (ps_len s < 255)) (\<lambda>_.
     bindE (hread m (text_in_elf text (ps_instr s)) (unat (ps_len s))) (\<lambda>orig.
       hwrite m (text_in_elf text (ps_instr s))
         (site_bytes native st t (ucast (ps_instrtype s) * 8) (ps_clobbers s) (ps_instr s) orig))))"

lemma apply_site_step:
  fixes native st t
  defines "site \<equiv> (\<lambda>s. site_bytes native st t (ucast (ps_instrtype s) * 8) (ps_clobbers s) (ps_instr s))"
  assumes nops: "ideal_nops st = Some t" "kernel_nops t" and nat: "\<forall>nm. length (native nm) < 256"
    and buf: "length insnbuf = 254" and s: "patch_site_at m p = Inr s" and len: "ps_len s < 255"
    and orig: "hread m (text_in_elf text (ps_instr s)) (unat (ps_len s)) = Inr orig"
  shows "apply_site native st text p (insnbuf, m)
      = bindE (hwrite m (text_in_elf text (ps_instr s)) (site s orig))
          (\<lambda>m'. Inr (site s orig @ drop (length orig) insnbuf, m'))"
proof -
  let ?code = "\<lambda>s. site_code native st (ucast (ps_instrtype s) * 8) (ps_clobbers s) (ps_instr s)"
  have lo: "length orig = unat (ps_len s)" using host.rd_length [OF orig] .
  have l254: "length orig \<le> 254" "length orig < 256"
    using len lo by (simp_all add: word_less_nat_alt)
  have of_len: "(ucast (ps_len s) :: u32) = of_nat (length orig)"
    by (simp add: word_unat_eq_iff unat_ucast_up lo unat_of_nat_eq)
  have c: "length (?code s orig) \<le> length orig" by (rule length_site_code)
  then have sub: "(ucast (of_nat (length orig) - of_nat (length (?code s orig)) :: u32) :: u8)
      = of_nat (length orig - length (?code s orig))"
    by (simp add: of_nat_diff [symmetric] ucast_of_nat_down del: of_nat_diff)
  have u: "unat (of_nat (length (?code s orig)) :: u32) = length (?code s orig)"
    using c l254 by (simp add: unat_of_nat_eq)
  have b0: "bwrite insnbuf 0 orig = Inr (orig @ drop (length orig) insnbuf)"
    using l254 buf by (simp add: bwrite_def)
  let ?fill = "site s orig @ drop (length orig) insnbuf"
  have pad: "patcher_nops st
      (?code s orig @ drop (length (?code s orig)) (orig @ drop (length orig) insnbuf))
      (length (?code s orig)) (of_nat (length orig - length (?code s orig))) = Inr ?fill"
    using patcher_nops_pad [OF nops c l254(2), of "orig @ drop (length orig) insnbuf"]
    by (simp add: site_def site_bytes_def Let_def del: drop_append of_nat_diff) simp
  have out: "bread ?fill 0 (unat (ps_len s)) = Inr (site s orig)"
    using length_site_bytes [OF nops(2)] by (simp add: site_def bread_def lo [symmetric])
  show ?thesis
    by (simp add: apply_site_def s len Let_def orig b0 of_len native_patch_code [OF l254(2) nat]
        sub u pad out del: drop_append of_nat_diff)
qed

lemma apply_site_patch:
  assumes nops: "ideal_nops st = Some t" "kernel_nops t" and nat: "\<forall>nm. length (native nm) < 256"
    and buf: "length insnbuf = 254"
  shows "mapE snd (apply_site native st text p (insnbuf, m)) = site_patch native st t text p m"
    and "apply_site native st text p (insnbuf, m) = Inr (b, m') \<Longrightarrow> length b = 254"
proof -
  let ?site = "\<lambda>s. site_bytes native st t (ucast (ps_instrtype s) * 8) (ps_clobbers s) (ps_instr s)"
  note step = apply_site_step [OF nops nat buf]
  show "mapE snd (apply_site native st text p (insnbuf, m)) = site_patch native st t text p m"
  proof (cases "\<exists>s orig. patch_site_at m p = Inr s \<and> ps_len s < 255 \<and>
      hread m (text_in_elf text (ps_instr s)) (unat (ps_len s)) = Inr orig")
    case True
    then obtain s orig where s: "patch_site_at m p = Inr s" "ps_len s < 255"
      "hread m (text_in_elf text (ps_instr s)) (unat (ps_len s)) = Inr orig" by auto
    then show ?thesis
      by (auto simp: site_patch_def mapE_def step [OF s] bindE_def split: sum.split)
  next
    case False
    then show ?thesis
      by (auto simp: apply_site_def site_patch_def mapE_def bindE_def assertE_def Let_def
          split: sum.splits if_splits)
  qed
  assume ok: "apply_site native st text p (insnbuf, m) = Inr (b, m')"
  then obtain s orig where s: "patch_site_at m p = Inr s" "ps_len s < 255"
    and orig: "hread m (text_in_elf text (ps_instr s)) (unat (ps_len s)) = Inr orig"
    by (auto simp: apply_site_def Let_def)
  from ok [unfolded step [OF s orig]] have "b = ?site s orig @ drop (length orig) insnbuf" by auto
  moreover have "length orig \<le> 254" using host.rd_length [OF orig] s(2) by (simp add: word_less_nat_alt)
  ultimately show "length b = 254" using length_site_bytes [OF nops(2)] buf by simp
qed

lemma apply_sites_patch:
  assumes "ideal_nops st = Some t" "kernel_nops t" "\<forall>nm. length (native nm) < 256"
  shows "length insnbuf = 254 \<Longrightarrow>
    mapE snd (foldE (apply_site native st text) ps (insnbuf, m)) = foldE (site_patch native st t text) ps m"
proof (induction ps arbitrary: insnbuf m)
  case Nil
  show ?case by (simp add: mapE_def)
next
  case (Cons p ps)
  note one = apply_site_patch [OF assms Cons.prems]
  show ?case
  proof (cases "apply_site native st text p (insnbuf, m)")
    case (Inl e)
    have "site_patch native st t text p m = Inl e"
      by (subst one(1) [symmetric]) (simp add: mapE_def Inl)
    with Inl show ?thesis by (simp add: mapE_def)
  next
    case (Inr r)
    obtain b m' where r: "r = (b, m')" by (cases r)
    have "site_patch native st t text p m = Inr m'"
      by (subst one(1) [symmetric]) (simp add: mapE_def Inr r)
    moreover have "length b = 254" using one(2) [OF Inr [unfolded r]] .
    ultimately show ?thesis using Cons.IH [of b m'] Inr r by simp
  qed
qed

text \<open>C6: The paravirt patcher is the per-site specification applied to each entry of the patch
  section in turn: every site becomes the native code, call or jump of its operation, or keeps its
  bytes where that does not fit, padded with nops of the chosen table to exactly its length. What the
  shared instruction buffer held before has no influence, and the buffer is never overrun.\<close>

theorem applyParainstr_refines:
  assumes "ideal_nops st = Some t" and "kernel_nops t" and "\<forall>nm. length (native nm) < 256"
    and "length insnbuf = 254"
  shows "applyParainstr native st insnbuf l =
    bindE (findSectionWithName (elffile l) ''.parainstructions'') (\<lambda>info.
      if si_index info = 0 then Inr l
      else mapE (\<lambda>m. set_loader_mem m l)
        (foldE (site_patch native st t (textSegment l)) (site_pointers info) (loader_mem l)))"
proof -
  have swap: "mapE (\<lambda>(b, m). set_loader_mem m l) r = mapE (\<lambda>m. set_loader_mem m l) (mapE snd r)"
    for r :: "(bytes \<times> hostmem) res"
    by (cases r) (auto simp: mapE_def)
  show ?thesis
    by (simp only: applyParainstr_def swap apply_sites_patch [OF assms(1-4)])
qed

section \<open>What stays untouched\<close>

definition host_off :: "hostmem \<Rightarrow> u64 \<Rightarrow> nat" where
  "host_off m p = unat (p - hbase m)"

text \<open>The image bytes an entry claims.\<close>

definition site_range :: "SectionInfo \<Rightarrow> hostmem \<Rightarrow> paravirt_patch_site \<Rightarrow> nat set" where
  "site_range text m s =
     {host_off m (text_in_elf text (ps_instr s)) ..<
      host_off m (text_in_elf text (ps_instr s)) + unat (ps_len s)}"

text \<open>No entry's site overlaps an entry.\<close>

definition sites_apart :: "SectionInfo \<Rightarrow> hostmem \<Rightarrow> u64 list \<Rightarrow> bool" where
  "sites_apart text m ps \<longleftrightarrow>
     (\<forall>p \<in> set ps. \<forall>q \<in> set ps. \<forall>s. patch_site_at m p = Inr s \<longrightarrow>
        site_range text m s \<inter> {host_off m q ..< host_off m q + 12} = {})"

lemma hwrite_nth:
  assumes "hwrite m p ys = Inr m'" and "k < length (hbytes m)"
    and "k \<notin> {host_off m p ..< host_off m p + length ys}"
  shows "hbytes m' ! k = hbytes m ! k"
  using assms nth_bwrite [of "hbytes m" "host_off m p" ys] by (auto simp: hwrite_Inr_iff host_off_def)

lemma site_patch_frame:
  assumes nops: "kernel_nops t" and "site_patch native st t text p m = Inr m'"
  shows "\<exists>s. patch_site_at m p = Inr s \<and> hbase m' = hbase m \<and>
    length (hbytes m') = length (hbytes m) \<and>
    (\<forall>k < length (hbytes m). k \<notin> site_range text m s \<longrightarrow> hbytes m' ! k = hbytes m ! k)"
proof -
  from assms(2) obtain s orig where s: "patch_site_at m p = Inr s" and
    orig: "hread m (text_in_elf text (ps_instr s)) (unat (ps_len s)) = Inr orig" and
    w: "hwrite m (text_in_elf text (ps_instr s))
       (site_bytes native st t (ucast (ps_instrtype s) * 8) (ps_clobbers s) (ps_instr s) orig) = Inr m'"
    by (auto simp: site_patch_def)
  have "length (site_bytes native st t (ucast (ps_instrtype s) * 8) (ps_clobbers s) (ps_instr s) orig)
      = unat (ps_len s)"
    using length_site_bytes [OF nops] host.rd_length [OF orig] by simp
  with s hwrite_nth [OF w] hwrite_hbase [OF w] hwrite_length [OF w] show ?thesis
    by (auto simp: site_range_def)
qed

lemma hread_same_bytes:
  assumes "hbase m' = hbase m" and "length (hbytes m') = length (hbytes m)"
    and "\<forall>k < length (hbytes m). k \<in> {host_off m p ..< host_off m p + n} \<longrightarrow>
      hbytes m' ! k = hbytes m ! k"
  shows "hread m' p n = hread m p n"
proof (cases "host_off m p + n \<le> length (hbytes m)")
  case True
  then have "take n (drop (host_off m p) (hbytes m')) = take n (drop (host_off m p) (hbytes m))"
    using assms by (intro nth_equalityI) auto
  with assms show ?thesis by (simp add: hread_def bread_def host_off_def)
next
  case False
  with assms show ?thesis by (simp add: hread_def bread_def host_off_def)
qed

text \<open>The state of the loop relative to the image \<open>m\<close> it started from.\<close>

definition outside_sites_same :: "SectionInfo \<Rightarrow> hostmem \<Rightarrow> u64 list \<Rightarrow> hostmem \<Rightarrow> bool" where
  "outside_sites_same text m ps m' \<longleftrightarrow>
     hbase m' = hbase m \<and> length (hbytes m') = length (hbytes m) \<and>
     (\<forall>k < length (hbytes m).
        (\<forall>p \<in> set ps. \<forall>s. patch_site_at m p = Inr s \<longrightarrow> k \<notin> site_range text m s) \<longrightarrow>
        hbytes m' ! k = hbytes m ! k)"

lemma entry_kept:
  assumes "outside_sites_same text m ps m'" and "sites_apart text m ps" and "q \<in> set ps"
  shows "patch_site_at m' q = patch_site_at m q"
proof -
  have "k \<notin> site_range text m s"
    if "k \<in> {host_off m q ..< host_off m q + 12}" "p \<in> set ps" "patch_site_at m p = Inr s" for k p s
    using that assms(2,3) unfolding sites_apart_def by blast
  then have "hread m' q 12 = hread m q 12"
    using assms(1) by (intro hread_same_bytes) (auto simp: outside_sites_same_def)
  then show ?thesis by (simp add: patch_site_at_def)
qed

lemma site_range_base: "hbase m' = hbase m \<Longrightarrow> site_range text m' s = site_range text m s"
  by (simp add: site_range_def host_off_def)

lemma sites_frame:
  assumes nops: "kernel_nops t" and apart: "sites_apart text m ps"
    and run: "foldE (site_patch native st t text) ps m = Inr m'"
  shows "outside_sites_same text m ps m'"
proof (rule foldE_invariant [OF run])
  show "outside_sites_same text m ps m" by (simp add: outside_sites_same_def)
next
  fix p u u' assume p: "p \<in> set ps" and u: "outside_sites_same text m ps u"
    and step: "site_patch native st t text p u = Inr u'"
  obtain s where s: "patch_site_at u p = Inr s" and fr: "hbase u' = hbase u"
    "length (hbytes u') = length (hbytes u)"
    "\<forall>k < length (hbytes u). k \<notin> site_range text u s \<longrightarrow> hbytes u' ! k = hbytes u ! k"
    using site_patch_frame [OF nops step] by blast
  have "patch_site_at m p = Inr s" using entry_kept [OF u apart p] s by simp
  moreover have "site_range text u s = site_range text m s"
    using u by (intro site_range_base) (simp add: outside_sites_same_def)
  ultimately show "outside_sites_same text m ps u'"
    using u fr p by (auto simp: outside_sites_same_def)
qed

text \<open>Outside the sites its entries name, the patcher leaves every byte of the image as it was
  (provided no site lies on the entries themselves); the image keeps its place and length.\<close>

theorem applyParainstr_frame:
  assumes "ideal_nops st = Some t" and "kernel_nops t" and "\<forall>nm. length (native nm) < 256"
    and "length insnbuf = 254" and "findSectionWithName (elffile l) ''.parainstructions'' = Inr info"
    and "sites_apart (textSegment l) (loader_mem l) (site_pointers info)"
    and "applyParainstr native st insnbuf l = Inr l'"
  shows "outside_sites_same (textSegment l) (loader_mem l) (site_pointers info) (loader_mem l')"
proof -
  from assms(7) obtain b m' where "l' = l \<or> (foldE (apply_site native st (textSegment l))
      (site_pointers info) (insnbuf, loader_mem l) = Inr (b, m') \<and> l' = set_loader_mem m' l)"
    by (auto simp: applyParainstr_def assms(5) mapE_def split: if_splits)
  then consider "l' = l" | "foldE (site_patch native st t (textSegment l)) (site_pointers info)
      (loader_mem l) = Inr m'" "l' = set_loader_mem m' l"
    using apply_sites_patch [OF assms(1-4), of "textSegment l" "site_pointers info"
        "loader_mem l"]
    by (auto simp: mapE_def)
  then show ?thesis
  proof cases
    case 1
    then show ?thesis by (simp add: outside_sites_same_def)
  next
    case 2
    then show ?thesis using sites_frame [OF assms(2,6)] by simp
  qed
qed

section \<open>Where a patched call goes\<close>

lemma of_le_to_le_32: "of_le (to_le 4 (w :: u32)) = w"
  by (rule of_le_to_le) simp

lemma hread_take: "hread m p n = Inr x \<Longrightarrow> k \<le> n \<Longrightarrow> hread m p k = Inr (take k x)"
  by (auto simp: hread_def bread_def min_def split: if_splits)


section \<open>An example site\<close>

text \<open>
  Sixteen bytes of text, then one entry: six bytes from the third on, an operation at offset 8 of
  the first structure, any register may be clobbered.
\<close>

definition ex_text :: SectionInfo where
  "ex_text = \<lparr>si_name = ''.text'', secID = 1, si_offset = 0, si_index = 0x10000,
     memindex = 0xffffffff81000000, si_size = 16, si_flags = 6\<rparr>"

definition ex_site :: bytes where
  "ex_site = to_le 8 (0xffffffff81000002 :: u64) @ [1, 6] @ to_le 2 (0xffff :: u16) @ [0, 0, 0, 0]"

definition ex_pv_mem :: hostmem where
  "ex_pv_mem = \<lparr>hbase = 0x10000, hbytes = replicate 16 0xcc @ ex_site\<rparr>"

definition ex_pv_file :: ElfFile64 where
  "ex_pv_file = \<lparr>mem = ex_pv_mem, shstrindex = 0,
     sections = [\<lparr>si_name = ''.parainstructions'', secID = 0, si_offset = 16, si_index = 0x10010,
       memindex = 0, si_size = 16, si_flags = 2\<rparr>],
     segments = [], section_ids = [0 \<mapsto> 0], section_names = [''.parainstructions'' \<mapsto> 0],
     symbolCount = 0\<rparr>"

definition ex_pv_loader :: ElfLoader where
  "ex_pv_loader = \<lparr>elffile = ex_pv_file, textSegment = ex_text,
     dataSection = SectionInfo_default, bssSection = SectionInfo_default,
     roDataSection = SectionInfo_default, jumpTable = [], roData = [], textSegmentContent = [],
     dataSegmentContent = []\<rparr>"

definition ex_ops :: "u32 \<Rightarrow> pv_instance" where
  "ex_ops n = \<lparr>pv_size = n, pv_member = (\<lambda>_. 0xffffffff81001000), pv_offset = (\<lambda>_. 0x100)\<rparr>"

definition ex_pv_state :: ParavirtState where
  "ex_pv_state = \<lparr>ideal_nops = Some p6_nops, pv_init_ops = ex_ops 16, pv_time_ops = ex_ops 0,
     pv_cpu_ops = ex_ops 0, pv_irq_ops = ex_ops 0, pv_apic_ops = ex_ops 0, pv_mmu_ops = ex_ops 0,
     pv_lock_ops = ex_ops 0, nopFuncAddress = 1, ident32NopFuncAddress = 2,
     ident64NopFuncAddress = 3, pv_irq_opsOffset = 0x200, pv_cpu_opsOffset = 0x300,
     pv_mmu_opsOffset = 0x400\<rparr>"

definition ex_native :: "string \<Rightarrow> bytes" where
  "ex_native _ = [0x90]"

definition ex_patched :: bytes where
  "ex_patched = [0xcc, 0xcc, 0xe8, 0xf9, 0x0f, 0, 0, 0x90] @ replicate 8 0xcc @ ex_site"

lemma ex_site_patch:
  "site_patch ex_native ex_pv_state p6_nops ex_text 0x10010 ex_pv_mem
    = Inr \<lparr>hbase = 0x10000, hbytes = ex_patched\<rparr>"
  by code_simp

lemma ex_pv_section:
  "findSectionWithName (elffile ex_pv_loader) ''.parainstructions'' = Inr (sections ex_pv_file ! 0)"
  "site_pointers (sections ex_pv_file ! 0) = [0x10010]"
  "si_index (sections ex_pv_file ! 0) = 0x10010"
  by (simp_all add: findSectionWithName_def ex_pv_loader_def ex_pv_file_def site_pointers_def)

lemma ex_pv_state_nops: "ideal_nops ex_pv_state = Some p6_nops" "kernel_nops p6_nops"
    "\<forall>nm. length (ex_native nm) < 256"
  by (simp_all add: ex_pv_state_def kernel_nops_def ex_native_def)

theorem applyParainstr_refines_witness:
  "mapE (\<lambda>l. hbytes (loader_mem l))
     (applyParainstr ex_native ex_pv_state (replicate 254 0xaa) ex_pv_loader) = Inr ex_patched"
  using ex_site_patch
  by (subst applyParainstr_refines [OF ex_pv_state_nops])
    (simp_all add: ex_pv_section mapE_def, simp add: ex_pv_file_def ex_pv_loader_def)

lemma ex_pv_apart: "sites_apart ex_text ex_pv_mem [0x10010]"
proof -
  have "patch_site_at ex_pv_mem 0x10010 = Inr \<lparr>ps_instr = 0xffffffff81000002, ps_instrtype = 1,
      ps_len = 6, ps_clobbers = 0xffff\<rparr>" by code_simp
  then show ?thesis
    by (auto simp: sites_apart_def site_range_def host_off_def text_in_elf_def ex_text_def
        ex_pv_mem_def)
qed

theorem applyParainstr_frame_witness:
  "\<exists>l'. applyParainstr ex_native ex_pv_state (replicate 254 0xaa) ex_pv_loader = Inr l' \<and>
     outside_sites_same ex_text ex_pv_mem [0x10010] (loader_mem l')"
proof -
  have "mapE snd (foldE (apply_site ex_native ex_pv_state ex_text) [0x10010]
      (replicate 254 0xaa, ex_pv_mem))
    = foldE (site_patch ex_native ex_pv_state p6_nops ex_text) [0x10010] ex_pv_mem"
    by (intro apply_sites_patch ex_pv_state_nops) simp
  moreover have "loader_mem ex_pv_loader = ex_pv_mem" "textSegment ex_pv_loader = ex_text"
    by (simp_all add: ex_pv_loader_def ex_pv_file_def)
  ultimately obtain l' where
    "applyParainstr ex_native ex_pv_state (replicate 254 0xaa) ex_pv_loader = Inr l'"
    using ex_site_patch by (auto simp: applyParainstr_def ex_pv_section mapE_def)
  with applyParainstr_frame [OF ex_pv_state_nops _ ex_pv_section(1), of "replicate 254 0xaa" l']
    ex_pv_apart \<open>loader_mem ex_pv_loader = ex_pv_mem\<close> \<open>textSegment ex_pv_loader = ex_text\<close>
  show ?thesis by (auto simp: ex_pv_section(2))
qed


end
