(* ===== verification/KernelspaceLoader.thy ===== *)
theory KernelspaceLoader
  imports Paravirt
begin

text \<open>
  \<^verbatim>\<open>src/elfkernelspaceloader.cpp\<close>: the patches the guest kernel applied to itself at
  boot, repeated on the loaded image: ftrace call sites (\<open>applyMcount\<close>), alternative
  instructions (\<open>applyAltinstr\<close>), lock prefixes (\<open>applySmpLocks\<close>) and jump labels
  (\<open>applyJumpEntries\<close>).

  Parameters. \<open>upd\<close> is the virtual \<^verbatim>\<open>updateSectionInfoMemAddress\<close> of the
  derived class; \<open>caps\<close> is \<^verbatim>\<open>boot_cpu_data.x86_capability\<close> read from the guest
  through the debug symbols, \<open>None\<close> when the variable is unknown; \<open>guest_entry\<close> and
  \<open>guest_enabled\<close> read a \<^verbatim>\<open>jump_entry\<close> and the counter of a
  \<^verbatim>\<open>static_key\<close> in guest memory.
\<close>

section \<open>Ftrace call sites\<close>

definition mcount_site :: "ParavirtState \<Rightarrow> u64 \<Rightarrow> 'a ElfLoader_scheme \<Rightarrow> 'a ElfLoader_scheme res" where
  "mcount_site st p l =
     bindE (host64 (loader_mem l) p) (\<lambda>addr.
     bindE (patcher_nops st (textSegmentContent l) (unat (addr - memindex (textSegment l))) 5) (\<lambda>c.
       Inr (l\<lparr>textSegmentContent := c\<rparr>)))"

definition pointers :: "u64 \<Rightarrow> nat \<Rightarrow> u64 \<Rightarrow> u64 list" where
  "pointers start step sz =
     [start + of_nat (step * i). i \<leftarrow> [0..<(unat sz + (step - 1)) div step]]"

definition applyMcount ::
  "SectionInfo \<Rightarrow> ParavirtState \<Rightarrow> 'a ElfLoader_scheme \<Rightarrow> 'a ElfLoader_scheme res" where
  "applyMcount info st l = foldE (mcount_site st) (pointers (si_index info) 8 (si_size info)) l"

section \<open>Alternative instructions\<close>

definition dec_alt_instr :: "bytes \<Rightarrow> alt_instr" where
  "dec_alt_instr b = \<lparr>instr_offset = fld b 0 4, repl_offset = fld b 4 4, cpuid = fld b 8 2,
     instrlen = fld b 10 1, replacementlen = fld b 11 1\<rparr>"

definition alt_instr_at :: "hostmem \<Rightarrow> u64 \<Rightarrow> alt_instr res" where
  "alt_instr_at m p = mapE dec_alt_instr (hread m p 12)"

text \<open>\<^verbatim>\<open>cpuCaps\<close> has ten elements.\<close>

definition has_cap :: "(nat \<Rightarrow> u32) \<Rightarrow> u16 \<Rightarrow> bool res" where
  "has_cap caps c =
     (let i = unat (c div 32) in
      if i < 10 then Inr (drop_bit (unat (c mod 32)) (caps i) AND 1 \<noteq> 0) else Inl OutOfBounds)"

definition alt_instr_pointer :: "loader_kind \<Rightarrow> 'a ElfLoader_scheme \<Rightarrow> u64 \<Rightarrow> alt_instr \<Rightarrow> u64" where
  "alt_instr_pointer kind l p a =
     (let instr = p + scast (instr_offset a) in
      if kind = KernelLoader then instr - (si_index (textSegment l) - hbase (loader_mem l)) else instr)"

definition alt_replacement_pointer :: "u64 \<Rightarrow> alt_instr \<Rightarrow> u64" where
  "alt_replacement_pointer p a = p + 4 + scast (repl_offset a)"

text \<open>The displacement of a relative call, moved from the replacement to the instruction.\<close>

definition alt_displacement :: "SectionInfo \<Rightarrow> SectionInfo \<Rightarrow> u64 \<Rightarrow> u64 \<Rightarrow> u32 \<Rightarrow> u32" where
  "alt_displacement txt altrepl replacement instr d =
     (let d1 = (if si_index altrepl \<le> replacement \<and> replacement < si_index altrepl + si_size altrepl
        then d - ucast ((si_index altrepl - si_index txt) - (memindex altrepl - memindex txt))
        else d) in
      d1 + ucast (replacement - instr))"

definition fix_call :: "SectionInfo \<Rightarrow> SectionInfo \<Rightarrow> u64 \<Rightarrow> u64 \<Rightarrow> u8 \<Rightarrow> bytes \<Rightarrow> bytes res" where
  "fix_call txt altrepl replacement instr rlen insnbuf =
     bindE (bread insnbuf 0 1) (\<lambda>b.
       if b = [0xe8] \<and> rlen = 5
       then bindE (bread insnbuf 1 4) (\<lambda>d.
         bwrite insnbuf 1 (to_le 4 (alt_displacement txt altrepl replacement instr (of_le d))))
       else Inr insnbuf)"

definition alt_step ::
  "loader_kind \<Rightarrow> (nat \<Rightarrow> u32) \<Rightarrow> ParavirtState \<Rightarrow> SectionInfo \<Rightarrow> u64 \<Rightarrow>
   bytes \<times> 'a ElfLoader_scheme \<Rightarrow> (bytes \<times> 'a ElfLoader_scheme) res" where
  "alt_step kind caps st altrepl p = (\<lambda>(insnbuf, l).
     bindE (alt_instr_at (loader_mem l) p) (\<lambda>a.
     bindE (has_cap caps (cpuid a)) (\<lambda>cap.
     if \<not> cap then Inr (insnbuf, l)
     else
       let instr = alt_instr_pointer kind l p a;
           replacement = alt_replacement_pointer p a in
       bindE (hread (loader_mem l) replacement (unat (replacementlen a))) (\<lambda>r.
       bindE (bwrite insnbuf 0 r) (\<lambda>b0.
       bindE (fix_call (textSegment l) altrepl replacement instr (replacementlen a) b0) (\<lambda>b1.
       bindE (patcher_nops st b1 (unat (replacementlen a)) (instrlen a - replacementlen a)) (\<lambda>b2.
       bindE (bread b2 0 (unat (instrlen a))) (\<lambda>x.
       bindE (hwrite (loader_mem l) instr x) (\<lambda>m.
         Inr (b2, set_loader_mem m l))))))))))"

definition applyAltinstr ::
  "loader_kind \<Rightarrow> (SectionInfo \<Rightarrow> SectionInfo res) \<Rightarrow> (nat \<Rightarrow> u32) option \<Rightarrow> ParavirtState \<Rightarrow> bytes \<Rightarrow>
   'a ElfLoader_scheme \<Rightarrow> 'a ElfLoader_scheme res" where
  "applyAltinstr kind upd caps st insnbuf l =
     bindE (findSectionWithName (elffile l) ''.altinstructions'') (\<lambda>altinst.
       if si_index altinst = 0 then Inr l
       else
         bindE (findSectionWithName (elffile l) ''.altinstr_replacement'') (\<lambda>repl0.
         bindE (upd repl0) (\<lambda>altrepl.
         case caps of
           None \<Rightarrow> Inl AssertFailed
         | Some cs \<Rightarrow>
             mapE snd (foldE (alt_step kind cs st altrepl)
               (pointers (si_index altinst) 12 (si_size altinst)) (insnbuf, l)))))"

section \<open>Lock prefixes\<close>

definition X86_FEATURE_UP :: nat where
  "X86_FEATURE_UP = 3 * 32 + 9"

definition lock_prefix :: "(nat \<Rightarrow> u32) \<Rightarrow> u8" where
  "lock_prefix caps =
     (if drop_bit (X86_FEATURE_UP mod 32) (caps (X86_FEATURE_UP div 32)) AND 1 = 0 then 0x3e else 0xf0)"

definition smp_pointer :: "SectionInfo \<Rightarrow> SectionInfo \<Rightarrow> u64 \<Rightarrow> u32 \<Rightarrow> u64" where
  "smp_pointer txt info poff d =
     (let offset = ucast ((si_index info - si_index txt) - (memindex info - memindex txt)) :: u32 in
      poff + scast d - scast offset)"

definition smp_step ::
  "u8 \<Rightarrow> bool \<Rightarrow> SectionInfo \<Rightarrow> u64 \<Rightarrow> 'a ElfKernelspaceLoader_scheme \<Rightarrow> 'a ElfKernelspaceLoader_scheme res" where
  "smp_step lock addSmpEntries info poff l =
     bindE (host32 (loader_mem l) poff) (\<lambda>d.
       let txt = textSegment l; ptr = smp_pointer txt info poff d in
       if containsElfAddress txt ptr
       then bindE (hwrite (loader_mem l) ptr [lock]) (\<lambda>m.
         let l' = set_loader_mem m l in
         Inr (if addSmpEntries
              then l'\<lparr>smpOffsets := insert (ptr - si_index txt) (smpOffsets l')\<rparr> else l'))
       else Inr l)"

definition applySmpLocks ::
  "(SectionInfo \<Rightarrow> SectionInfo res) \<Rightarrow> (nat \<Rightarrow> u32) option \<Rightarrow>
   'a ElfKernelspaceLoader_scheme \<Rightarrow> 'a ElfKernelspaceLoader_scheme res" where
  "applySmpLocks upd caps l =
     bindE (findSectionWithName (elffile l) ''.smp_locks'') (\<lambda>info0.
       if si_index info0 = 0 then Inr l
       else bindE (upd info0) (\<lambda>info.
         case caps of
           None \<Rightarrow> Inl AssertFailed
         | Some cs \<Rightarrow>
             foldE (smp_step (lock_prefix cs) (smpOffsets l = {}) info)
               (pointers (si_index info) 4 (si_size info)) l))"

section \<open>Jump labels\<close>

definition dec_jump_entry :: "bytes \<Rightarrow> jump_entry" where
  "dec_jump_entry b = \<lparr>je_code = fld b 0 8, je_target = fld b 8 8, je_key = fld b 16 8\<rparr>"

text \<open>The entries of the saved table; a partial last one is read beyond its end.\<close>

fun table_entries :: "nat \<Rightarrow> bytes \<Rightarrow> jump_entry list res" where
  "table_entries 0 b = Inr []"
| "table_entries (Suc n) b =
     bindE (bread b 0 24) (\<lambda>e.
     bindE (table_entries n (drop 24 b)) (\<lambda>r. Inr (dec_jump_entry e # r)))"

definition jump_table :: "bytes \<Rightarrow> jump_entry list res" where
  "jump_table b = table_entries ((length b + 23) div 24) b"

definition jump_destination :: "jump_entry \<Rightarrow> 32 word" where
  "jump_destination e = ucast (je_target e - (je_code e + 5))"

definition add_jump_entry :: "u64 \<Rightarrow> 32 word \<Rightarrow> 'a ElfKernelspaceLoader_scheme \<Rightarrow> 'a ElfKernelspaceLoader_scheme" where
  "add_jump_entry c d l =
     (if map_of (jumpEntries l) c = None then l\<lparr>jumpEntries := jumpEntries l @ [(c, d)]\<rparr> else l)"

definition patch_jump_label ::
  "ParavirtState \<Rightarrow> bool \<Rightarrow> jump_entry \<Rightarrow> 'a ElfLoader_scheme \<Rightarrow> 'a ElfLoader_scheme res" where
  "patch_jump_label st enabled e l =
     (let pos = unat (je_code e - memindex (textSegment l)) in
      mapE (\<lambda>c. l\<lparr>textSegmentContent := c\<rparr>)
        (if enabled
         then bindE (bwrite (textSegmentContent l) pos [0xe9]) (\<lambda>c.
              bwrite c (pos + 1) (to_le 4 (jump_destination e)))
         else patcher_nops st (textSegmentContent l) pos 5))"

definition jump_table_step ::
  "ParavirtState \<Rightarrow> bool \<Rightarrow> u64 \<Rightarrow> bool \<Rightarrow> jump_entry \<Rightarrow>
   'a ElfKernelspaceLoader_scheme \<Rightarrow> 'a ElfKernelspaceLoader_scheme res" where
  "jump_table_step st addJumpEntries codeEntry enabled e l =
     (if codeEntry = je_code e
      then
        let l1 = (if addJumpEntries
          then (add_jump_entry (je_code e) (jump_destination e) l)
            \<lparr>jumpDestinations := insert (je_target e) (jumpDestinations l)\<rparr>
          else l) in
        patch_jump_label st enabled e l1
      else Inr l)"

definition jump_entry_step ::
  "loader_kind \<Rightarrow> (u64 \<Rightarrow> jump_entry) \<Rightarrow> (u64 \<Rightarrow> u64) \<Rightarrow> ParavirtState \<Rightarrow> bool \<Rightarrow> jump_entry list res \<Rightarrow> u64 \<Rightarrow>
   'a ElfKernelspaceLoader_scheme \<Rightarrow> 'a ElfKernelspaceLoader_scheme res" where
  "jump_entry_step kind guest_entry guest_enabled st addJumpEntries tab p l =
     (case kind of
        ModuleLoader \<Rightarrow> Inl AssertFailed
      | KernelLoader \<Rightarrow>
          let g = guest_entry p in
          if memindex (textSegment l) + si_size (textSegment l) < je_code g then Inr l
          else bindE tab (\<lambda>es.
            foldE (jump_table_step st addJumpEntries (je_code g) (guest_enabled (je_key g) \<noteq> 0)) es l))"

definition applyJumpEntries ::
  "loader_kind \<Rightarrow> (u64 \<Rightarrow> jump_entry) \<Rightarrow> (u64 \<Rightarrow> u64) \<Rightarrow> ParavirtState \<Rightarrow> u64 \<Rightarrow> u32 \<Rightarrow>
   'a ElfKernelspaceLoader_scheme \<Rightarrow> 'a ElfKernelspaceLoader_scheme res" where
  "applyJumpEntries kind guest_entry guest_enabled st jumpStart numberOfEntries l =
     foldE (jump_entry_step kind guest_entry guest_enabled st (jumpEntries l = [])
         (jump_table (jumpTable l)))
       [jumpStart + 24 * of_nat i. i \<leftarrow> [0..<unat numberOfEntries]] l"

section \<open>Lock prefixes: what is recorded is what was written\<close>

lemma word_in_range:
  fixes a p s :: u64
  assumes "a \<le> p" and "p \<le> a + s"
  shows "p - a \<le> s"
proof -
  have le: "unat a \<le> unat p" "unat p \<le> unat (a + s)"
    using assms by (simp_all add: word_le_nat_alt)
  have "unat (a + s) \<le> unat a + unat s"
    by (simp add: unat_word_ariths)
  with le have "unat p - unat a \<le> unat s" by linarith
  then show ?thesis using assms(1) by (simp add: word_le_nat_alt unat_sub)
qed

definition host_byte :: "hostmem \<Rightarrow> u64 \<Rightarrow> u8 option" where
  "host_byte m p =
     (if host_off m p < length (hbytes m) then Some (hbytes m ! host_off m p) else None)"

text \<open>The state of the loop relative to the loader \<open>l0\<close> it started from.\<close>

definition smp_inv :: "u8 \<Rightarrow> 'a ElfKernelspaceLoader_scheme \<Rightarrow> 'a ElfKernelspaceLoader_scheme \<Rightarrow> bool" where
  "smp_inv lock l0 l \<longleftrightarrow>
     textSegment l = textSegment l0 \<and> textSegmentContent l = textSegmentContent l0 \<and>
     jumpEntries l = jumpEntries l0 \<and>
     hbase (loader_mem l) = hbase (loader_mem l0) \<and>
     length (hbytes (loader_mem l)) = length (hbytes (loader_mem l0)) \<and>
     (\<forall>x \<in> smpOffsets l. x \<le> si_size (textSegment l) \<and>
        host_byte (loader_mem l) (si_index (textSegment l) + x) = Some lock) \<and>
     (\<forall>k < length (hbytes (loader_mem l0)).
        (\<forall>x \<in> smpOffsets l. k \<noteq> host_off (loader_mem l0) (si_index (textSegment l) + x)) \<longrightarrow>
        hbytes (loader_mem l) ! k = hbytes (loader_mem l0) ! k)"

lemma hwrite1_byte:
  assumes "hwrite m p [b] = Inr m'"
  shows "host_byte m' p = Some b"
    and "host_byte m q = Some b \<Longrightarrow> host_byte m' q = Some b"
    and "hbase m' = hbase m" and "length (hbytes m') = length (hbytes m)"
    and "k < length (hbytes m) \<Longrightarrow> k \<noteq> host_off m p \<Longrightarrow> hbytes m' ! k = hbytes m ! k"
proof -
  obtain bs where w: "bwrite (hbytes m) (host_off m p) [b] = Inr bs" and m': "m' = m\<lparr>hbytes := bs\<rparr>"
    using assms by (auto simp: hwrite_Inr_iff host_off_def)
  have len: "length bs = length (hbytes m)" using length_bwrite [OF w] .
  have lt: "host_off m p < length (hbytes m)" using w by (auto simp: bwrite_Inr_iff)
  have off: "host_off (m\<lparr>hbytes := bs\<rparr>) = host_off m" by (simp add: fun_eq_iff host_off_def)
  note nth = nth_bwrite [OF w]
  show "host_byte m' p = Some b" using nth [OF lt] lt len by (simp add: host_byte_def off m')
  show "host_byte m' q = Some b" if q: "host_byte m q = Some b"
  proof -
    have lq: "host_off m q < length (hbytes m)" "hbytes m ! host_off m q = b"
      using q by (auto simp: host_byte_def split: if_splits)
    then have "bs ! host_off m q = b" using nth [OF lq(1)] by auto
    then show ?thesis using lq len by (simp add: host_byte_def off m')
  qed
  show "hbase m' = hbase m" "length (hbytes m') = length (hbytes m)" using len by (simp_all add: m')
  show "hbytes m' ! k = hbytes m ! k" if "k < length (hbytes m)" "k \<noteq> host_off m p"
    using nth [OF that(1)] that(2) by (simp add: m') arith
qed

lemma smp_step_inv:
  assumes inv: "smp_inv lock l0 l" and step: "smp_step lock True info poff l = Inr l'"
  shows "smp_inv lock l0 l'"
proof -
  obtain d where d: "host32 (loader_mem l) poff = Inr d" using step by (auto simp: smp_step_def)
  define ptr where "ptr = smp_pointer (textSegment l) info poff d"
  let ?t = "textSegment l"
  show ?thesis
  proof (cases "containsElfAddress ?t ptr")
    case False
    with step inv d show ?thesis by (simp add: smp_step_def Let_def ptr_def)
  next
    case True
    with step d obtain m where w: "hwrite (loader_mem l) ptr [lock] = Inr m" and
      l': "l' = set_loader_mem m l\<lparr>smpOffsets := insert (ptr - si_index ?t) (smpOffsets l)\<rparr>"
      by (auto simp: smp_step_def Let_def ptr_def set_loader_mem_def)
    note byte = hwrite1_byte [OF w]
    have in_range: "ptr - si_index ?t \<le> si_size ?t"
      using True by (intro word_in_range) (auto simp: containsElfAddress_def)
    have frame: "textSegment l' = ?t" "loader_mem l' = m" "jumpEntries l' = jumpEntries l"
      "textSegmentContent l' = textSegmentContent l"
      "smpOffsets l' = insert (ptr - si_index ?t) (smpOffsets l)"
      by (simp_all add: l' set_loader_mem_def)
    have off: "host_off (loader_mem l0) = host_off (loader_mem l)"
      using inv by (simp add: fun_eq_iff host_off_def smp_inv_def)
    show ?thesis
      using inv byte in_range unfolding smp_inv_def frame off by auto
  qed
qed

text \<open>C5: After \<^verbatim>\<open>applySmpLocks\<close> on a loader that has recorded no locks yet, every
  recorded offset lies in the text segment (its end included) and the image holds the chosen prefix
  byte there; every byte of the image that is not at a recorded offset is the one that was loaded.
  So the recorded offsets are exactly where a lock prefix may differ from the file.\<close>

theorem applySmpLocks_recorded:
  assumes "applySmpLocks upd (Some cs) l = Inr l'" and "smpOffsets l = {}"
  shows "smp_inv (lock_prefix cs) l l'"
proof -
  have init: "smp_inv (lock_prefix cs) l l" using assms(2) by (simp add: smp_inv_def)
  from assms(1) obtain info0 where
    r: "(if si_index info0 = 0 then Inr l
         else bindE (upd info0) (\<lambda>info. foldE (smp_step (lock_prefix cs) (smpOffsets l = {}) info)
           (pointers (si_index info) 4 (si_size info)) l)) = Inr l'"
    by (simp only: applySmpLocks_def option.case bindE_Inr_iff) blast
  show ?thesis
  proof (cases "si_index info0 = 0")
    case True
    with r init show ?thesis by simp
  next
    case False
    with r assms(2) obtain info where "foldE (smp_step (lock_prefix cs) True info)
        (pointers (si_index info) 4 (si_size info)) l = Inr l'"
      by (auto simp: bindE_Inr_iff simp del: foldE.simps)
    then show ?thesis using init by (rule foldE_invariant) (rule smp_step_inv)
  qed
qed

definition ex_smp_loader :: ElfKernelspaceLoader where
  "ex_smp_loader = \<lparr>elffile =
       \<lparr>mem = \<lparr>hbase = 0x10000, hbytes = replicate 16 0xf0 @ to_le 4 (0xfffffff2 :: u32)\<rparr>,
        shstrindex = 0,
        sections = [\<lparr>si_name = ''.smp_locks'', secID = 0, si_offset = 16, si_index = 0x10010,
          memindex = 0xffffffff81000010, si_size = 4, si_flags = 2\<rparr>],
        segments = [], section_ids = [0 \<mapsto> 0], section_names = [''.smp_locks'' \<mapsto> 0],
        symbolCount = 0\<rparr>,
     textSegment = ex_text, dataSection = SectionInfo_default, bssSection = SectionInfo_default,
     roDataSection = SectionInfo_default, jumpTable = [], roData = [], textSegmentContent = [],
     dataSegmentContent = [], jumpEntries = [], jumpDestinations = {}, smpOffsets = {}\<rparr>"

lemma ex_smp_run:
  "mapE (\<lambda>l. (smpOffsets l, hbytes (loader_mem l))) (applySmpLocks Inr (Some (\<lambda>_. 0)) ex_smp_loader)
    = Inr ({2}, [0xf0, 0xf0, 0x3e] @ replicate 13 0xf0 @ to_le 4 (0xfffffff2 :: u32))"
  by code_simp

theorem applySmpLocks_recorded_witness:
  "\<exists>l'. applySmpLocks Inr (Some (\<lambda>_. 0)) ex_smp_loader = Inr l' \<and> smpOffsets l' = {2} \<and>
     smp_inv 0x3e ex_smp_loader l'"
proof -
  obtain l' where l': "applySmpLocks Inr (Some (\<lambda>_. 0)) ex_smp_loader = Inr l'" "smpOffsets l' = {2}"
    using ex_smp_run by (auto simp: mapE_def)
  moreover have "lock_prefix (\<lambda>_. 0) = 0x3e" by (simp add: lock_prefix_def)
  ultimately show ?thesis
    using applySmpLocks_recorded [OF l'(1)] by (simp add: ex_smp_loader_def)
qed

section \<open>Jump labels: what is recorded\<close>

interpretation jump_map: first_wins "\<lambda>l. map_of (jumpEntries l)" add_jump_entry
  by unfold_locales (auto simp: add_jump_entry_def map_add_def split: option.splits)

lemma patch_jump_label_frame:
  assumes "patch_jump_label st en e l = Inr l'"
  shows "jumpEntries l' = jumpEntries l" and "textSegment l' = textSegment l"
    and "jumpDestinations l' = jumpDestinations l" and "jumpTable l' = jumpTable l"
    and "elffile l' = elffile l" and "smpOffsets l' = smpOffsets l"
  using assms by (auto simp: patch_jump_label_def Let_def mapE_def)

lemma add_jump_entry_frame [simp]:
  "textSegment (add_jump_entry c d l) = textSegment l"
  "jumpTable (add_jump_entry c d l) = jumpTable l"
  by (simp_all add: add_jump_entry_def)

text \<open>The destination the table's first entry for a code address gives it.\<close>

definition table_destination :: "jump_entry list \<Rightarrow> u64 \<Rightarrow> 32 word option" where
  "table_destination es c = map_option jump_destination (find (\<lambda>e. je_code e = c) es)"

lemma jump_table_loop:
  "foldE (jump_table_step st True c en) es l = Inr l' \<Longrightarrow>
     textSegment l' = textSegment l \<and> jumpTable l' = jumpTable l \<and>
     map_of (jumpEntries l') x = (case map_of (jumpEntries l) x of Some d \<Rightarrow> Some d
       | None \<Rightarrow> if x = c then table_destination es c else None)"
proof (induction es arbitrary: l)
  case Nil
  then show ?case by (simp add: table_destination_def split: option.split)
next
  case (Cons e es)
  from Cons.prems obtain l1 where step: "jump_table_step st True c en e l = Inr l1"
    and rest: "foldE (jump_table_step st True c en) es l1 = Inr l'" by auto
  have "textSegment l1 = textSegment l \<and> jumpTable l1 = jumpTable l \<and>
    map_of (jumpEntries l1) x = (if x = c \<and> je_code e = c \<and> map_of (jumpEntries l) x = None
      then Some (jump_destination e) else map_of (jumpEntries l) x)"
    using step patch_jump_label_frame [of st en e _ l1]
    by (auto simp: jump_table_step_def Let_def jump_map.look_add split: if_splits)
  then show ?case
    using Cons.IH [OF rest] by (auto simp: table_destination_def split: option.splits)
qed

text \<open>The code addresses of the guest's entries that are not behind the text segment.\<close>

definition guest_codes :: "(u64 \<Rightarrow> jump_entry) \<Rightarrow> SectionInfo \<Rightarrow> u64 list \<Rightarrow> u64 set" where
  "guest_codes guest_entry txt ps =
     {je_code (guest_entry p) | p. p \<in> set ps \<and>
        \<not> memindex txt + si_size txt < je_code (guest_entry p)}"

lemma jump_entries_loop:
  "foldE (jump_entry_step KernelLoader ge en st True (Inr es)) ps l = Inr l' \<Longrightarrow>
     textSegment l' = textSegment l \<and> jumpTable l' = jumpTable l \<and>
     map_of (jumpEntries l') x = (case map_of (jumpEntries l) x of Some d \<Rightarrow> Some d
       | None \<Rightarrow> if x \<in> guest_codes ge (textSegment l) ps then table_destination es x else None)"
proof (induction ps arbitrary: l)
  case Nil
  then show ?case by (simp add: guest_codes_def split: option.split)
next
  case (Cons p ps)
  from Cons.prems obtain l1 where step: "jump_entry_step KernelLoader ge en st True (Inr es) p l = Inr l1"
    and rest: "foldE (jump_entry_step KernelLoader ge en st True (Inr es)) ps l1 = Inr l'" by auto
  let ?c = "je_code (ge p)" and ?lim = "memindex (textSegment l) + si_size (textSegment l)"
  have one: "textSegment l1 = textSegment l \<and> jumpTable l1 = jumpTable l \<and>
    map_of (jumpEntries l1) x = (case map_of (jumpEntries l) x of Some d \<Rightarrow> Some d
       | None \<Rightarrow> if x = ?c \<and> \<not> ?lim < ?c then table_destination es x else None)"
    using step jump_table_loop [of st ?c _ es l l1 x]
    by (auto simp: jump_entry_step_def Let_def split: if_splits option.splits)
  have "guest_codes ge (textSegment l) (p # ps)
      = (if ?lim < ?c then {} else {?c}) \<union> guest_codes ge (textSegment l) ps"
    by (auto simp: guest_codes_def)
  then show ?case using Cons.IH [OF rest] one
    by (auto split: option.splits if_splits)
qed

text \<open>C4: After \<^verbatim>\<open>applyJumpEntries\<close> on the kernel with no entries recorded yet, the
  recorded map holds exactly the code addresses of the guest's own jump entries that are not behind
  the text segment and that the saved table names, each with the displacement of the table's first
  entry for it. The table alone, or the guest alone, adds nothing.\<close>

theorem applyJumpEntries_recorded:
  assumes "applyJumpEntries KernelLoader guest_entry guest_enabled st jumpStart n l = Inr l'"
    and "jumpEntries l = []" and "jump_table (jumpTable l) = Inr es"
  shows "map_of (jumpEntries l') c =
    (if c \<in> guest_codes guest_entry (textSegment l) [jumpStart + 24 * of_nat i. i \<leftarrow> [0..<unat n]]
     then table_destination es c else None)"
  using jump_entries_loop [of guest_entry guest_enabled st es _ l l' c] assms
  by (simp add: applyJumpEntries_def)

definition ex_jump_entry :: jump_entry where
  "ex_jump_entry = \<lparr>je_code = 0xffffffff81000002, je_target = 0xffffffff81000010, je_key = 7\<rparr>"

definition ex_jump_loader :: ElfKernelspaceLoader where
  "ex_jump_loader = ex_smp_loader\<lparr>textSegmentContent := replicate 8 0xcc,
     jumpTable := to_le 8 (je_code ex_jump_entry) @ to_le 8 (je_target ex_jump_entry) @
       to_le 8 (je_key ex_jump_entry)\<rparr>"

lemma ex_jump_run:
  "mapE (\<lambda>l. (jumpEntries l, textSegmentContent l))
     (applyJumpEntries KernelLoader (\<lambda>_. ex_jump_entry) (\<lambda>_. 1) ex_pv_state 0x5000 1 ex_jump_loader)
   = Inr ([(0xffffffff81000002, 9)], [0xcc, 0xcc, 0xe9, 9, 0, 0, 0, 0xcc])"
  by code_simp

lemma ex_jump_table: "jump_table (jumpTable ex_jump_loader) = Inr [ex_jump_entry]"
  by code_simp

theorem applyJumpEntries_recorded_witness:
  "\<exists>l'. applyJumpEntries KernelLoader (\<lambda>_. ex_jump_entry) (\<lambda>_. 1) ex_pv_state 0x5000 1 ex_jump_loader
      = Inr l' \<and>
    map_of (jumpEntries l') 0xffffffff81000002 = Some 9 \<and> map_of (jumpEntries l') 0 = None"
proof -
  obtain l' where l': "applyJumpEntries KernelLoader (\<lambda>_. ex_jump_entry) (\<lambda>_. 1) ex_pv_state 0x5000 1
      ex_jump_loader = Inr l'"
    using ex_jump_run by (auto simp: mapE_def)
  have "jumpEntries ex_jump_loader = []" by (simp add: ex_jump_loader_def ex_smp_loader_def)
  from applyJumpEntries_recorded [OF l' this ex_jump_table, of "0xffffffff81000002"]
    applyJumpEntries_recorded [OF l' this ex_jump_table, of 0] l'
  show ?thesis
    by (auto simp: guest_codes_def table_destination_def ex_jump_entry_def jump_destination_def
        ex_jump_loader_def ex_smp_loader_def ex_text_def)
qed

section \<open>Calls in alternative instructions\<close>

lemma ucast32_add: "(ucast (x + y :: u64) :: u32) = ucast x + ucast y"
  by (rule ucast_down_add) simp

lemma ucast32_diff: "(ucast (x - y :: u64) :: u32) = ucast x - ucast y"
  by (rule ucast_down_diff) simp

text \<open>A relative call in an alternative instruction is moved correctly: with the displacement the
  patcher computes, the call at the instruction's guest address goes to the target it had at the
  replacement's guest address (modulo the 32 bits a displacement has).\<close>

theorem alt_displacement_keeps_target:
  assumes "si_index altrepl \<le> replacement" and "replacement < si_index altrepl + si_size altrepl"
  shows "ucast (memindex txt + (instr - si_index txt) + 5) + alt_displacement txt altrepl replacement instr d
    = ucast (memindex altrepl + (replacement - si_index altrepl) + 5) + d"
proof -
  have "alt_displacement txt altrepl replacement instr d
      = d - ((ucast (si_index altrepl) - ucast (si_index txt))
          - (ucast (memindex altrepl) - ucast (memindex txt)))
        + (ucast replacement - ucast instr)"
    using assms by (simp only: alt_displacement_def Let_def simp_thms if_True ucast32_diff)
  then show ?thesis by (simp only: ucast32_add ucast32_diff) (simp only: algebra_simps)
qed

definition ex_altrepl :: SectionInfo where
  "ex_altrepl = \<lparr>si_name = ''.altinstr_replacement'', secID = 2, si_offset = 0x20,
     si_index = 0x10020, memindex = 0xffffffff81d00000, si_size = 16, si_flags = 6\<rparr>"

theorem alt_displacement_keeps_target_witness:
  "ucast (0xffffffff81000002 + 5 :: u64) + alt_displacement ex_text ex_altrepl 0x10028 0x10002 0x100
    = (ucast (0xffffffff81d00008 + 5 :: u64) + 0x100 :: u32)"
  using alt_displacement_keeps_target [of ex_altrepl "0x10028" ex_text "0x10002" "0x100"]
  by (simp add: ex_altrepl_def ex_text_def)

end
