(* ===== verification/KernelLoader.thy ===== *)
theory KernelLoader
  imports KernelspaceLoader
begin

text \<open>
  \<^verbatim>\<open>src/elfkernelloader.h\<close> and \<^verbatim>\<open>src/elfkernelloader.cpp\<close>: the kernel
  image, its construction from the patched ELF file and the search for the loader an address belongs
  to. The state of \<^verbatim>\<open>src/elfmoduleloader.h\<close> is here too, for the module map holds it;
  its operations are in theory \<open>ModuleLoader\<close>.

  What the kernel asks of the guest and of the symbol store of another repository is the record
  \<open>kernel_env\<close>.
\<close>

section \<open>State\<close>

record ElfModuleLoader = ElfKernelspaceLoader +
  modName :: string

record ElfKernelLoader = ElfKernelspaceLoader +
  vvarSegment :: SectionInfo
  dataNosaveSegment :: SectionInfo
  fentryAddress :: u64
  genericUnrolledAddress :: u64
  idt_tableAddress :: u64
  nmi_idt_tableAddress :: u64
  sinittextAddress :: u64
  irq_entries_startAddress :: u64
  paravirt :: ParavirtState
  moduleMap :: "(string \<times> ElfModuleLoader option) list"

text \<open>
  Addresses of the system map and of the symbol store; the CPU capabilities; the assembler's bytes;
  jump entries and static keys of the guest; the content the patchers' stack buffers start with.
\<close>

record kernel_env =
  ke_sysmap :: "string \<Rightarrow> u64"
  ke_symbol :: "string \<Rightarrow> u64"
  ke_caps :: "(nat \<Rightarrow> u32) option"
  ke_native :: "string \<Rightarrow> bytes"
  ke_guest_entry :: "u64 \<Rightarrow> jump_entry"
  ke_guest_enabled :: "u64 \<Rightarrow> u64"
  ke_insnbuf :: bytes

text \<open>The kernel's \<^verbatim>\<open>updateSectionInfoMemAddress\<close> leaves the section alone.\<close>

definition kernel_updateSectionInfoMemAddress :: "SectionInfo \<Rightarrow> SectionInfo res" where
  "kernel_updateSectionInfoMemAddress info = Inr info"

section \<open>Loading the text\<close>

definition patch_image :: "kernel_env \<Rightarrow> ElfKernelLoader \<Rightarrow> ElfKernelLoader res" where
  "patch_image env l =
     bindE (applyAltinstr KernelLoader kernel_updateSectionInfoMemAddress (ke_caps env) (paravirt l)
       (ke_insnbuf env) l) (\<lambda>l1.
     bindE (applyParainstr (ke_native env) (paravirt l1) (ke_insnbuf env) l1) (\<lambda>l2.
       applySmpLocks kernel_updateSectionInfoMemAddress (ke_caps env) l2))"

definition append_text :: "bytes \<Rightarrow> 'a ElfLoader_scheme \<Rightarrow> 'a ElfLoader_scheme" where
  "append_text bs l = l\<lparr>textSegmentContent := textSegmentContent l @ bs\<rparr>"

text \<open>A section at its distance from the text section, the gap filled with zeros.\<close>

definition append_section :: "string \<Rightarrow> 'a ElfLoader_scheme \<Rightarrow> 'a ElfLoader_scheme res" where
  "append_section nm l =
     bindE (findSectionWithName (elffile l) nm) (\<lambda>info.
       let offset = si_index info - si_index (textSegment l) in
       bindE (append_fill (textSegmentContent l) (offset - of_nat (length (textSegmentContent l))) 0) (\<lambda>c.
       bindE (section_bytes (loader_mem l) info) (\<lambda>bs.
         Inr (l\<lparr>textSegmentContent := c @ bs\<rparr>))))"

text \<open>The file's copy of the guest range between two symbols, displaced like a given section.\<close>

definition symbol_section :: "kernel_env \<Rightarrow> string \<Rightarrow> string \<Rightarrow> SectionInfo \<Rightarrow> SectionInfo" where
  "symbol_section env start stop info =
     (let off = si_index info - memindex info; i = ke_sysmap env start + off in
      info\<lparr>si_index := i, si_size := ke_sysmap env stop + off - i\<rparr>)"

definition load_mcount :: "kernel_env \<Rightarrow> ElfKernelLoader \<Rightarrow> ElfKernelLoader res" where
  "load_mcount env l =
     bindE (findSectionWithName (elffile l) ''.init.text'') (\<lambda>info.
       applyMcount (symbol_section env ''__start_mcount_loc'' ''__stop_mcount_loc'' info) (paravirt l) l)"

definition load_jump_table :: "kernel_env \<Rightarrow> ElfKernelLoader \<Rightarrow> ElfKernelLoader res" where
  "load_jump_table env l =
     bindE (findSectionWithName (elffile l) ''.data'') (\<lambda>data.
       let info = symbol_section env ''__start___jump_table'' ''__stop___jump_table'' data;
           jumpStart = ke_sysmap env ''__start___jump_table'';
           jumpStop = ke_sysmap env ''__stop___jump_table'';
           numberOfEntries = ucast ((jumpStop - jumpStart) div 24) :: u32 in
       bindE (if si_index info \<noteq> 0
              then mapE (\<lambda>bs. l\<lparr>jumpTable := jumpTable l @ bs\<rparr>) (section_bytes (loader_mem l) info)
              else Inr l) (\<lambda>l1.
         applyJumpEntries KernelLoader (ke_guest_entry env) (ke_guest_enabled env) (paravirt l1)
           jumpStart numberOfEntries l1))"

text \<open>The padding to the next large page; a whole page when nothing is missing.\<close>

definition page_fill :: "nat \<Rightarrow> nat \<Rightarrow> nat" where
  "page_fill page n = page - n mod page"

definition KERNEL_CODEPAGE_SIZE :: nat where
  "KERNEL_CODEPAGE_SIZE = 0x200000"

definition fill_page :: "nat \<Rightarrow> bytes \<Rightarrow> bytes res" where
  "fill_page page v = append_fill v (of_nat (page_fill page (length v))) 0"

definition ElfKernelLoader_initText ::
  "kernel_env \<Rightarrow> ElfKernelLoader \<Rightarrow> (ElfKernelLoader \<times> store_op list) res" where
  "ElfKernelLoader_initText env l0 =
     bindE (findSectionWithName (elffile l0) ''.text'') (\<lambda>txt0.
     bindE (kernel_updateSectionInfoMemAddress txt0) (\<lambda>txt.
     let l1 = l0\<lparr>textSegment := txt, fentryAddress := ke_sysmap env ''__fentry__'',
                 genericUnrolledAddress := ke_sysmap env ''copy_user_generic_unrolled''\<rparr> in
     bindE (assertE (genericUnrolledAddress l1 \<noteq> 0)) (\<lambda>_.
     bindE (patch_image env l1) (\<lambda>l2.
     bindE (section_bytes (loader_mem l2) (textSegment l2)) (\<lambda>bs.
     bindE (append_section ''.notes'' (append_text bs l2)) (\<lambda>l3.
     bindE (append_section ''__ex_table'' l3) (\<lambda>l4.
     bindE (load_mcount env l4) (\<lambda>l5.
     bindE (load_jump_table env l5) (\<lambda>l6.
     bindE (fill_page KERNEL_CODEPAGE_SIZE (textSegmentContent l6)) (\<lambda>c.
     let l7 = l6\<lparr>textSegmentContent := c\<rparr> in
     mapE (\<lambda>ops. (l7, ops)) (addSymbolsToStore (elffile l7) (memindex (textSegment l7)))))))))))))"

section \<open>Loading the data\<close>

definition kernel_sections :: "ElfKernelLoader \<Rightarrow> ElfKernelLoader res" where
  "kernel_sections l =
     bindE (findSectionWithName (elffile l) ''.data'') (\<lambda>data.
     bindE (findSectionWithName (elffile l) ''.vvar'') (\<lambda>vvar.
     bindE (findSectionWithName (elffile l) ''.data_nosave'') (\<lambda>nosave.
     bindE (findSectionWithName (elffile l) ''.bss'') (\<lambda>bss.
     bindE (findSectionWithName (elffile l) ''.rodata'') (\<lambda>rodata.
       Inr (l\<lparr>dataSection := data, vvarSegment := vvar, dataNosaveSegment := nosave,
              bssSection := bss, roDataSection := rodata\<rparr>))))))"

definition ElfKernelLoader_initData :: "kernel_env \<Rightarrow> ElfKernelLoader \<Rightarrow> ElfKernelLoader res" where
  "ElfKernelLoader_initData env l0 =
     bindE (kernel_sections l0) (\<lambda>l1.
     let l2 = l1\<lparr>idt_tableAddress := ke_symbol env ''idt_table'',
                 nmi_idt_tableAddress := ke_symbol env ''nmi_idt_table'',
                 sinittextAddress := ke_symbol env ''_sinittext'',
                 irq_entries_startAddress := ke_symbol env ''irq_entries_start''\<rparr> in
     bindE (findSectionWithName (elffile l2) ''__modver'') (\<lambda>info.
     bindE (assertE (si_index info \<noteq> 0)) (\<lambda>_.
     bindE (host_range (loader_mem l2) (si_index (roDataSection l2)) (si_index info + si_size info)) (\<lambda>bs.
     bindE (fill_page KERNEL_CODEPAGE_SIZE (roData l2 @ bs)) (\<lambda>ro.
       Inr (l2\<lparr>roData := ro, roDataSection := (roDataSection l2)\<lparr>si_size := of_nat (length ro)\<rparr>\<rparr>))))))"

section \<open>Which loader an address belongs to\<close>

definition ElfKernelLoader_isDataAddress :: "ElfKernelLoader \<Rightarrow> u64 \<Rightarrow> bool res" where
  "ElfKernelLoader_isDataAddress l addr = ElfFile64_isDataAddress (elffile l) (kernel_half addr)"

definition ElfModuleLoader_isDataAddress :: "'a ElfKernelspaceLoader_scheme \<Rightarrow> u64 \<Rightarrow> bool" where
  "ElfModuleLoader_isDataAddress l addr \<longleftrightarrow>
     containsMemAddress (dataSection l) (kernel_half addr) \<or>
     containsMemAddress (bssSection l) (kernel_half addr)"

text \<open>The loader found: which class it is, its name and its state.\<close>

record found_loader =
  fl_kind :: loader_kind
  fl_name :: string
  fl_loader :: ElfKernelspaceLoader

definition kernel_found :: "ElfKernelLoader \<Rightarrow> found_loader" where
  "kernel_found l = \<lparr>fl_kind = KernelLoader, fl_name = ''kernel'',
     fl_loader = ElfKernelspaceLoader.truncate l\<rparr>"

definition module_found :: "ElfModuleLoader \<Rightarrow> found_loader" where
  "module_found m = \<lparr>fl_kind = ModuleLoader, fl_name = modName m,
     fl_loader = ElfKernelspaceLoader.truncate m\<rparr>"

fun find_module :: "(ElfModuleLoader \<Rightarrow> bool) \<Rightarrow> (string \<times> ElfModuleLoader option) list \<Rightarrow>
    ElfModuleLoader option res" where
  "find_module P [] = Inr None"
| "find_module P ((nm, m) # ms) =
     (case m of
        None \<Rightarrow> Inl AssertFailed
      | Some x \<Rightarrow> if P x then Inr (Some x) else find_module P ms)"

definition getModuleForAddress :: "ElfKernelLoader \<Rightarrow> u64 \<Rightarrow> found_loader option res" where
  "getModuleForAddress l address =
     bindE (orE (Inr (ElfLoader_isCodeAddress l address)) (ElfKernelLoader_isDataAddress l address)) (\<lambda>own.
       if own then Inr (Some (kernel_found l))
       else mapE (map_option module_found)
         (find_module (\<lambda>m. ElfLoader_isCodeAddress m address \<or> ElfModuleLoader_isDataAddress m address)
           (moduleMap l)))"

text \<open>Here a null module is dereferenced, not asserted.\<close>

definition getModuleForCodeAddress :: "ElfKernelLoader \<Rightarrow> u64 \<Rightarrow> found_loader option res" where
  "getModuleForCodeAddress l address =
     (if ElfLoader_isCodeAddress l address then Inr (Some (kernel_found l))
      else case find_module (\<lambda>m. ElfLoader_isCodeAddress m address) (moduleMap l) of
          Inl e \<Rightarrow> Inl NullDeref
        | Inr r \<Rightarrow> Inr (map_option module_found r))"

end
