(* ===== verification/KernelModules.thy ===== *)
theory KernelModules
  imports GuestList KernelLoader
begin

text \<open>
  \<^verbatim>\<open>src/kernel.h\<close> and \<^verbatim>\<open>src/kernel.cpp\<close>: the file name pattern of a module, the
  list of the modules of the guest, the map of the loaded ones and the lookups in it. The threads that load
  them are in theory \<open>ModuleThreads\<close>, the symbol file in theory \<open>SystemMap\<close>.
\<close>

section \<open>Names and files of modules\<close>

definition replace_dash :: "string \<Rightarrow> string" where
  "replace_dash s = map (\<lambda>c. if c = CHR ''-'' then CHR ''_'' else c) s"

lemma replace_dash_idem [simp]: "replace_dash (replace_dash s) = replace_dash s"
  by (simp add: replace_dash_def)

text \<open>\<^verbatim>\<open>string::find\<close> of a character from a position on.\<close>

definition find_char :: "char \<Rightarrow> string \<Rightarrow> nat \<Rightarrow> nat option" where
  "find_char c s pos = List.find (\<lambda>i. s ! i = c) [pos..<length s]"

lemma find_char_Some:
  "find_char c s pos = Some i \<Longrightarrow> pos \<le> i \<and> i < length s \<and> s ! i = c"
proof -
  assume "find_char c s pos = Some i"
  then have "i \<in> set [pos..<length s] \<and> s ! i = c"
    unfolding find_char_def find_Some_iff by (metis nth_mem)
  then show ?thesis by simp
qed

function underscore_loop :: "string \<Rightarrow> nat \<Rightarrow> string" where
  "underscore_loop nm start_pos =
     (case find_char (CHR ''_'') nm start_pos of
        None \<Rightarrow> nm
      | Some i \<Rightarrow> underscore_loop (take i nm @ ''[_|-]'' @ drop (Suc i) nm) (i + 5))"
  by pat_completeness auto
termination
  by (relation "measure (\<lambda>(s, pos). length s - pos)") (auto dest!: find_char_Some)

declare underscore_loop.simps [simp del]

definition findModuleFile ::
  "(string \<Rightarrow> string \<Rightarrow> string \<Rightarrow> string list \<Rightarrow> string) \<Rightarrow> string \<Rightarrow> string \<Rightarrow> string" where
  "findModuleFile findFileInDir kernelDirName nm =
     findFileInDir kernelDirName (underscore_loop (replace_dash nm) 0) ''.ko'' [''debian'']"

text \<open>The pattern the loop builds, character by character.\<close>

definition name_pattern :: "string \<Rightarrow> string" where
  "name_pattern s = concat (map (\<lambda>c. if c = CHR ''_'' then ''[_|-]'' else [c]) s)"

lemma find_char_prefix:
  "find_char c (a @ b) (length a) =
     (if c \<in> set b then Some (length a + length (takeWhile (\<lambda>x. x \<noteq> c) b)) else None)"
proof (induction b arbitrary: a)
  case Nil
  then show ?case by (simp add: find_char_def)
next
  case (Cons x b)
  have up: "[length a..<length (a @ x # b)] = length a # [Suc (length a)..<length (a @ x # b)]"
    by (rule upt_conv_Cons) simp
  show ?case
  proof (cases "x = c")
    case True
    then show ?thesis unfolding find_char_def up by (simp add: nth_append)
  next
    case False
    have "find_char c (a @ x # b) (length a) = find_char c ((a @ [x]) @ b) (length (a @ [x]))"
      using False unfolding find_char_def up by (simp add: nth_append del: upt_Suc)
    with Cons.IH [of "a @ [x]"] False show ?thesis by simp
  qed
qed

lemma underscore_loop_prefix: "underscore_loop (a @ b) (length a) = a @ name_pattern b"
proof (induction "length b" arbitrary: a b rule: less_induct)
  case less
  show ?case
  proof (cases "CHR ''_'' \<in> set b")
    case False
    then have "name_pattern b = b" by (induction b) (auto simp: name_pattern_def)
    with False show ?thesis by (subst underscore_loop.simps) (simp add: find_char_prefix)
  next
    case True
    define u where "u = takeWhile (\<lambda>x. x \<noteq> CHR ''_'') b"
    obtain v where b: "b = u @ CHR ''_'' # v"
      using split_list_first [OF True] u_def by (auto simp: takeWhile_append takeWhile_eq_all_conv)
    have u: "name_pattern u = u"
      unfolding u_def by (induction b) (auto simp: name_pattern_def)
    have "underscore_loop (a @ b) (length a)
        = underscore_loop (take (length a + length u) (a @ b) @ ''[_|-]'' @ drop (Suc (length a + length u)) (a @ b))
            (length a + length u + 5)"
      using True by (subst underscore_loop.simps) (simp add: find_char_prefix u_def)
    also have "\<dots> = underscore_loop ((a @ u @ ''[_|-]'') @ v) (length (a @ u @ ''[_|-]''))"
      by (simp add: b numeral_eq_Suc)
    also have "\<dots> = (a @ u @ ''[_|-]'') @ name_pattern v"
      by (rule less) (simp add: b)
    finally show ?thesis using u by (simp add: b name_pattern_def)
  qed
qed

text \<open>The in-place loop over the module name, which resumes five characters behind each replacement,
  replaces every underscore, and only those, by the pattern for a dash or an underscore.\<close>

theorem module_pattern_spec:
  "findModuleFile findFileInDir dir nm =
     findFileInDir dir (concat (map (\<lambda>c. if c = CHR ''_'' \<or> c = CHR ''-'' then ''[_|-]'' else [c]) nm))
       ''.ko'' [''debian'']"
proof -
  have "name_pattern (replace_dash nm)
      = concat (map (\<lambda>c. if c = CHR ''_'' \<or> c = CHR ''-'' then ''[_|-]'' else [c]) nm)"
    by (induction nm) (auto simp: name_pattern_def replace_dash_def)
  with underscore_loop_prefix [of "[]" "replace_dash nm"] show ?thesis
    by (simp add: findModuleFile_def)
qed

section \<open>The modules of the guest\<close>

text \<open>
  \<^verbatim>\<open>std::unordered_map\<close> as the list of its entries in the order of iteration, which the
  standard leaves open: an assignment keeps the place of a key and puts a new one at the end here.
\<close>

fun umap_put :: "'k \<Rightarrow> 'v \<Rightarrow> ('k \<times> 'v) list \<Rightarrow> ('k \<times> 'v) list" where
  "umap_put k v [] = [(k, v)]"
| "umap_put k v ((k', v') # m) = (if k = k' then (k, v) # m else (k', v') # umap_put k v m)"

lemma map_of_umap_put [simp]: "map_of (umap_put k v m) = (map_of m)(k \<mapsto> v)"
  by (induction k v m rule: umap_put.induct) auto

interpretation unordered_map: last_wins map_of umap_put
  by unfold_locales simp

text \<open>The circular list of \<^verbatim>\<open>struct module\<close>, read through libdwarfparser.\<close>

record module_list =
  ml_modules :: u64
  ml_next :: "u64 \<Rightarrow> u64"
  ml_name :: "u64 \<Rightarrow> string"

definition loadKernelModules :: "module_list \<Rightarrow> (string \<times> u64) list option" where
  "loadKernelModules ml =
     list_walk (ml_next ml) (ml_modules ml) (\<lambda>m. umap_put (ml_name ml m) m) (ml_next ml (ml_modules ml)) []"

definition getKernelModules ::
  "module_list \<Rightarrow> (string \<times> u64) list \<Rightarrow> ((string \<times> u64) list \<times> string list) option" where
  "getKernelModules ml instances =
     (if instances = []
      then map_option (\<lambda>m. (m, map fst m)) (loadKernelModules ml)
      else Some (instances, map fst instances))"

definition getKernelModuleInstance :: "(string \<times> u64) list \<Rightarrow> string \<Rightarrow> u64 res" where
  "getKernelModuleInstance instances nm =
     (case map_of instances (replace_dash nm) of Some m \<Rightarrow> Inr m | None \<Rightarrow> Inl AssertFailed)"

lemma loadKernelModules_lookup:
  assumes "loadKernelModules ml = Some instances"
  obtains n where "closes_after (ml_next ml) (ml_modules ml) (ml_next ml (ml_modules ml)) n"
    and "map_of instances = map_of (rev (map (\<lambda>m. (ml_name ml m, m)) (nodes (ml_next ml) (ml_next ml (ml_modules ml)) n)))"
proof -
  from assms obtain n where n: "closes_after (ml_next ml) (ml_modules ml) (ml_next ml (ml_modules ml)) n"
    and i: "instances = unordered_map.store_all
      (map (\<lambda>m. (ml_name ml m, m)) (nodes (ml_next ml) (ml_next ml (ml_modules ml)) n)) []"
    by (auto simp: loadKernelModules_def list_walk_iff unordered_map.store_all_fold)
  have "map_of instances = map_of (rev (map (\<lambda>m. (ml_name ml m, m)) (nodes (ml_next ml) (ml_next ml (ml_modules ml)) n)))"
    unfolding i by (rule ext) (simp add: unordered_map.look_store_all split: option.split)
  with n that show thesis by blast
qed

text \<open>Looking up the guest's instance of a module by a name that has no dash gives a module of the
  list with that name, the last one where several share it, and fails exactly when there is none.\<close>

theorem getKernelModuleInstance_last:
  assumes "loadKernelModules ml = Some instances" and "replace_dash nm = nm"
  shows "\<exists>n. closes_after (ml_next ml) (ml_modules ml) (ml_next ml (ml_modules ml)) n \<and>
    getKernelModuleInstance instances nm =
      (let same = filter (\<lambda>m. ml_name ml m = nm) (nodes (ml_next ml) (ml_next ml (ml_modules ml)) n) in
       if same = [] then Inl AssertFailed else Inr (last same))"
proof -
  from loadKernelModules_lookup [OF assms(1)] obtain n where
    n: "closes_after (ml_next ml) (ml_modules ml) (ml_next ml (ml_modules ml)) n"
    and i: "map_of instances = map_of (rev (map (\<lambda>m. (ml_name ml m, m)) (nodes (ml_next ml) (ml_next ml (ml_modules ml)) n)))"
    by blast
  have "map_of (rev (map (\<lambda>m. (ml_name ml m, m)) ms)) nm
      = (let same = filter (\<lambda>m. ml_name ml m = nm) ms in if same = [] then None else Some (last same))" for ms
    by (induction ms rule: rev_induct) (auto simp: Let_def)
  with i n assms(2) show ?thesis
    by (intro exI [of _ n]) (simp add: getKernelModuleInstance_def Let_def)
qed

section \<open>An example\<close>

definition ex_module_list :: module_list where
  "ex_module_list = \<lparr>ml_modules = 0, ml_next = (\<lambda>a. if a = 0x20 then 0 else a + 0x10),
     ml_name = (\<lambda>a. if a = 0x10 then ''snd'' else ''snd_core'')\<rparr>"

theorem getKernelModuleInstance_last_witness:
  "\<exists>instances n. loadKernelModules ex_module_list = Some instances \<and>
     getKernelModuleInstance instances ''snd_core'' =
       (let same = filter (\<lambda>m. ml_name ex_module_list m = ''snd_core'')
          (nodes (ml_next ex_module_list) (ml_next ex_module_list (ml_modules ex_module_list)) n) in
        if same = [] then Inl AssertFailed else Inr (last same))"
proof -
  have "loadKernelModules ex_module_list = Some [(''snd'', 0x10), (''snd_core'', 0x20)]" by code_simp
  moreover have "replace_dash ''snd_core'' = ''snd_core''" by code_simp
  ultimately show ?thesis using getKernelModuleInstance_last by blast
qed

end
