(* ===== verification/ModuleThreads.thy ===== *)
theory ModuleThreads
  imports KernelModules
begin

text \<open>
  \<^verbatim>\<open>Kernel::loadModule\<close>, \<^verbatim>\<open>loadModuleThread\<close> and \<^verbatim>\<open>loadAllModules\<close>
  of \<^verbatim>\<open>src/kernel.cpp\<close>: several threads take module names from a list and load them; a
  module's entry in the module map is null while one thread parses its file, and other threads that
  need it wait for the entry by polling. The step relation \<open>load_step\<close> interleaves the
  critical sections of the threads.
\<close>

section \<open>Threads and their steps\<close>

datatype frame =
    Enter string
  | Waiting string
  | Loading string "string list"

datatype thread = Running "frame list" | Finished

text \<open>
  What parsing a module file does: the dependencies it loads, in their order (\<open>None\<close>: no
  file of that name), and the loader it builds.
\<close>

record 'm module_env =
  dependencies :: "string \<Rightarrow> string list option"
  build :: "string \<Rightarrow> 'm res"

record 'm modules =
  ms_queue :: "string list"
  ms_map :: "string \<rightharpoonup> 'm option"
  ms_threads :: "thread list"

text \<open>One critical section of \<^verbatim>\<open>loadModule\<close>: the new map and the frames that replace this one.\<close>

fun frame_step ::
  "'m module_env \<Rightarrow> (string \<rightharpoonup> 'm option) \<Rightarrow> frame \<Rightarrow> ((string \<rightharpoonup> 'm option) \<times> frame list) res" where
  "frame_step env m (Enter nm) =
     (let n = replace_dash nm in
      case m n of
        Some (Some x) \<Rightarrow> Inr (m, [])
      | Some None \<Rightarrow> Inr (m, [Waiting n])
      | None \<Rightarrow>
          (case dependencies env n of
             None \<Rightarrow> Inl AssertFailed
           | Some ds \<Rightarrow> Inr (m(n \<mapsto> None), [Loading n ds])))"
| "frame_step env m (Waiting n) =
     (case m n of
        Some (Some x) \<Rightarrow> Inr (m, [])
      | _ \<Rightarrow> Inr (m(n \<mapsto> None), [Waiting n]))"
| "frame_step env m (Loading n (d # ds)) = Inr (m, [Enter d, Loading n ds])"
| "frame_step env m (Loading n []) = bindE (build env n) (\<lambda>x. Inr (m(n \<mapsto> Some x), []))"

definition thread_step :: "'m module_env \<Rightarrow> frame list \<Rightarrow> 'm modules \<Rightarrow> (thread \<times> 'm modules) res" where
  "thread_step env fs s =
     (case fs of
        [] \<Rightarrow> (case ms_queue s of
            [] \<Rightarrow> Inr (Finished, s)
          | nm # q \<Rightarrow> Inr (Running [Enter nm], s\<lparr>ms_queue := q\<rparr>))
      | f # r \<Rightarrow> bindE (frame_step env (ms_map s) f) (\<lambda>(m, gs). Inr (Running (gs @ r), s\<lparr>ms_map := m\<rparr>)))"

inductive load_step :: "'m module_env \<Rightarrow> 'm modules \<Rightarrow> 'm modules \<Rightarrow> bool" for env :: "'m module_env" where
  load_step_thread:
    "i < length (ms_threads s) \<Longrightarrow> ms_threads s ! i = Running fs \<Longrightarrow>
     thread_step env fs s = Inr (t, s1) \<Longrightarrow>
     load_step env s (s1\<lparr>ms_threads := (ms_threads s)[i := t]\<rparr>)"

inductive_cases load_stepE: "load_step env s s'"

text \<open>\<^verbatim>\<open>loadAllModules\<close> starts one thread per processor on the list of module names.\<close>

definition load_start :: "nat \<Rightarrow> string list \<Rightarrow> 'm modules" where
  "load_start cpus names =
     \<lparr>ms_queue = names, ms_map = Map.empty, ms_threads = replicate cpus (Running [])\<rparr>"

inductive load_reachable :: "'m module_env \<Rightarrow> nat \<Rightarrow> string list \<Rightarrow> 'm modules \<Rightarrow> bool"
  for env :: "'m module_env" and cpus :: nat and names :: "string list" where
  load_reachable_start: "load_reachable env cpus names (load_start cpus names)"
| load_reachable_step: "load_reachable env cpus names s \<Longrightarrow> load_step env s s' \<Longrightarrow> load_reachable env cpus names s'"

text \<open>After all threads have ended every entry is asserted to be a loader.\<close>

definition all_loaded :: "'m modules \<Rightarrow> bool" where
  "all_loaded s \<longleftrightarrow> (\<forall>n. ms_map s n \<noteq> Some None)"

text \<open>A schedule: the threads that run, in their order.\<close>

fun run_schedule :: "'m module_env \<Rightarrow> nat list \<Rightarrow> 'm modules \<Rightarrow> 'm modules res" where
  "run_schedule env [] s = Inr s"
| "run_schedule env (i # is) s =
     (if i < length (ms_threads s)
      then case ms_threads s ! i of
          Finished \<Rightarrow> run_schedule env is s
        | Running fs \<Rightarrow> bindE (thread_step env fs s) (\<lambda>(t, s1).
            run_schedule env is (s1\<lparr>ms_threads := (ms_threads s)[i := t]\<rparr>))
      else run_schedule env is s)"

lemma run_schedule_reachable:
  "run_schedule env is s = Inr s' \<Longrightarrow> load_reachable env c names s \<Longrightarrow> load_reachable env c names s'"
proof (induction "is" arbitrary: s)
  case (Cons i "is")
  show ?case
  proof (cases "i < length (ms_threads s)")
    case True
    show ?thesis
    proof (cases "ms_threads s ! i")
      case (Running fs)
      with True Cons.prems(1) obtain t s1 where st: "thread_step env fs s = Inr (t, s1)"
        and r: "run_schedule env is (s1\<lparr>ms_threads := (ms_threads s)[i := t]\<rparr>) = Inr s'" by auto
      from load_reachable_step [OF Cons.prems(2) load_step_thread [OF True Running st]]
      show ?thesis by (rule Cons.IH [OF r])
    next
      case Finished
      with True Cons show ?thesis by simp
    qed
  next
    case False
    with Cons show ?thesis by simp
  qed
qed simp

section \<open>Counting over the threads\<close>

definition thread_frames :: "thread \<Rightarrow> frame list" where
  "thread_frames t = (case t of Running fs \<Rightarrow> fs | Finished \<Rightarrow> [])"

lemma thread_frames_simps [simp]: "thread_frames (Running fs) = fs" "thread_frames Finished = []"
  by (simp_all add: thread_frames_def)

definition frames :: "'m modules \<Rightarrow> frame set" where
  "frames s = (\<Union>t \<in> set (ms_threads s). set (thread_frames t))"

definition frame_sum :: "(frame \<Rightarrow> nat) \<Rightarrow> thread \<Rightarrow> nat" where
  "frame_sum g t = sum_list (map g (thread_frames t))"

definition total :: "(thread \<Rightarrow> nat) \<Rightarrow> thread list \<Rightarrow> nat" where
  "total g ts = sum_list (map g ts)"

lemma total_update: "i < length ts \<Longrightarrow> total g (ts[i := t]) + g (ts ! i) = total g ts + g t"
proof (induction ts arbitrary: i)
  case (Cons x ts)
  then show ?case by (cases i) (auto simp: total_def)
qed simp

lemma total_ge: "t \<in> set ts \<Longrightarrow> g t \<le> total g ts"
  by (simp add: total_def member_le_sum_list)

lemma total_positive: "0 < total g ts \<Longrightarrow> \<exists>t \<in> set ts. 0 < g t"
  by (induction ts) (auto simp: total_def)

fun loads :: "string \<Rightarrow> frame \<Rightarrow> nat" where
  "loads n (Loading n' ds) = (if n' = n then 1 else 0)"
| "loads n f = 0"

definition loading :: "string \<Rightarrow> 'm modules \<Rightarrow> nat" where
  "loading n s = total (frame_sum (loads n)) (ms_threads s)"

definition pending :: "(string \<rightharpoonup> 'm option) \<Rightarrow> string \<Rightarrow> nat" where
  "pending m n = (if m n = Some None then 1 else 0)"

text \<open>
  The invariant of the module map: an entry is null exactly while one frame of one thread parses the
  module, and who waits for an entry finds it in the map.
\<close>

definition map_ok :: "'m modules \<Rightarrow> bool" where
  "map_ok s \<longleftrightarrow> (\<forall>n. loading n s = pending (ms_map s) n) \<and> (\<forall>n. Waiting n \<in> frames s \<longrightarrow> ms_map s n \<noteq> None)"

lemma frame_in_frames: "i < length (ms_threads s) \<Longrightarrow> f \<in> set (thread_frames (ms_threads s ! i)) \<Longrightarrow> f \<in> frames s"
  by (auto simp: frames_def)

lemma frames_iff: "g \<in> frames s \<longleftrightarrow> (\<exists>j < length (ms_threads s). g \<in> set (thread_frames (ms_threads s ! j)))"
  unfolding frames_def set_conv_nth [of "ms_threads s"] by auto

lemma loading_positive:
  assumes "Loading n ds \<in> frames s"
  shows "0 < loading n s"
proof -
  from assms obtain t where t: "t \<in> set (ms_threads s)" "Loading n ds \<in> set (thread_frames t)"
    by (auto simp: frames_def)
  then have "loads n (Loading n ds) \<le> frame_sum (loads n) t"
    unfolding frame_sum_def by (intro member_le_sum_list) (auto intro: rev_image_eqI)
  with total_ge [OF t(1), of "frame_sum (loads n)"] show ?thesis by (simp add: loading_def)
qed

lemma map_ok_loading: "map_ok s \<Longrightarrow> Loading n ds \<in> frames s \<Longrightarrow> ms_map s n = Some None"
  using loading_positive [of n ds s] by (auto simp: map_ok_def pending_def split: if_splits)

text \<open>What a step does to the parsing frames and to the map.\<close>

lemma frame_step_count:
  assumes "frame_step env m f = Inr (m', gs)"
    and "\<And>n ds. f = Loading n ds \<Longrightarrow> m n = Some None" and "\<And>n. f = Waiting n \<Longrightarrow> m n \<noteq> None"
  shows "pending m' n + loads n f = pending m n + sum_list (map (loads n) gs)"
proof (cases f)
  case (Enter nm)
  with assms(1) show ?thesis by (auto simp: pending_def Let_def split: option.splits if_splits)
next
  case (Waiting w)
  with assms(1,3) show ?thesis by (auto simp: pending_def split: option.splits if_splits)
next
  case (Loading l ds)
  with assms(1,2) show ?thesis by (cases ds) (auto simp: pending_def)
qed

lemma frame_step_mono:
  assumes "frame_step env m f = Inr (m', gs)"
  shows "m n \<noteq> None \<Longrightarrow> m' n \<noteq> None"
    and "(\<And>l ds. f = Loading l ds \<Longrightarrow> m l = Some None) \<Longrightarrow> m n = Some (Some x) \<Longrightarrow> m' n = Some (Some x)"
    and "Waiting w \<in> set gs \<Longrightarrow> m' w \<noteq> None"
proof -
  show "m n \<noteq> None \<Longrightarrow> m' n \<noteq> None" and "Waiting w \<in> set gs \<Longrightarrow> m' w \<noteq> None"
    using assms by (cases "(env, m, f)" rule: frame_step.cases;
      force simp: Let_def split: option.splits if_splits)+
  show "(\<And>l ds. f = Loading l ds \<Longrightarrow> m l = Some None) \<Longrightarrow> m n = Some (Some x) \<Longrightarrow> m' n = Some (Some x)"
    using assms by (cases "(env, m, f)" rule: frame_step.cases)
      (force simp: Let_def split: option.splits if_splits)+
qed

text \<open>The two kinds of steps, as the proofs need them.\<close>

lemma load_step_cases [consumes 1, case_names finish pop frame]:
  assumes "load_step env s s'"
  obtains i where "i < length (ms_threads s)" "ms_threads s ! i = Running []" "ms_queue s = []"
      "s' = s\<lparr>ms_threads := (ms_threads s)[i := Finished]\<rparr>"
  | i nm q where "i < length (ms_threads s)" "ms_threads s ! i = Running []" "ms_queue s = nm # q"
      "s' = s\<lparr>ms_queue := q, ms_threads := (ms_threads s)[i := Running [Enter nm]]\<rparr>"
  | i f r m gs where "i < length (ms_threads s)" "ms_threads s ! i = Running (f # r)"
      "frame_step env (ms_map s) f = Inr (m, gs)"
      "s' = s\<lparr>ms_map := m, ms_threads := (ms_threads s)[i := Running (gs @ r)]\<rparr>"
  using assms by (cases rule: load_step.cases) (auto simp: thread_step_def split: list.splits)

lemma loading_update:
  assumes "i < length (ms_threads s)" "ms_threads s' = (ms_threads s)[i := t]"
  shows "loading n s' + frame_sum (loads n) (ms_threads s ! i) = loading n s + frame_sum (loads n) t"
  unfolding loading_def assms(2) by (rule total_update [OF assms(1)])

lemma frames_update:
  assumes "i < length (ms_threads s)" "ms_threads s' = (ms_threads s)[i := t]"
  shows "frames s' \<subseteq> frames s \<union> set (thread_frames t)"
  using set_update_subset_insert [of "ms_threads s" i t] by (auto simp: frames_def assms(2))

lemma map_ok_step:
  assumes "load_step env s s'" and "map_ok s"
  shows "map_ok s'"
  using assms(1)
proof (cases rule: load_step_cases)
  case (finish i)
  then have "frames s' \<subseteq> frames s" using frames_update [of i s s' Finished] by simp
  with finish assms(2) loading_update [of i s s' Finished] show ?thesis
    by (auto simp: map_ok_def frame_sum_def)
next
  case (pop i nm q)
  then have "frames s' \<subseteq> frames s \<union> {Enter nm}" using frames_update [of i s s' "Running [Enter nm]"] by simp
  with pop assms(2) loading_update [of i s s' "Running [Enter nm]"] show ?thesis
    by (auto simp: map_ok_def frame_sum_def)
next
  case (frame i f r m gs)
  have fs: "frames s' \<subseteq> frames s \<union> set gs \<union> set r"
    using frames_update [of i s s' "Running (gs @ r)"] frame by auto
  have f: "f \<in> frames s" "set r \<subseteq> frames s"
    using frame_in_frames [of i s] frame(1,2) by auto
  have c: "\<And>n ds. f = Loading n ds \<Longrightarrow> ms_map s n = Some None" "\<And>n. f = Waiting n \<Longrightarrow> ms_map s n \<noteq> None"
    using map_ok_loading [OF assms(2)] f(1) assms(2) unfolding map_ok_def by blast+
  have "pending m n + loads n f = pending (ms_map s) n + sum_list (map (loads n) gs)" for n
    by (rule frame_step_count [OF frame(3) c])
  then have "loading n s' = pending m n" for n
    using loading_update [of i s s' "Running (gs @ r)" n] frame assms(2)
    by (auto simp: map_ok_def frame_sum_def) (metis add.commute add_left_cancel add.assoc)
  moreover have "ms_map s' n \<noteq> None" if "Waiting n \<in> frames s'" for n
  proof -
    from that fs f(2) consider "Waiting n \<in> frames s" | "Waiting n \<in> set gs" by blast
    then have "m n \<noteq> None"
    proof cases
      case 1
      with assms(2) have "ms_map s n \<noteq> None" by (simp add: map_ok_def)
      then show ?thesis by (rule frame_step_mono(1) [OF frame(3)])
    next
      case 2
      then show ?thesis by (rule frame_step_mono(3) [OF frame(3)])
    qed
    with frame(4) show ?thesis by simp
  qed
  ultimately show ?thesis using frame(4) by (simp add: map_ok_def)
qed

lemma frames_start [simp]: "frames (load_start cpus names) = {}"
  by (auto simp: frames_def load_start_def)

lemma map_ok_start: "map_ok (load_start cpus names :: 'm modules)"
proof -
  let ?s = "load_start cpus names :: 'm modules"
  have "loading n ?s = 0" for n
    using loading_positive total_positive [of "frame_sum (loads n)" "replicate cpus (Running [])"]
    by (fastforce simp: loading_def load_start_def frame_sum_def)
  moreover have "ms_map ?s = Map.empty" by (simp add: load_start_def)
  ultimately show ?thesis by (simp add: map_ok_def pending_def)
qed

lemma map_ok_reachable: "load_reachable env cpus names s \<Longrightarrow> map_ok s"
  by (induction rule: load_reachable.induct) (auto intro: map_ok_start map_ok_step)

text \<open>C21: Whatever the interleaving of the threads, a module is parsed by at most one of them at a time,
  nobody parses a module that is already published, and a published loader is never replaced.\<close>

theorem module_parsed_once:
  assumes "load_reachable env cpus names s" and "load_step env s s'"
  shows "loading n s \<le> 1 \<and>
    (ms_map s n = Some (Some x) \<longrightarrow> loading n s = 0 \<and> ms_map s' n = Some (Some x))"
proof -
  have ok: "map_ok s" using assms(1) by (rule map_ok_reachable)
  have "ms_map s' n = Some (Some x)" if x: "ms_map s n = Some (Some x)"
    using assms(2)
  proof (cases rule: load_step_cases)
    case (frame i f r m gs)
    then have f: "f \<in> frames s" using frame_in_frames [of i s] by simp
    have "ms_map s l = Some None" if "f = Loading l ds" for l ds
      using map_ok_loading [OF ok] f that by blast
    from frame_step_mono(2) [OF frame(3) this x] frame(4) show ?thesis by simp
  qed (use x in simp_all)
  with ok show ?thesis by (auto simp: map_ok_def pending_def)
qed

section \<open>Waiting for oneself\<close>

text \<open>A dependency cycle makes a thread wait for a module that it is parsing itself. Such a wait never
  ends: however the other threads run, the thread keeps polling and the module is never published.\<close>

theorem self_wait_forever:
  assumes "load_reachable env cpus names s" and "(load_step env)\<^sup>*\<^sup>* s s'"
    and "i < length (ms_threads s)" and "ms_threads s ! i = Running (Waiting n # fs)"
    and "Loading n ds \<in> set fs"
  shows "ms_threads s' ! i = Running (Waiting n # fs) \<and> ms_map s' n = Some None"
proof -
  let ?P = "\<lambda>u. map_ok u \<and> i < length (ms_threads u) \<and> ms_threads u ! i = Running (Waiting n # fs)"
  have null: "ms_map u n = Some None" if "?P u" for u
    using that map_ok_loading [of u n ds] frame_in_frames [of i u] assms(5) by auto
  have keep: "?P u'" if u: "?P u" and st: "load_step env u u'" for u u'
  proof -
    have "ms_threads u' ! i = Running (Waiting n # fs) \<and> length (ms_threads u') = length (ms_threads u)"
      using st
    proof (cases rule: load_step_cases)
      case (finish j)
      with u show ?thesis by (cases "j = i") auto
    next
      case (pop j nm q)
      with u show ?thesis by (cases "j = i") auto
    next
      case (frame j f r m gs)
      with u null [OF u] show ?thesis by (cases "j = i") auto
    qed
    with u map_ok_step [OF st] show ?thesis by auto
  qed
  have "?P s" using map_ok_reachable [OF assms(1)] assms(3,4) by simp
  with assms(2) have "?P s'"
  proof (induction rule: rtranclp_induct)
    case (step u u')
    from keep [OF step(3) [OF step(4)] step(2)] show ?case .
  qed
  with null [OF this] show ?thesis by simp
qed

section \<open>Acyclic dependencies\<close>

definition needs :: "'m module_env \<Rightarrow> string \<Rightarrow> string \<Rightarrow> bool" where
  "needs env y x \<longleftrightarrow> (\<exists>l. dependencies env y = Some l \<and> x \<in> replace_dash ` set l)"

text \<open>Every module that may be asked for has a file that can be parsed.\<close>

definition loadable :: "'m module_env \<Rightarrow> string set \<Rightarrow> bool" where
  "loadable env U \<longleftrightarrow> finite U \<and>
     (\<forall>y \<in> U. (\<exists>l. dependencies env y = Some l \<and> replace_dash ` set l \<subseteq> U) \<and> (\<exists>x. build env y = Inr x))"

text \<open>A set of modules with everything they need.\<close>

definition closed_needs :: "'m module_env \<Rightarrow> string set \<Rightarrow> bool" where
  "closed_needs env U \<longleftrightarrow> (\<forall>y x. y \<in> U \<longrightarrow> needs env y x \<longrightarrow> x \<in> U)"

lemma loadable_closed: "loadable env U \<Longrightarrow> closed_needs env U"
  by (fastforce simp: loadable_def closed_needs_def needs_def)

fun frame_name :: "frame \<Rightarrow> string" where
  "frame_name (Enter nm) = replace_dash nm"
| "frame_name (Waiting n) = n"
| "frame_name (Loading n ds) = n"

fun frame_ok :: "'m module_env \<Rightarrow> frame \<Rightarrow> bool" where
  "frame_ok env (Loading n ds) \<longleftrightarrow> (\<exists>l. dependencies env n = Some l \<and> set ds \<subseteq> set l)"
| "frame_ok env f \<longleftrightarrow> True"

fun is_loading :: "frame \<Rightarrow> bool" where
  "is_loading (Loading n ds) \<longleftrightarrow> True"
| "is_loading f \<longleftrightarrow> False"

text \<open>Below the top of a stack modules are being parsed, each for the sake of the one below it.\<close>

fun stack_ok :: "'m module_env \<Rightarrow> frame list \<Rightarrow> bool" where
  "stack_ok env (f # g # r) \<longleftrightarrow>
     frame_ok env f \<and> is_loading g \<and> needs env (frame_name g) (frame_name f) \<and> stack_ok env (g # r)"
| "stack_ok env [f] \<longleftrightarrow> frame_ok env f"
| "stack_ok env [] \<longleftrightarrow> True"

lemma stack_ok_tail: "stack_ok env (f # r) \<Longrightarrow> stack_ok env r"
  by (cases r) auto

lemma stack_ok_top:
  "stack_ok env (f # r) \<Longrightarrow> frame_name f' = frame_name f \<Longrightarrow> frame_ok env f' \<Longrightarrow> stack_ok env (f' # r)"
  by (cases r) auto

lemma stack_ok_step:
  assumes "frame_step env m f = Inr (m', gs)" and "stack_ok env (f # r)"
  shows "stack_ok env (gs @ r)"
proof (cases "(env, m, f)" rule: frame_step.cases)
  case (1 e m1 nm)
  have top: "stack_ok env (f' # r)" if "frame_name f' = replace_dash nm" "frame_ok env f'" for f'
    using stack_ok_top [OF assms(2) _ that(2)] that(1) 1 by simp
  from 1 assms(1) have "gs = [] \<or> gs = [Waiting (replace_dash nm)] \<or>
      (\<exists>l. dependencies env (replace_dash nm) = Some l \<and> gs = [Loading (replace_dash nm) l])"
    by (auto simp: Let_def split: option.splits)
  with top stack_ok_tail [OF assms(2)] show ?thesis by auto
next
  case (2 e m1 n)
  then have "gs = [] \<or> gs = [f]" using assms(1) by (auto split: option.splits)
  with stack_ok_tail [OF assms(2)] assms(2) show ?thesis by auto
next
  case (3 e m1 n d ds)
  then obtain l where l: "dependencies env n = Some l" "set (d # ds) \<subseteq> set l"
    using assms(2) by (cases r) auto
  then have "stack_ok env (Loading n ds # r)" using 3 by (intro stack_ok_top [OF assms(2)]) auto
  moreover have "needs env n (replace_dash d)" using l by (auto simp: needs_def)
  ultimately show ?thesis using 3 assms(1) by auto
next
  case (4 e m1 n)
  with assms stack_ok_tail [OF assms(2)] show ?thesis by auto
qed

lemma stack_rank:
  assumes "stack_ok env (f # r)" and "Loading n ds \<in> set r"
    and rank: "\<And>y x. needs env y x \<Longrightarrow> rank x < (rank y :: nat)"
  shows "rank (frame_name f) < rank n"
  using assms(1,2)
proof (induction r arbitrary: f)
  case (Cons g r)
  then have g: "rank (frame_name f) < rank (frame_name g)" using rank by simp
  from Cons.prems(2) consider "g = Loading n ds" | "Loading n ds \<in> set r" by auto
  then show ?case
  proof cases
    case 1
    with g show ?thesis by simp
  next
    case 2
    with Cons.IH [of g] Cons.prems(1) g show ?thesis by simp
  qed
qed simp

text \<open>The invariant of the queue and the stacks; \<open>names\<close> is the list the threads started with.\<close>

definition work_ok :: "'m module_env \<Rightarrow> string set \<Rightarrow> string list \<Rightarrow> 'm modules \<Rightarrow> bool" where
  "work_ok env U names s \<longleftrightarrow>
     (\<forall>t \<in> set (ms_threads s). stack_ok env (thread_frames t)) \<and>
     (Finished \<in> set (ms_threads s) \<longrightarrow> ms_queue s = []) \<and>
     (\<forall>f \<in> frames s. frame_name f \<in> U) \<and> replace_dash ` set (ms_queue s) \<subseteq> U \<and>
     (\<forall>q \<in> set names. q \<in> set (ms_queue s) \<or> replace_dash q \<in> frame_name ` frames s \<or>
        ms_map s (replace_dash q) \<noteq> None)"

lemma frame_step_name:
  assumes "frame_step env m f = Inr (m', gs)"
  shows "frame_name f \<in> frame_name ` set gs \<or> m' (frame_name f) \<noteq> None"
    and "closed_needs env U \<Longrightarrow> frame_ok env f \<Longrightarrow> frame_name f \<in> U \<Longrightarrow> frame_name ` set gs \<subseteq> U"
proof -
  show "frame_name f \<in> frame_name ` set gs \<or> m' (frame_name f) \<noteq> None"
    using assms by (cases "(env, m, f)" rule: frame_step.cases) (auto simp: Let_def split: option.splits)
  show "frame_name ` set gs \<subseteq> U" if "closed_needs env U" "frame_ok env f" "frame_name f \<in> U"
  proof (cases "(env, m, f)" rule: frame_step.cases)
    case (3 e m1 n d ds)
    with that have "replace_dash d \<in> U" by (fastforce simp: closed_needs_def needs_def)
    moreover have "frame_name ` set gs = {replace_dash d, frame_name f}" using 3 assms by auto
    ultimately show ?thesis using that(3) by simp
  qed (use assms that in \<open>auto simp: Let_def split: option.splits\<close>)
qed

lemma frames_replaced:
  assumes "i < length (ms_threads s)" "ms_threads s ! i = Running (f # r)"
    "ms_threads s' = (ms_threads s)[i := Running (gs @ r)]"
  shows "frames s - {f} \<union> set gs \<subseteq> frames s'"
proof
  fix g assume g: "g \<in> frames s - {f} \<union> set gs"
  have new: "set (gs @ r) \<subseteq> frames s'"
    using assms(1,3) by (auto simp: frames_def set_update_memI intro!: bexI [of _ "Running (gs @ r)"])
  show "g \<in> frames s'"
  proof (cases "g \<in> set (gs @ r)")
    case True
    with new show ?thesis by blast
  next
    case False
    with g obtain j where j: "j < length (ms_threads s)" "g \<in> set (thread_frames (ms_threads s ! j))" "g \<noteq> f"
      using frames_iff [of g s] by auto
    with False assms(2) have "j \<noteq> i" by auto
    with j assms(3) have "j < length (ms_threads s')" "g \<in> set (thread_frames (ms_threads s' ! j))" by simp_all
    then show ?thesis by (rule frame_in_frames)
  qed
qed

lemma frames_kept:
  assumes "i < length (ms_threads s)" "ms_threads s ! i = Running []" "ms_threads s' = (ms_threads s)[i := t]"
  shows "frames s \<union> set (thread_frames t) \<subseteq> frames s'"
proof
  fix g assume "g \<in> frames s \<union> set (thread_frames t)"
  then consider "g \<in> set (thread_frames t)"
    | j where "j < length (ms_threads s)" "g \<in> set (thread_frames (ms_threads s ! j))"
    unfolding frames_iff Un_iff by auto
  then show "g \<in> frames s'"
  proof cases
    case 1
    with assms show ?thesis using frame_in_frames [of i s' g] by simp
  next
    case (2 j)
    with assms(2) have "j \<noteq> i" by auto
    with 2 assms(3) show ?thesis using frame_in_frames [of j s' g] by simp
  qed
qed

lemma work_ok_finish:
  assumes "i < length (ms_threads s)" "ms_threads s ! i = Running []" "ms_queue s = []"
    "s' = s\<lparr>ms_threads := (ms_threads s)[i := Finished]\<rparr>" and "work_ok env U names s"
  shows "work_ok env U names s'"
proof -
  have "frames s' = frames s"
    using frames_update [of i s s' Finished] frames_kept [of i s s' Finished] assms by auto
  then show ?thesis using assms set_update_subset_insert [of "ms_threads s" i Finished]
    by (auto simp: work_ok_def subset_iff)
qed

lemma work_ok_pop:
  assumes "i < length (ms_threads s)" "ms_threads s ! i = Running []" "ms_queue s = nm # q"
    "s' = s\<lparr>ms_queue := q, ms_threads := (ms_threads s)[i := Running [Enter nm]]\<rparr>" and ok: "work_ok env U names s"
  shows "work_ok env U names s'"
proof -
  let ?t = "Running [Enter nm]"
  have fr: "frames s' = frames s \<union> {Enter nm}"
    using frames_update [of i s s' ?t] frames_kept [of i s s' ?t] assms by auto
  have sub: "set (ms_threads s') \<subseteq> insert ?t (set (ms_threads s))"
    using assms(4) set_update_subset_insert [of "ms_threads s" i ?t] by simp
  have "Finished \<notin> set (ms_threads s')" "\<forall>t \<in> set (ms_threads s'). stack_ok env (thread_frames t)"
    "(\<forall>f \<in> frames s'. frame_name f \<in> U) \<and> replace_dash ` set (ms_queue s') \<subseteq> U"
    using ok sub assms(3,4) fr by (auto simp: work_ok_def)
  moreover have "x \<in> set (ms_queue s') \<or> replace_dash x \<in> frame_name ` frames s' \<or> ms_map s' (replace_dash x) \<noteq> None"
    if x: "x \<in> set names" for x
  proof -
    from ok x assms(3) consider "x \<in> set q" | "x = nm" | "replace_dash x \<in> frame_name ` frames s"
      | "ms_map s (replace_dash x) \<noteq> None" unfolding work_ok_def by fastforce
    then show ?thesis by cases (use fr assms(4) in auto)
  qed
  ultimately show ?thesis unfolding work_ok_def by blast
qed

lemma frame_step_names_kept:
  assumes "frame_step env (ms_map s) f = Inr (ms_map s', gs)" and "frames s - {f} \<union> set gs \<subseteq> frames s'"
    and "n \<in> frame_name ` frames s \<or> ms_map s n \<noteq> None"
  shows "n \<in> frame_name ` frames s' \<or> ms_map s' n \<noteq> None"
proof -
  from assms(3) consider "n = frame_name f" | g where "g \<in> frames s" "n = frame_name g" "g \<noteq> f" | "ms_map s n \<noteq> None"
    by blast
  then show ?thesis
  proof cases
    case 1
    with frame_step_name(1) [OF assms(1)] assms(2) show ?thesis by auto
  next
    case (2 g)
    with assms(2) show ?thesis by blast
  next
    case 3
    from frame_step_mono(1) [OF assms(1) 3] show ?thesis ..
  qed
qed

lemma work_ok_frame:
  assumes frame: "i < length (ms_threads s)" "ms_threads s ! i = Running (f # r)"
      "frame_step env (ms_map s) f = Inr (m, gs)"
      "s' = s\<lparr>ms_map := m, ms_threads := (ms_threads s)[i := Running (gs @ r)]\<rparr>"
    and ok: "work_ok env U names s" and load: "closed_needs env U"
  shows "work_ok env U names s'"
proof -
  let ?t = "Running (gs @ r)"
  have "Running (f # r) \<in> set (ms_threads s)" using frame(1,2) nth_mem by metis
  with ok have so: "stack_ok env (f # r)" by (auto simp: work_ok_def)
  then have fo: "frame_ok env f" by (cases r) auto
  have fU: "frame_name f \<in> U" using ok frame_in_frames [of i s f] frame(1,2) by (simp add: work_ok_def)
  have sub: "set (ms_threads s') \<subseteq> insert ?t (set (ms_threads s))"
    using frame(4) set_update_subset_insert [of "ms_threads s" i ?t] by simp
  have fr: "frames s' \<subseteq> frames s \<union> set gs"
    using frames_update [of i s s' ?t] frame frame_in_frames [of i s] by auto
  have fr': "frames s - {f} \<union> set gs \<subseteq> frames s'" by (rule frames_replaced [OF frame(1,2)]) (simp add: frame(4))
  have "\<forall>t \<in> set (ms_threads s'). stack_ok env (thread_frames t)"
    using sub ok stack_ok_step [OF frame(3) so] by (auto simp: work_ok_def)
  moreover have "\<forall>g \<in> frames s'. frame_name g \<in> U"
  proof -
    have "\<forall>g \<in> frames s. frame_name g \<in> U" using ok by (simp add: work_ok_def)
    with fr frame_step_name(2) [OF frame(3) load fo fU] show ?thesis by blast
  qed
  moreover have "replace_dash ` set (ms_queue s') \<subseteq> U" using ok frame(4) by (simp add: work_ok_def)
  moreover have "Finished \<in> set (ms_threads s') \<longrightarrow> ms_queue s' = []"
    using sub ok frame(4) by (auto simp: work_ok_def)
  moreover have "x \<in> set (ms_queue s') \<or> replace_dash x \<in> frame_name ` frames s' \<or> ms_map s' (replace_dash x) \<noteq> None"
    if "x \<in> set names" for x
    using ok that frame_step_names_kept [OF _ fr', of env "replace_dash x"] frame(3,4) by (auto simp: work_ok_def)
  ultimately show ?thesis unfolding work_ok_def by blast
qed

lemma work_ok_step:
  "load_step env s s' \<Longrightarrow> work_ok env U names s \<Longrightarrow> closed_needs env U \<Longrightarrow> work_ok env U names s'"
  by (erule load_step_cases) (blast intro: work_ok_finish work_ok_pop work_ok_frame)+

lemma work_ok_start:
  "replace_dash ` set names \<subseteq> U \<Longrightarrow> work_ok env U names (load_start cpus names)"
  by (auto simp: work_ok_def) (auto simp: load_start_def)

lemma work_ok_reachable:
  "load_reachable env cpus names s \<Longrightarrow> closed_needs env U \<Longrightarrow> replace_dash ` set names \<subseteq> U \<Longrightarrow>
     work_ok env U names s"
  by (induction rule: load_reachable.induct) (auto intro: work_ok_start work_ok_step)

section \<open>Every module gets loaded\<close>

text \<open>The work left: for modules not yet in the map, frames, queue entries and running threads.\<close>

fun frame_work :: "frame \<Rightarrow> nat" where
  "frame_work (Enter nm) = 2"
| "frame_work (Waiting n) = 1"
| "frame_work (Loading n ds) = Suc (3 * length ds)"

definition module_work :: "'m module_env \<Rightarrow> string \<Rightarrow> nat" where
  "module_work env n = Suc (3 * length (the (dependencies env n)))"

definition map_work :: "'m module_env \<Rightarrow> string set \<Rightarrow> (string \<rightharpoonup> 'm option) \<Rightarrow> nat" where
  "map_work env U m = (\<Sum>n \<in> U. if m n = None then module_work env n else 0)"

definition thread_work :: "thread \<Rightarrow> nat" where
  "thread_work t = (case t of Finished \<Rightarrow> 0 | Running fs \<Rightarrow> Suc (sum_list (map frame_work fs)))"

definition work_left :: "'m module_env \<Rightarrow> string set \<Rightarrow> 'm modules \<Rightarrow> nat" where
  "work_left env U s =
     map_work env U (ms_map s) + total thread_work (ms_threads s) + 3 * length (ms_queue s)"

lemma map_work_known: "m n \<noteq> None \<Longrightarrow> map_work env U (m(n \<mapsto> v)) = map_work env U m"
  unfolding map_work_def by (rule sum.cong) auto

lemma map_work_new:
  assumes "finite U" and "n \<in> U" and "m n = None"
  shows "map_work env U (m(n \<mapsto> v)) + module_work env n = map_work env U m"
proof -
  have "(\<Sum>x \<in> U - {n}. if (m(n \<mapsto> v)) x = None then module_work env x else 0)
      = (\<Sum>x \<in> U - {n}. if m x = None then module_work env x else 0)"
    by (rule sum.cong) auto
  with assms show ?thesis unfolding map_work_def by (simp add: sum.remove [of U n])
qed

definition blocked :: "(string \<rightharpoonup> 'm option) \<Rightarrow> frame \<Rightarrow> bool" where
  "blocked m f \<longleftrightarrow> (\<exists>n. f = Waiting n \<and> m n = Some None)"

text \<open>A frame that is not blocked can step, and its step leaves less work.\<close>

lemma frame_step_work:
  assumes "loadable env U" and "frame_name f \<in> U" and "\<not> blocked m f"
    and "\<And>n ds. f = Loading n ds \<Longrightarrow> m n = Some None" and "\<And>n. f = Waiting n \<Longrightarrow> m n \<noteq> None"
  shows "\<exists>m' gs. frame_step env m f = Inr (m', gs) \<and>
    map_work env U m' + sum_list (map frame_work gs) < map_work env U m + frame_work f"
proof (cases "(env, m, f)" rule: frame_step.cases)
  case (1 e m1 nm)
  let ?n = "replace_dash nm"
  from 1 assms(2) have n: "?n \<in> U" by simp
  with assms(1) obtain l where l: "dependencies env ?n = Some l" by (auto simp: loadable_def)
  show ?thesis
  proof (cases "m ?n")
    case None
    with map_work_new [of U ?n m env None] assms(1) n l 1 show ?thesis
      by (simp add: Let_def loadable_def module_work_def)
  next
    case (Some x)
    with 1 show ?thesis by (cases x) (simp_all add: Let_def)
  qed
next
  case (2 e m1 n)
  with assms(3,5) obtain x where "m n = Some (Some x)" by (auto simp: blocked_def)
  with 2 show ?thesis by simp
next
  case (3 e m1 n d ds)
  then show ?thesis by simp
next
  case (4 e m1 n)
  with assms(1,2) obtain x where "build env n = Inr x" by (auto simp: loadable_def)
  with 4 assms(4) map_work_known [of m n env U "Some x"] show ?thesis by simp
qed

lemma thread_progress:
  assumes "map_ok s" and "work_ok env U names s" and "loadable env U"
    and "i < length (ms_threads s)" and "ms_threads s ! i = Running fs"
    and "\<And>f r. fs = f # r \<Longrightarrow> \<not> blocked (ms_map s) f"
  shows "\<exists>s'. load_step env s s' \<and> work_left env U s' < work_left env U s"
proof -
  have upd: "total thread_work ((ms_threads s)[i := t]) + thread_work (Running fs)
      = total thread_work (ms_threads s) + thread_work t" for t
    using total_update [OF assms(4), of thread_work t] assms(5) by simp
  show ?thesis
  proof (cases fs)
    case Nil
    show ?thesis
    proof (cases "ms_queue s")
      case Nil': Nil
      have "load_step env s (s\<lparr>ms_threads := (ms_threads s)[i := Finished]\<rparr>)"
        by (rule load_step_thread [OF assms(4,5)]) (simp add: thread_step_def Nil Nil')
      moreover have "work_left env U (s\<lparr>ms_threads := (ms_threads s)[i := Finished]\<rparr>) < work_left env U s"
        using upd [of Finished] Nil by (simp add: work_left_def thread_work_def)
      ultimately show ?thesis by blast
    next
      case (Cons nm q)
      let ?s = "s\<lparr>ms_queue := q, ms_threads := (ms_threads s)[i := Running [Enter nm]]\<rparr>"
      have "load_step env s (s\<lparr>ms_queue := q\<rparr>\<lparr>ms_threads := (ms_threads s)[i := Running [Enter nm]]\<rparr>)"
        by (rule load_step_thread [OF assms(4,5)]) (simp add: thread_step_def Nil Cons)
      moreover have "work_left env U ?s < work_left env U s"
        using upd [of "Running [Enter nm]"] Nil Cons by (simp add: work_left_def thread_work_def)
      ultimately show ?thesis by auto
    qed
  next
    case (Cons f r)
    have f: "f \<in> frames s" using frame_in_frames [OF assms(4)] assms(5) Cons by simp
    with assms(2) have U: "frame_name f \<in> U" by (simp add: work_ok_def)
    have l: "\<And>n ds. f = Loading n ds \<Longrightarrow> ms_map s n = Some None" "\<And>n. f = Waiting n \<Longrightarrow> ms_map s n \<noteq> None"
      using map_ok_loading [OF assms(1)] assms(1) f unfolding map_ok_def by blast+
    have "\<exists>m gs. frame_step env (ms_map s) f = Inr (m, gs) \<and>
        map_work env U m + sum_list (map frame_work gs) < map_work env U (ms_map s) + frame_work f"
      by (rule frame_step_work [OF assms(3) U assms(6) [OF Cons]]) (use l in blast)+
    then obtain m gs where st: "frame_step env (ms_map s) f = Inr (m, gs)"
      and w: "map_work env U m + sum_list (map frame_work gs) < map_work env U (ms_map s) + frame_work f"
      by blast
    let ?s = "s\<lparr>ms_map := m\<rparr>\<lparr>ms_threads := (ms_threads s)[i := Running (gs @ r)]\<rparr>"
    have "load_step env s ?s"
      by (rule load_step_thread [OF assms(4,5)]) (simp add: thread_step_def Cons st)
    moreover have "work_left env U ?s < work_left env U s"
      using upd [of "Running (gs @ r)"] w Cons by (simp add: work_left_def thread_work_def)
    ultimately show ?thesis by blast
  qed
qed

lemma load_progress:
  assumes ok: "map_ok s" "work_ok env U names s" "loadable env U"
    and rank: "\<forall>y x. needs env y x \<longrightarrow> rank x < (rank y :: nat)"
    and run: "Running fs \<in> set (ms_threads s)"
  shows "\<exists>s'. load_step env s s' \<and> work_left env U s' < work_left env U s"
proof (rule ccontr)
  assume stuck: "\<not> ?thesis"
  have top: "\<exists>n r. fs = Waiting n # r \<and> ms_map s n = Some None" if "Running fs \<in> set (ms_threads s)" for fs
  proof -
    from that obtain i where i: "i < length (ms_threads s)" "ms_threads s ! i = Running fs"
      by (auto simp: in_set_conv_nth)
    with thread_progress [OF ok i] stuck obtain f r where "fs = f # r" "blocked (ms_map s) f" by blast
    then show ?thesis by (auto simp: blocked_def)
  qed
  have desc: "\<exists>n' r. Running (Waiting n' # r) \<in> set (ms_threads s) \<and> ms_map s n' = Some None \<and> rank n' < rank n"
    if "ms_map s n = Some None" for n
  proof -
    from that ok(1) have "0 < loading n s" by (simp add: map_ok_def pending_def)
    then obtain t where t: "t \<in> set (ms_threads s)" "0 < frame_sum (loads n) t"
      using total_positive unfolding loading_def by blast
    then obtain fs where fs: "t = Running fs"
      by (cases t rule: thread.exhaust) (auto simp: frame_sum_def)
    with t top obtain n' r where r: "fs = Waiting n' # r" "ms_map s n' = Some None" by blast
    have "0 < sum_list (map (loads n) r)" using t(2) fs r(1) by (simp add: frame_sum_def)
    then obtain g where "g \<in> set r" "0 < loads n g"
      using total_positive [of "\<lambda>_. 0"] by (induction r) (auto split: if_splits)
    then obtain ds where "Loading n ds \<in> set r"
      by (cases g rule: frame.exhaust) (auto split: if_splits)
    moreover have "stack_ok env (Waiting n' # r)" using ok(2) t(1) fs r(1) by (auto simp: work_ok_def)
    ultimately have "rank n' < rank n" using stack_rank [of env "Waiting n'" r n ds rank] rank by simp
    with t(1) fs r show ?thesis by blast
  qed
  have "\<not> ms_map s n = Some None" for n
  proof (induction "rank n" arbitrary: n rule: less_induct)
    case less
    with desc show ?case by blast
  qed
  with top [OF run] show False by blast
qed

lemma load_finishes:
  assumes "map_ok s" "work_ok env U names s" "loadable env U"
    and "\<forall>y x. needs env y x \<longrightarrow> rank x < (rank y :: nat)"
  shows "\<exists>s'. (load_step env)\<^sup>*\<^sup>* s s' \<and> set (ms_threads s') \<subseteq> {Finished} \<and>
    length (ms_threads s') = length (ms_threads s) \<and> map_ok s' \<and> work_ok env U names s'"
  using assms(1,2)
proof (induction "work_left env U s" arbitrary: s rule: less_induct)
  case less
  show ?case
  proof (cases "set (ms_threads s) \<subseteq> {Finished}")
    case True
    with less.prems show ?thesis by blast
  next
    case False
    then obtain t where "t \<in> set (ms_threads s)" "t \<noteq> Finished" by blast
    then obtain fs where "Running fs \<in> set (ms_threads s)" by (cases t rule: thread.exhaust) auto
    from load_progress [OF less.prems assms(3,4) this] obtain s1 where
      st: "load_step env s s1" and w: "work_left env U s1 < work_left env U s" by blast
    have len: "length (ms_threads s1) = length (ms_threads s)"
      using st by (cases rule: load_step_cases) simp_all
    from less.hyps [OF w map_ok_step [OF st less.prems(1)] work_ok_step [OF st less.prems(2) loadable_closed [OF assms(3)]]] len
    show ?thesis using converse_rtranclp_into_rtranclp [of "load_step env", OF st] by metis
  qed
qed

lemma threads_reachable: "load_reachable env cpus names s \<Longrightarrow> length (ms_threads s) = cpus"
proof (induction rule: load_reachable.induct)
  case (load_reachable_step s s')
  from this(2,3) show ?case by (cases rule: load_step_cases) simp_all
qed (simp add: load_start_def)

lemma no_null:
  assumes "map_ok s" and "set (ms_threads s) \<subseteq> {Finished}"
  shows "ms_map s n \<noteq> Some None"
proof
  assume "ms_map s n = Some None"
  with assms(1) have "0 < loading n s" by (simp add: map_ok_def pending_def)
  then obtain t where "t \<in> set (ms_threads s)" "0 < frame_sum (loads n) t"
    using total_positive unfolding loading_def by blast
  with assms(2) show False by (auto simp: frame_sum_def dest!: subsetD)
qed

text \<open>C20: When no module depends on itself through others and every file needed is there and can be
  parsed, no interleaving leads into a deadlock: from every state that is reached the threads can
  finish, and then every module on the list is in the map with its loader and no entry is null.\<close>

theorem all_modules_loadable:
  assumes "load_reachable env cpus names s" and "0 < cpus"
    and "loadable env U" and "replace_dash ` set names \<subseteq> U"
    and "\<forall>y x. needs env y x \<longrightarrow> rank x < (rank y :: nat)"
  shows "\<exists>s'. (load_step env)\<^sup>*\<^sup>* s s' \<and> set (ms_threads s') \<subseteq> {Finished} \<and> all_loaded s' \<and>
    (\<forall>q \<in> set names. \<exists>x. ms_map s' (replace_dash q) = Some (Some x))"
proof -
  have "length (ms_threads s) = cpus" using assms(1) by (rule threads_reachable)
  moreover from load_finishes [OF map_ok_reachable [OF assms(1)] work_ok_reachable [OF assms(1) loadable_closed [OF assms(3)] assms(4)] assms(3,5)]
  obtain s' where s': "(load_step env)\<^sup>*\<^sup>* s s'" "set (ms_threads s') \<subseteq> {Finished}"
    "length (ms_threads s') = length (ms_threads s)" "map_ok s'" "work_ok env U names s'" by metis
  ultimately have "ms_threads s' \<noteq> []" using assms(2) by auto
  then have "Finished \<in> set (ms_threads s')" using s'(2) by (cases "ms_threads s'") auto
  with s'(5) have q: "ms_queue s' = []" by (simp add: work_ok_def)
  have no: "frames s' = {}" using s'(2) by (auto simp: frames_def dest!: subsetD)
  have loaded: "all_loaded s'" using no_null [OF s'(4,2)] by (simp add: all_loaded_def)
  moreover have "\<exists>x. ms_map s' (replace_dash q) = Some (Some x)" if "q \<in> set names" for q
  proof -
    from s'(5) that q no obtain v where "ms_map s' (replace_dash q) = Some v" by (auto simp: work_ok_def)
    with loaded show ?thesis by (cases v) (auto simp: all_loaded_def)
  qed
  ultimately show ?thesis using s'(1,2) by blast
qed

section \<open>What is loaded\<close>

text \<open>The modules asked for: those on the list and, again and again, what these depend on.\<close>

inductive wanted :: "'m module_env \<Rightarrow> string list \<Rightarrow> string \<Rightarrow> bool"
  for env :: "'m module_env" and names :: "string list" where
  wanted_name: "q \<in> set names \<Longrightarrow> wanted env names (replace_dash q)"
| wanted_needed: "wanted env names y \<Longrightarrow> needs env y x \<Longrightarrow> wanted env names x"

lemma frame_step_built:
  assumes "frame_step env m f = Inr (m', gs)" and "\<forall>n x. m n = Some (Some x) \<longrightarrow> build env n = Inr x"
  shows "\<forall>n x. m' n = Some (Some x) \<longrightarrow> build env n = Inr x"
  using assms by (cases "(env, m, f)" rule: frame_step.cases) (auto simp: Let_def bindE_def split: option.splits sum.splits if_splits)

lemma built_reachable:
  assumes "load_reachable env cpus names s"
  shows "\<forall>n x. ms_map s n = Some (Some x) \<longrightarrow> build env n = Inr x"
  using assms
proof (induction rule: load_reachable.induct)
  case load_reachable_start
  then show ?case by (simp add: load_start_def)
next
  case (load_reachable_step s s')
  from load_reachable_step(2) show ?case
  proof (cases rule: load_step_cases)
    case (frame i f r m gs)
    with frame_step_built [OF frame(3) load_reachable_step(3)] show ?thesis by simp
  qed (use load_reachable_step(3) in auto)
qed

text \<open>Only what is wanted gets an entry.\<close>

lemma frame_step_entries:
  "frame_step env m f = Inr (m', gs) \<Longrightarrow> m' n \<noteq> None \<Longrightarrow> m n \<noteq> None \<or> n = frame_name f"
  by (cases "(env, m, f)" rule: frame_step.cases) (auto simp: Let_def split: option.splits if_splits)

lemma entries_reachable:
  assumes "load_reachable env cpus names s" and "closed_needs env U" and "replace_dash ` set names \<subseteq> U"
  shows "\<forall>n. ms_map s n \<noteq> None \<longrightarrow> n \<in> U"
  using assms(1)
proof (induction rule: load_reachable.induct)
  case load_reachable_start
  then show ?case by (simp add: load_start_def)
next
  case (load_reachable_step s s')
  from load_reachable_step(2) show ?case
  proof (cases rule: load_step_cases)
    case (frame i f r m gs)
    have "f \<in> frames s" using frame_in_frames [OF frame(1)] frame(2) by simp
    with work_ok_reachable [OF load_reachable_step(1) assms(2,3)] have "frame_name f \<in> U"
      by (simp add: work_ok_def)
    with frame_step_entries [OF frame(3)] frame(4) load_reachable_step(3) show ?thesis by auto
  qed (use load_reachable_step(3) in auto)
qed

text \<open>
  Whatever a module depends on has an entry when the module is published. While it is parsed, a
  dependency is still to come, has an entry, or is what the frame above, \<open>a\<close>, is about.
\<close>

definition entered :: "'m module_env \<Rightarrow> (string \<rightharpoonup> 'm option) \<Rightarrow> string \<Rightarrow> string list \<Rightarrow> string option \<Rightarrow> bool" where
  "entered env m n ds a \<longleftrightarrow> (\<exists>l. dependencies env n = Some l \<and>
     (\<forall>d \<in> set l. d \<in> set ds \<or> m (replace_dash d) \<noteq> None \<or> a = Some (replace_dash d)))"

fun stack_entered :: "'m module_env \<Rightarrow> (string \<rightharpoonup> 'm option) \<Rightarrow> string option \<Rightarrow> frame list \<Rightarrow> bool" where
  "stack_entered env m a (Loading n ds # r) \<longleftrightarrow> entered env m n ds a \<and> stack_entered env m (Some n) r"
| "stack_entered env m a (f # r) \<longleftrightarrow> stack_entered env m (Some (frame_name f)) r"
| "stack_entered env m a [] \<longleftrightarrow> True"

lemma entered_mono:
  "entered env m n ds a \<Longrightarrow> (\<And>x. m x \<noteq> None \<Longrightarrow> m' x \<noteq> None) \<Longrightarrow>
   (\<And>x. a = Some x \<Longrightarrow> m' x \<noteq> None \<or> b = Some x) \<Longrightarrow> entered env m' n ds b"
  unfolding entered_def by metis

lemma stack_entered_mono:
  assumes "stack_entered env m a r" and "\<And>x. m x \<noteq> None \<Longrightarrow> m' x \<noteq> None"
    and "\<And>x. a = Some x \<Longrightarrow> m' x \<noteq> None \<or> b = Some x"
  shows "stack_entered env m' b r"
  using assms
proof (induction env m a r arbitrary: b rule: stack_entered.induct)
  case (1 env m a n ds r)
  from 1(2) have "stack_entered env m' (Some n) r" by (intro 1(1) 1(3)) simp_all
  moreover from 1(2) have "entered env m n ds a" by simp
  from entered_mono [OF this 1(3,4)] have "entered env m' n ds b" by blast
  ultimately show ?case by simp
qed (auto intro: entered_mono)

definition map_entered :: "'m module_env \<Rightarrow> (string \<rightharpoonup> 'm option) \<Rightarrow> bool" where
  "map_entered env m \<longleftrightarrow> (\<forall>n x. m n = Some (Some x) \<longrightarrow> entered env m n [] None)"

lemma map_entered_mono:
  assumes "map_entered env m" and "\<And>x. m x \<noteq> None \<Longrightarrow> m' x \<noteq> None"
    and "\<And>n x. m' n = Some (Some x) \<Longrightarrow> m n = Some (Some x) \<or> entered env m n [] None"
  shows "map_entered env m'"
  unfolding map_entered_def
proof (intro allI impI)
  fix n x assume "m' n = Some (Some x)"
  with assms(1,3) have "entered env m n [] None" unfolding map_entered_def by blast
  then show "entered env m' n [] None" by (rule entered_mono) (use assms(2) in auto)
qed

lemma frame_step_entered:
  assumes "frame_step env m f = Inr (m', gs)" and "stack_entered env m None (f # r)" and "map_entered env m"
  shows "stack_entered env m' None (gs @ r) \<and> map_entered env m'"
proof (cases "(env, m, f)" rule: frame_step.cases)
  case (1 e m1 nm)
  let ?n = "replace_dash nm"
  have r: "stack_entered env m (Some ?n) r" using assms(2) 1 by simp
  show ?thesis
  proof (cases "m ?n")
    case None
    with assms(1) 1 obtain ds where d: "dependencies env ?n = Some ds" "m' = m(?n \<mapsto> None)" "gs = [Loading ?n ds]"
      by (auto simp: Let_def split: option.splits)
    then have "stack_entered env m' (Some ?n) r" using r by (auto intro: stack_entered_mono)
    moreover have "entered env m' ?n ds None" using d(1) by (simp add: entered_def)
    moreover have "map_entered env m'"
      by (rule map_entered_mono [OF assms(3)]) (use d(2) None in \<open>auto split: if_splits\<close>)
    ultimately show ?thesis using d by simp
  next
    case (Some v)
    with r have "stack_entered env m None r" by (auto intro: stack_entered_mono)
    with Some r assms(1,3) 1 show ?thesis by (cases v) (auto simp: Let_def)
  qed
next
  case (2 e m1 n)
  have r: "stack_entered env m (Some n) r" using assms(2) 2 by simp
  show ?thesis
  proof (cases "\<exists>x. m n = Some (Some x)")
    case True
    then have "stack_entered env m None r" using r by (auto intro: stack_entered_mono)
    with True assms(1,3) 2 show ?thesis by auto
  next
    case False
    with assms(1) 2 have m': "m' = m(n \<mapsto> None)" "gs = [Waiting n]" by (auto split: option.splits)
    then have "stack_entered env m' (Some n) r" using r by (auto intro: stack_entered_mono)
    moreover have "map_entered env m'"
      by (rule map_entered_mono [OF assms(3)]) (use m'(1) in \<open>auto split: if_splits\<close>)
    ultimately show ?thesis using m' by simp
  qed
next
  case (3 e m1 n d ds)
  with assms show ?thesis by (auto simp: entered_def)
next
  case (4 e m1 n)
  with assms(1) obtain x where x: "build env n = Inr x" "m' = m(n \<mapsto> Some x)" "gs = []"
    by (auto simp: bindE_Inr_iff)
  have e: "entered env m n [] None" "stack_entered env m (Some n) r" using assms(2) 4 by simp_all
  from e(2) x have "stack_entered env m' None r" by (auto intro: stack_entered_mono)
  moreover have "map_entered env m'"
    by (rule map_entered_mono [OF assms(3)]) (use x(2) e(1) in \<open>auto split: if_splits\<close>)
  ultimately show ?thesis using x by simp
qed

lemma entered_reachable:
  assumes "load_reachable env cpus names s"
  shows "(\<forall>t \<in> set (ms_threads s). stack_entered env (ms_map s) None (thread_frames t)) \<and> map_entered env (ms_map s)"
  using assms
proof (induction rule: load_reachable.induct)
  case load_reachable_start
  then show ?case by (auto simp: load_start_def map_entered_def)
next
  case (load_reachable_step s s')
  note IH = load_reachable_step(3)
  from load_reachable_step(2) show ?case
  proof (cases rule: load_step_cases)
    case (finish i)
    with IH set_update_subset_insert [of "ms_threads s" i Finished] show ?thesis by auto
  next
    case (pop i nm q)
    with IH set_update_subset_insert [of "ms_threads s" i "Running [Enter nm]"] show ?thesis by auto
  next
    case (frame i f r m gs)
    have t: "Running (f # r) \<in> set (ms_threads s)" using frame(1,2) nth_mem by metis
    with IH have "stack_entered env (ms_map s) None (f # r)" by fastforce
    from frame_step_entered [OF frame(3) this] IH
    have top: "stack_entered env m None (gs @ r)" "map_entered env m" by simp_all
    have old: "stack_entered env m None (thread_frames t)" if t: "t \<in> set (ms_threads s)" for t
    proof (rule stack_entered_mono)
      show "stack_entered env (ms_map s) None (thread_frames t)" using IH t by blast
      show "m x \<noteq> None" if "ms_map s x \<noteq> None" for x
        by (rule frame_step_mono(1) [OF frame(3) that])
    qed simp
    have "stack_entered env m None (thread_frames t)" if "t \<in> set (ms_threads s')" for t
    proof -
      from that frame(4) set_update_subset_insert [of "ms_threads s" i "Running (gs @ r)"]
      have "t = Running (gs @ r) \<or> t \<in> set (ms_threads s)" by auto
      with old top(1) show ?thesis by auto
    qed
    with top(2) frame(4) show ?thesis by simp
  qed
qed

lemma wanted_closed: "closed_needs env {n. wanted env names n}"
  unfolding closed_needs_def by (auto intro: wanted_needed)

lemma wanted_names: "replace_dash ` set names \<subseteq> {n. wanted env names n}"
  by (auto intro: wanted_name)

text \<open>C22: When all threads have ended the module map holds the modules asked for and what they depend on,
  directly or through others, each with the image built for it, and nothing else: neither the number of
  threads nor their interleaving nor the order of the list has an influence.\<close>

theorem loaded_modules_exact:
  assumes "load_reachable env cpus names s" and "0 < cpus" and "set (ms_threads s) \<subseteq> {Finished}"
  shows "(ms_map s n = None \<longleftrightarrow> \<not> wanted env names n) \<and> ms_map s n \<noteq> Some None \<and>
    (ms_map s n = Some (Some x) \<longleftrightarrow> wanted env names n \<and> build env n = Inr x)"
proof -
  have ok: "map_ok s" and work: "work_ok env {n. wanted env names n} names s"
    using map_ok_reachable [OF assms(1)] work_ok_reachable [OF assms(1) wanted_closed wanted_names] by simp_all
  have no: "frames s = {}" using assms(3) by (auto simp: frames_def dest!: subsetD)
  have "length (ms_threads s) = cpus" using assms(1) by (rule threads_reachable)
  with assms(2,3) have "Finished \<in> set (ms_threads s)" by (cases "ms_threads s") auto
  with work have q: "ms_queue s = []" by (simp add: work_ok_def)
  have none: "ms_map s n \<noteq> Some None" for n by (rule no_null [OF ok assms(3)])
  have entry: "ms_map s n \<noteq> None" if "wanted env names n" for n
    using that
  proof (induction rule: wanted.induct)
    case (wanted_name q')
    with work q no show ?case by (auto simp: work_ok_def)
  next
    case (wanted_needed y x)
    from wanted_needed(3) none [of y] obtain v where "ms_map s y = Some (Some v)" by (cases "ms_map s y") auto
    with entered_reachable [OF assms(1)] have "entered env (ms_map s) y [] None" by (auto simp: map_entered_def)
    with wanted_needed(2) show ?case by (auto simp: entered_def needs_def)
  qed
  have only: "wanted env names n" if "ms_map s n \<noteq> None" for n
    using entries_reachable [OF assms(1) wanted_closed wanted_names] that by simp
  have built: "build env n = Inr x" if "ms_map s n = Some (Some x)" for n x
    using built_reachable [OF assms(1)] that by blast
  have "\<exists>v. ms_map s n = Some (Some v)" if "wanted env names n"
    using entry [OF that] none [of n] by (cases "ms_map s n") auto
  with built only entry none show ?thesis by (metis option.distinct(1) sum.inject(2))
qed

section \<open>Examples\<close>

text \<open>Two modules of which the first needs the second, and two that need each other.\<close>

definition ex_modules :: "nat module_env" where
  "ex_modules = \<lparr>dependencies = (\<lambda>n. if n = ''snd'' then Some [''snd-core'']
       else if n = ''snd_core'' then Some [] else None),
     build = (\<lambda>n. Inr (length n))\<rparr>"

definition ex_names :: "string list" where
  "ex_names = [''snd'', ''snd-core'']"

lemma ex_schedule_run:
  "mapE (\<lambda>s. (ms_queue s, ms_map s ''snd'', ms_map s ''snd_core'', ms_threads s))
     (run_schedule ex_modules [0, 0, 0, 0, 0, 0, 1, 1] (load_start 2 ex_names))
   = Inr ([], Some (Some 3), Some (Some 8), [Running [], Running []])"
  by code_simp

theorem module_parsed_once_witness:
  "\<exists>s s'. load_reachable ex_modules 2 ex_names s \<and> load_step ex_modules s s' \<and>
     ms_map s ''snd'' = Some (Some 3) \<and> ms_map s' ''snd'' = Some (Some 3) \<and> loading ''snd'' s \<le> 1"
proof -
  from ex_schedule_run obtain s where
    run: "run_schedule ex_modules [0, 0, 0, 0, 0, 0, 1, 1] (load_start 2 ex_names) = Inr s"
    and s: "ms_queue s = []" "ms_map s ''snd'' = Some (Some 3)" "ms_threads s = [Running [], Running []]"
    by (auto simp: mapE_def)
  have r: "load_reachable ex_modules 2 ex_names s"
    by (rule run_schedule_reachable [OF run load_reachable_start])
  have "load_step ex_modules s (s\<lparr>ms_threads := (ms_threads s)[0 := Finished]\<rparr>)"
    by (rule load_step_thread [of 0 s "[]"]) (simp_all add: s thread_step_def)
  with module_parsed_once [OF r this, of "''snd''" 3] r s(2) show ?thesis by blast
qed

definition ex_cyclic :: "nat module_env" where
  "ex_cyclic = \<lparr>dependencies = (\<lambda>n. if n = ''a'' then Some [''b''] else if n = ''b'' then Some [''a''] else None),
     build = (\<lambda>n. Inr (length n))\<rparr>"

lemma ex_cycle_run:
  "mapE ms_threads (run_schedule ex_cyclic [0, 0, 0, 0, 0, 0] (load_start 2 [''a'']))
   = Inr [Running [Waiting ''a'', Loading ''b'' [], Loading ''a'' []], Running []]"
  by code_simp

theorem self_wait_forever_witness:
  "\<exists>s. load_reachable ex_cyclic 2 [''a''] s \<and>
     {s'. (load_step ex_cyclic)\<^sup>*\<^sup>* s s' \<and> ms_map s' ''a'' \<noteq> Some None} = {}"
proof -
  from ex_cycle_run obtain s where
    run: "run_schedule ex_cyclic [0, 0, 0, 0, 0, 0] (load_start 2 [''a'']) = Inr s"
    and s: "ms_threads s = [Running [Waiting ''a'', Loading ''b'' [], Loading ''a'' []], Running []]"
    by (auto simp: mapE_def)
  have r: "load_reachable ex_cyclic 2 [''a''] s"
    by (rule run_schedule_reachable [OF run load_reachable_start])
  have "ms_map s' ''a'' = Some None" if "(load_step ex_cyclic)\<^sup>*\<^sup>* s s'" for s'
    using self_wait_forever [OF r that, of 0 "''a''" "[Loading ''b'' [], Loading ''a'' []]" "[]"] s by simp
  with r show ?thesis by blast
qed

theorem all_modules_loadable_witness:
  "\<exists>s'. (load_step ex_modules)\<^sup>*\<^sup>* (load_start 2 ex_names) s' \<and> all_loaded s' \<and>
    (\<exists>x. ms_map s' ''snd_core'' = Some (Some x))"
proof -
  let ?U = "{''snd'', ''snd_core''}"
  have d: "replace_dash ''snd-core'' = ''snd_core''" "replace_dash ''snd'' = ''snd''" by code_simp+
  have "loadable ex_modules ?U" using d by (auto simp: loadable_def ex_modules_def)
  moreover have "replace_dash ` set ex_names \<subseteq> ?U" using d by (auto simp: ex_names_def)
  moreover have "\<forall>y x. needs ex_modules y x \<longrightarrow>
      (\<lambda>n. if n = ''snd'' then 1 else 0) x < ((\<lambda>n. if n = ''snd'' then 1 else 0) y :: nat)"
    using d by (auto simp: needs_def ex_modules_def split: if_splits)
  ultimately have "\<exists>s'. (load_step ex_modules)\<^sup>*\<^sup>* (load_start 2 ex_names) s' \<and>
      set (ms_threads s') \<subseteq> {Finished} \<and> all_loaded s' \<and>
      (\<forall>q \<in> set ex_names. \<exists>x. ms_map s' (replace_dash q) = Some (Some x))"
    by (intro all_modules_loadable [OF load_reachable_start]) simp_all
  then obtain s' where "(load_step ex_modules)\<^sup>*\<^sup>* (load_start 2 ex_names) s'" "all_loaded s'"
    "\<forall>q \<in> set ex_names. \<exists>x. ms_map s' (replace_dash q) = Some (Some x)" by blast
  with d show ?thesis by (auto simp: ex_names_def)
qed

text \<open>Only the first module is on the list; the second is loaded because the first needs it.\<close>

lemma ex_finished_run:
  "mapE (\<lambda>s. (ms_threads s, ms_map s ''snd_core''))
     (run_schedule ex_modules [0, 0, 1, 0, 0, 0, 0, 0] (load_start 2 [''snd'']))
   = Inr ([Finished, Finished], Some (Some 8))"
  by code_simp

lemma ex_wanted: "wanted ex_modules [''snd''] n \<longleftrightarrow> n = ''snd'' \<or> n = ''snd_core''"
proof
  have d: "replace_dash ''snd-core'' = ''snd_core''" "replace_dash ''snd'' = ''snd''" by code_simp+
  show "n = ''snd'' \<or> n = ''snd_core''" if "wanted ex_modules [''snd''] n"
    using that by induction (use d in \<open>auto simp: needs_def ex_modules_def split: if_splits\<close>)
  have "wanted ex_modules [''snd''] ''snd''" using wanted_name [of "''snd''" "[''snd'']" ex_modules] d by simp
  moreover from this have "wanted ex_modules [''snd''] ''snd_core''"
    by (rule wanted_needed) (use d in \<open>simp add: needs_def ex_modules_def\<close>)
  ultimately show "wanted ex_modules [''snd''] n" if "n = ''snd'' \<or> n = ''snd_core''" using that by blast
qed

theorem loaded_modules_exact_witness:
  "\<exists>s. load_reachable ex_modules 2 [''snd''] s \<and> ms_map s ''snd'' = Some (Some 3) \<and>
     ms_map s ''snd_core'' = Some (Some 8) \<and> ms_map s ''usb'' = None"
proof -
  from ex_finished_run obtain s where
    run: "run_schedule ex_modules [0, 0, 1, 0, 0, 0, 0, 0] (load_start 2 [''snd'']) = Inr s"
    and s: "ms_threads s = [Finished, Finished]"
    by (auto simp: mapE_def)
  have r: "load_reachable ex_modules 2 [''snd''] s"
    by (rule run_schedule_reachable [OF run load_reachable_start])
  have "(ms_map s n = None \<longleftrightarrow> \<not> wanted ex_modules [''snd''] n) \<and> ms_map s n \<noteq> Some None \<and>
      (ms_map s n = Some (Some x) \<longleftrightarrow> wanted ex_modules [''snd''] n \<and> build ex_modules n = Inr x)" for n x
    by (rule loaded_modules_exact [OF r]) (simp_all add: s)
  then have "ms_map s ''snd'' = Some (Some 3)" "ms_map s ''snd_core'' = Some (Some 8)" "ms_map s ''usb'' = None"
    by (simp_all add: ex_wanted) (simp_all add: ex_modules_def)
  with r show ?thesis by blast
qed

end
