(* ===== verification/Relocation.thy ===== *)
theory Relocation
  imports ElfSymbols
begin

text \<open>
  The relocations of \<^verbatim>\<open>src/elffile64.cpp\<close>: \<^verbatim>\<open>applyRelocations\<close> and
  \<^verbatim>\<open>applyRelaOnSection\<close>, which patch the mapped file in place with the addresses the
  guest uses. A symbol's resolved value is written back into the symbol table of the mapping.

  The variables the C++ loop carries from one entry to the next, the target section and the section
  of the last symbol, are the state of the step. What the loader and the symbol stores answer is
  \<open>reloc_env\<close>.
\<close>

section \<open>Entries\<close>

record Elf64_Rela =
  r_offset :: u64
  r_info :: u64
  r_addend :: u64

definition dec_rela :: "bytes \<Rightarrow> Elf64_Rela" where
  "dec_rela b = \<lparr>r_offset = fld b 0 8, r_info = fld b 8 8, r_addend = fld b 16 8\<rparr>"

definition rela_at :: "hostmem \<Rightarrow> u64 \<Rightarrow> Elf64_Rela res" where
  "rela_at m p = mapE dec_rela (hread m p 24)"

definition ELF64_R_SYM :: "u64 \<Rightarrow> u64" where "ELF64_R_SYM i = drop_bit 32 i"
definition ELF64_R_TYPE :: "u64 \<Rightarrow> u64" where "ELF64_R_TYPE i = i AND 0xffffffff"

definition R_X86_64_NONE :: u64 where "R_X86_64_NONE = 0"
definition R_X86_64_64 :: u64 where "R_X86_64_64 = 1"
definition R_X86_64_PC32 :: u64 where "R_X86_64_PC32 = 2"
definition R_X86_64_COPY :: u64 where "R_X86_64_COPY = 5"
definition R_X86_64_GLOB_DAT :: u64 where "R_X86_64_GLOB_DAT = 6"
definition R_X86_64_JUMP_SLOT :: u64 where "R_X86_64_JUMP_SLOT = 7"
definition R_X86_64_RELATIVE :: u64 where "R_X86_64_RELATIVE = 8"
definition R_X86_64_32 :: u64 where "R_X86_64_32 = 10"
definition R_X86_64_32S :: u64 where "R_X86_64_32S = 11"
definition R_X86_64_IRELATIVE :: u64 where "R_X86_64_IRELATIVE = 37"

lemmas rela_consts = R_X86_64_NONE_def R_X86_64_64_def R_X86_64_PC32_def R_X86_64_COPY_def
  R_X86_64_GLOB_DAT_def R_X86_64_JUMP_SLOT_def R_X86_64_RELATIVE_def R_X86_64_32_def
  R_X86_64_32S_def R_X86_64_IRELATIVE_def

record reloc_env =
  re_section :: "SectionInfo \<Rightarrow> SectionInfo res"
  re_percpu :: "u64 res"
  re_kernel :: "string \<Rightarrow> u64"
  re_process :: "(string \<Rightarrow> u64) option"

definition is_userspace :: "reloc_env \<Rightarrow> bool" where
  "is_userspace env \<longleftrightarrow> re_process env \<noteq> None"

section \<open>Where an entry patches\<close>

text \<open>The section with the highest start below an address; a start of 0 is never taken.\<close>

fun closest_section :: "hostmem \<Rightarrow> u64 \<Rightarrow> nat list \<Rightarrow> nat option \<Rightarrow> u64 \<Rightarrow> nat option res" where
  "closest_section m relOffset [] cand closest = Inr cand"
| "closest_section m relOffset (j # js) cand closest =
     bindE (shdr m j) (\<lambda>s.
       if sh_addr s < relOffset \<and> closest < sh_addr s
       then closest_section m relOffset js (Some j) (sh_addr s)
       else closest_section m relOffset js cand closest)"

text \<open>
  The new target section and the host pointer to patch. For executables and shared objects the
  pointer is computed from the section of the entry before, less the start of the new one.
\<close>

definition reloc_target :: "ElfFile64 \<Rightarrow> u64 \<Rightarrow> SectionInfo \<Rightarrow> (SectionInfo \<times> u64) res" where
  "reloc_target f relOffset target =
     (let locInElf = si_index target + relOffset in
      bindE (ehdr (mem f)) (\<lambda>e.
        if e_type e = ET_EXEC \<or> e_type e = ET_DYN
        then bindE (getNrOfSections f) (\<lambda>n.
          bindE (closest_section (mem f) relOffset [0..<n] None 0) (\<lambda>c. case c of
              None \<Rightarrow> Inl (InternalError ''no section can be the target for the relocation'')
            | Some j \<Rightarrow> bindE (findSectionByID f (of_nat j)) (\<lambda>s. Inr (s, locInElf - memindex s))))
        else Inr (target, locInElf)))"

section \<open>The value of a symbol\<close>

definition sym_section :: "reloc_env \<Rightarrow> ElfFile64 \<Rightarrow> u16 \<Rightarrow> SectionInfo \<Rightarrow> SectionInfo res" where
  "sym_section env f shndx cur =
     (if secID cur \<noteq> ucast shndx then bindE (findSectionByID f (ucast shndx)) (re_section env) else Inr cur)"

definition percpu_hook :: "reloc_env \<Rightarrow> SectionInfo option \<Rightarrow> u16 \<Rightarrow> SectionInfo \<Rightarrow> SectionInfo res" where
  "percpu_hook env percpu shndx s =
     (case percpu of
        None \<Rightarrow> Inr s
      | Some p \<Rightarrow> if ucast shndx = secID p then mapE (\<lambda>a. s\<lparr>memindex := a\<rparr>) (re_percpu env) else Inr s)"

text \<open>An undefined symbol: looked up in the kernel, or in the process for two kinds of entries.\<close>

definition undefined_value ::
  "reloc_env \<Rightarrow> ElfFile64 \<Rightarrow> u32 \<Rightarrow> Elf64_Sym \<Rightarrow> u64 \<Rightarrow> u64 res" where
  "undefined_value env f strindex s typ =
     (case re_process env of
        None \<Rightarrow> mapE (re_kernel env) (symbolName f (st_name s) strindex)
      | Some look \<Rightarrow>
          if typ = R_X86_64_JUMP_SLOT \<or> typ = R_X86_64_GLOB_DAT
          then bindE (symbolName f (st_name s) strindex) (\<lambda>nm.
            if look nm = 0 \<and> ELF64_ST_BIND (st_info s) \<noteq> STB_WEAK
            then Inl (Error ''undefined symbol (=0) encountered'') else Inr (look nm))
          else if typ = R_X86_64_RELATIVE \<or> typ = R_X86_64_IRELATIVE then Inr (st_value s)
          else Inl (Error ''unknown relocation type''))"

definition resolved_value ::
  "reloc_env \<Rightarrow> ElfFile64 \<Rightarrow> u32 \<Rightarrow> Elf64_Sym \<Rightarrow> u64 \<Rightarrow> SectionInfo \<Rightarrow> u64 res" where
  "resolved_value env f strindex s typ sec =
     (if st_shndx s = SHN_COMMON then Inl AssertFailed
      else if st_shndx s = SHN_ABS then Inr (st_value s)
      else if st_shndx s = SHN_UNDEF then undefined_value env f strindex s typ
      else Inr (if st_value s < memindex sec then st_value s + memindex sec else st_value s))"

section \<open>Writing\<close>

text \<open>
  The bytes written at \<open>locInElf\<close>: \<open>val\<close> is the symbol's value and the addend. A
  relative entry of \<^verbatim>\<open>.altinstructions\<close> keeps host distances. The 32-bit entry stores
  eight bytes.
\<close>

definition reloc_bytes ::
  "bool \<Rightarrow> u64 \<Rightarrow> u64 \<Rightarrow> u64 \<Rightarrow> u64 \<Rightarrow> SectionInfo \<Rightarrow> u64 \<Rightarrow> bytes res" where
  "reloc_bytes isAlt typ val symval locInElf sec locInMem =
     (if typ = R_X86_64_NONE \<or> typ = R_X86_64_COPY then Inr []
      else if typ = R_X86_64_64 \<or> typ = R_X86_64_32 \<or> typ = R_X86_64_GLOB_DAT \<or> typ = R_X86_64_JUMP_SLOT
      then Inr (to_le 8 val)
      else if typ = R_X86_64_32S then Inr (to_le 4 val)
      else if typ = R_X86_64_PC32
      then Inr (to_le 4 (if isAlt then val - memindex sec + si_index sec - locInElf else val - locInMem))
      else if typ = R_X86_64_RELATIVE \<or> typ = R_X86_64_IRELATIVE then Inr (to_le 8 (val - symval))
      else Inl AssertFailed)"

definition write_bytes :: "hostmem \<Rightarrow> u64 \<Rightarrow> bytes \<Rightarrow> hostmem res" where
  "write_bytes m p x = (if x = [] then Inr m else hwrite m p x)"

section \<open>One entry\<close>

record rela_state =
  rs_file :: ElfFile64
  rs_target :: SectionInfo
  rs_symsec :: SectionInfo

record rela_ctx =
  rx_isAlt :: bool
  rx_strindex :: u32
  rx_rel :: u64
  rx_symBase :: u64
  rx_percpu :: "SectionInfo option"

definition rela_step :: "reloc_env \<Rightarrow> rela_ctx \<Rightarrow> nat \<Rightarrow> rela_state \<Rightarrow> rela_state res" where
  "rela_step env c i st =
     (let f = rs_file st in
      bindE (rela_at (mem f) (rx_rel c + 24 * of_nat i)) (\<lambda>r.
      let locInMem = memindex (rs_target st) + r_offset r in
      bindE (reloc_target f (r_offset r) (rs_target st)) (\<lambda>(target, locInElf).
      let symp = rx_symBase c + 24 * ELF64_R_SYM (r_info r) in
      bindE (sym_at (mem f) symp) (\<lambda>s.
      bindE (sym_section env f (st_shndx s) (rs_symsec st)) (\<lambda>sec0.
      bindE (percpu_hook env (rx_percpu c) (st_shndx s) sec0) (\<lambda>sec.
      bindE (resolved_value env f (rx_strindex c) s (ELF64_R_TYPE (r_info r)) sec) (\<lambda>symval.
      bindE (if symval = st_value s then Inr (mem f) else hwrite (mem f) (symp + 8) (to_le 8 symval)) (\<lambda>m1.
      bindE (reloc_bytes (rx_isAlt c) (ELF64_R_TYPE (r_info r)) (symval + r_addend r) symval locInElf sec locInMem) (\<lambda>x.
      bindE (write_bytes m1 locInElf x) (\<lambda>m2.
        Inr (st\<lparr>rs_file := f\<lparr>mem := m2\<rparr>, rs_target := target, rs_symsec := sec\<rparr>)))))))))))"

section \<open>A section and a file\<close>

definition applyRelaOnSection :: "reloc_env \<Rightarrow> nat \<Rightarrow> ElfFile64 \<Rightarrow> ElfFile64 res" where
  "applyRelaOnSection env relSectionID f =
     bindE (shdr (mem f) relSectionID) (\<lambda>h.
     bindE (shdr (mem f) (unat (sh_link h))) (\<lambda>hs.
     bindE (assertE (sh_link h \<noteq> 0)) (\<lambda>_.
     bindE (sectionName f (unat (sh_info h))) (\<lambda>nm.
     bindE (findSectionByID f (sh_info h)) (\<lambda>target0.
     bindE (re_section env target0) (\<lambda>target.
     bindE (findSectionByID f (of_nat relSectionID)) (\<lambda>rel.
     bindE (sectionAddress f (unat (sh_link h))) (\<lambda>symBase.
     bindE (if is_userspace env then Inr None
            else mapE Some (findSectionWithName f ''.data..percpu'')) (\<lambda>percpu.
     let c = \<lparr>rx_isAlt = (nm = ''.altinstructions''), rx_strindex = sh_link hs, rx_rel = si_index rel,
              rx_symBase = symBase, rx_percpu = percpu\<rparr> in
     mapE rs_file (foldE (rela_step env c) [0..<unat (si_size rel) div 24]
       \<lparr>rs_file = f, rs_target = target, rs_symsec = SectionInfo_default\<rparr>))))))))))"

definition reloc_section_step :: "reloc_env \<Rightarrow> nat \<Rightarrow> nat \<Rightarrow> ElfFile64 \<Rightarrow> ElfFile64 res" where
  "reloc_section_step env n i f =
     bindE (shdr (mem f) i) (\<lambda>h.
       if n \<le> unat (sh_info h) then Inr f
       else bindE (shdr (mem f) (unat (sh_info h))) (\<lambda>hi.
         if sh_flags hi AND SHF_ALLOC = 0 then Inr f
         else if sh_type h = SHT_REL then Inl AssertFailed
         else if sh_type h = SHT_RELA then applyRelaOnSection env i f
         else Inr f))"

definition applyRelocations :: "reloc_env \<Rightarrow> ElfFile64 \<Rightarrow> ElfFile64 res" where
  "applyRelocations env f =
     bindE (ehdr (mem f)) (\<lambda>e.
       if e_type e = ET_REL \<or> e_type e = ET_DYN \<or> e_type e = ET_EXEC
       then bindE (getNrOfSections f) (\<lambda>n. foldE (reloc_section_step env n) [0..<n] f)
       else Inr f)"

section \<open>What an entry leaves in the file\<close>

text \<open>
  An entry as the step reads it: the relocation, the symbol, the place to patch, the section and the
  resolved value of the symbol.
\<close>

record rela_view =
  rv_rela :: Elf64_Rela
  rv_symp :: u64
  rv_loc :: u64
  rv_sec :: SectionInfo
  rv_value :: u64

definition views :: "reloc_env \<Rightarrow> rela_ctx \<Rightarrow> nat \<Rightarrow> rela_state \<Rightarrow> rela_view \<Rightarrow> bool" where
  "views env c i st v \<longleftrightarrow>
     (let f = rs_file st; r = rv_rela v in
      rela_at (mem f) (rx_rel c + 24 * of_nat i) = Inr r \<and>
      rv_symp v = rx_symBase c + 24 * ELF64_R_SYM (r_info r) \<and>
      (\<exists>target. reloc_target f (r_offset r) (rs_target st) = Inr (target, rv_loc v)) \<and>
      (\<exists>s sec. sym_at (mem f) (rv_symp v) = Inr s \<and> sym_section env f (st_shndx s) (rs_symsec st) = Inr sec \<and>
         percpu_hook env (rx_percpu c) (st_shndx s) sec = Inr (rv_sec v) \<and>
         resolved_value env f (rx_strindex c) s (ELF64_R_TYPE (r_info r)) (rv_sec v) = Inr (rv_value v)))"

lemma rela_step_write:
  assumes "rela_step env c i st = Inr st'" and "views env c i st v"
  obtains x m1 where
    "reloc_bytes (rx_isAlt c) (ELF64_R_TYPE (r_info (rv_rela v))) (rv_value v + r_addend (rv_rela v))
       (rv_value v) (rv_loc v) (rv_sec v) (memindex (rs_target st) + r_offset (rv_rela v)) = Inr x"
    and "write_bytes m1 (rv_loc v) x = Inr (mem (rs_file st'))"
    and "m1 = mem (rs_file st) \<or> hwrite (mem (rs_file st)) (rv_symp v + 8) (to_le 8 (rv_value v)) = Inr m1"
proof -
  let ?f = "rs_file st" and ?r = "rv_rela v"
  from assms(2) obtain target s sec0 where v:
    "rela_at (mem ?f) (rx_rel c + 24 * of_nat i) = Inr ?r"
    "rv_symp v = rx_symBase c + 24 * ELF64_R_SYM (r_info ?r)"
    "reloc_target ?f (r_offset ?r) (rs_target st) = Inr (target, rv_loc v)"
    "sym_at (mem ?f) (rv_symp v) = Inr s" "sym_section env ?f (st_shndx s) (rs_symsec st) = Inr sec0"
    "percpu_hook env (rx_percpu c) (st_shndx s) sec0 = Inr (rv_sec v)"
    "resolved_value env ?f (rx_strindex c) s (ELF64_R_TYPE (r_info ?r)) (rv_sec v) = Inr (rv_value v)"
    unfolding views_def Let_def by blast
  from assms(1) v(1,3-7) obtain m1 x m2 where
    m1: "(if rv_value v = st_value s then Inr (mem ?f)
       else hwrite (mem ?f) (rx_symBase c + 24 * ELF64_R_SYM (r_info ?r) + 8) (to_le 8 (rv_value v))) = Inr m1"
    and x: "reloc_bytes (rx_isAlt c) (ELF64_R_TYPE (r_info ?r)) (rv_value v + r_addend ?r)
       (rv_value v) (rv_loc v) (rv_sec v) (memindex (rs_target st) + r_offset ?r) = Inr x"
    and m2: "write_bytes m1 (rv_loc v) x = Inr m2" and st': "st' = st\<lparr>rs_file := ?f\<lparr>mem := m2\<rparr>, rs_target := target, rs_symsec := rv_sec v\<rparr>"
    by (auto simp: rela_step_def Let_def v(2) [symmetric])
  show thesis
    by (rule that [of x m1]) (use x m2 m1 st' v(2) in \<open>auto split: if_splits\<close>)
qed

text \<open>The guest address of the byte at host address \<open>p\<close> of a section that is mapped to both.\<close>

definition guest_address :: "SectionInfo \<Rightarrow> u64 \<Rightarrow> u64" where
  "guest_address s p = memindex s + (p - si_index s)"

lemma reloc_target_rel:
  assumes "ehdr (mem f) = Inr e" and "e_type e = ET_REL"
  shows "reloc_target f off target = Inr (target, si_index target + off)"
  using assms by (simp add: reloc_target_def elf_consts)


text \<open>An entry for a 32-bit absolute address stores eight bytes: behind the field it is for, the four
  bytes that follow are replaced by the upper half of the address, whatever was there.\<close>

theorem abs32_overwrites_next:
  assumes "rela_step env c i st = Inr st'" and "views env c i st v"
    and "ELF64_R_TYPE (r_info (rv_rela v)) = R_X86_64_32"
  shows "hread (mem (rs_file st')) (rv_loc v) 8 = Inr (to_le 8 (rv_value v + r_addend (rv_rela v)))"
proof -
  from rela_step_write [OF assms(1,2)] obtain x m1 where
    x: "reloc_bytes (rx_isAlt c) (ELF64_R_TYPE (r_info (rv_rela v))) (rv_value v + r_addend (rv_rela v))
       (rv_value v) (rv_loc v) (rv_sec v) (memindex (rs_target st) + r_offset (rv_rela v)) = Inr x"
    and w: "write_bytes m1 (rv_loc v) x = Inr (mem (rs_file st'))" by metis
  from x have "x = to_le 8 (rv_value v + r_addend (rv_rela v))"
    by (simp add: reloc_bytes_def assms(3)) (simp add: rela_consts)
  with w have "hwrite m1 (rv_loc v) (to_le 8 (rv_value v + r_addend (rv_rela v))) = Inr (mem (rs_file st'))"
    by (simp add: write_bytes_def numeral_eq_Suc)
  from host.rd_wr_same [OF this] show ?thesis by simp
qed

text \<open>A symbol that is given by its offset gets its section's address once, however many entries use it.\<close>

lemma resolved_value_once:
  assumes "resolved_value env f str s typ sec = Inr v"
    and "st_shndx s \<noteq> SHN_UNDEF" and "unat (st_value s) + unat (memindex sec) < 2 ^ 64"
  shows "resolved_value env f str (s\<lparr>st_value := v\<rparr>) typ sec = Inr v"
proof (cases "st_shndx s = SHN_ABS \<or> st_shndx s = SHN_COMMON")
  case True
  with assms show ?thesis by (auto simp: resolved_value_def split: if_splits)
next
  case False
  have "\<not> st_value s + memindex sec < memindex sec"
    using assms(3) by (simp add: word_less_nat_alt unat_word_ariths)
  with False assms show ?thesis by (auto simp: resolved_value_def split: if_splits)
qed

section \<open>An example\<close>

text \<open>A relocatable file with one entry of type \<open>typ\<close>, one symbol at offset 0x40 of section 1
  and eight bytes to patch, of which the entry is for those from offset 4 on.\<close>

definition ex_rela_mem :: "u8 \<Rightarrow> hostmem" where
  "ex_rela_mem typ = \<lparr>hbase = 0x10000, hbytes =
     replicate 16 0 @ [1, 0] @ replicate 46 0 @
     to_le 8 (4 :: u64) @ [typ, 0, 0, 0, 1, 0, 0, 0] @ to_le 8 (- 4 :: u64) @
     [0, 0, 0, 0, 0, 0, 1, 0] @ to_le 8 (0x40 :: u64) @ replicate 8 0 @ replicate 16 0xcc\<rparr>"

definition ex_rela_section :: SectionInfo where
  "ex_rela_section = \<lparr>si_name = ''.text'', secID = 1, si_offset = 112, si_index = 0x10070,
     memindex = 0xffffffffa0001000, si_size = 16, si_flags = 6\<rparr>"

definition ex_rela_file :: "u8 \<Rightarrow> ElfFile64" where
  "ex_rela_file typ = \<lparr>mem = ex_rela_mem typ, shstrindex = 0, sections = [ex_rela_section], segments = [],
     section_ids = [1 \<mapsto> 0], section_names = [''.text'' \<mapsto> 0], symbolCount = 0\<rparr>"

definition ex_rela_state :: "u8 \<Rightarrow> rela_state" where
  "ex_rela_state typ = \<lparr>rs_file = ex_rela_file typ, rs_target = ex_rela_section, rs_symsec = SectionInfo_default\<rparr>"

definition ex_rela_ctx :: rela_ctx where
  "ex_rela_ctx = \<lparr>rx_isAlt = False, rx_strindex = 0, rx_rel = 0x10040, rx_symBase = 0x10040, rx_percpu = None\<rparr>"

definition ex_reloc_env :: reloc_env where
  "ex_reloc_env = \<lparr>re_section = Inr, re_percpu = Inr 0, re_kernel = (\<lambda>_. 0), re_process = Some (\<lambda>_. 0)\<rparr>"

definition ex_rela_view :: "u8 \<Rightarrow> rela_view" where
  "ex_rela_view typ = \<lparr>rv_rela = \<lparr>r_offset = 4, r_info = 0x100000000 + ucast typ, r_addend = - 4\<rparr>,
     rv_symp = 0x10058, rv_loc = 0x10074, rv_sec = ex_rela_section, rv_value = 0xffffffffa0001040\<rparr>"

lemma ex_rela_views:
  assumes "typ \<in> {2, 10}"
  shows "views ex_reloc_env ex_rela_ctx 0 (ex_rela_state typ) (ex_rela_view typ)"
proof -
  let ?f = "ex_rela_file typ" and ?st = "ex_rela_state typ" and ?v = "ex_rela_view typ"
  let ?s = "\<lparr>st_name = 0, st_info = 0, st_shndx = 1, st_value = 0x40\<rparr>"
  have two: "typ = 2 \<or> typ = 10" using assms by simp
  have "rela_at (mem ?f) 0x10040 = Inr (rv_rela ?v)" using two by (elim disjE; simp only:; code_simp)
  moreover have "reloc_target ?f 4 ex_rela_section = Inr (ex_rela_section, 0x10074)"
    using two by (elim disjE; simp only:; code_simp)
  moreover have "sym_at (mem ?f) 0x10058 = Inr ?s" using two by (elim disjE; simp only:; code_simp)
  moreover have "sym_section ex_reloc_env ?f 1 SectionInfo_default = Inr ex_rela_section"
    using two by (elim disjE; simp only:; code_simp)
  moreover have "ELF64_R_SYM (r_info (rv_rela ?v)) = 1" using two by (elim disjE; simp only:; code_simp)
  moreover have "resolved_value ex_reloc_env ?f 0 ?s (ELF64_R_TYPE (r_info (rv_rela ?v))) ex_rela_section
      = Inr 0xffffffffa0001040"
    by (simp add: resolved_value_def ex_rela_section_def elf_consts)
  ultimately show ?thesis
    by (simp add: views_def Let_def ex_rela_state_def ex_rela_ctx_def percpu_hook_def ex_rela_view_def)
qed

lemma ex_rela_runs:
  "mapE (\<lambda>_. ()) (rela_step ex_reloc_env ex_rela_ctx 0 (ex_rela_state 2)) = Inr ()"
  "mapE (\<lambda>_. ()) (rela_step ex_reloc_env ex_rela_ctx 0 (ex_rela_state 10)) = Inr ()"
  by code_simp+


theorem abs32_overwrites_next_witness:
  "\<exists>st'. rela_step ex_reloc_env ex_rela_ctx 0 (ex_rela_state 10) = Inr st' \<and>
     hread (mem (rs_file st')) 0x10074 8 = Inr (to_le 8 (0xffffffffa000103c :: u64))"
proof -
  from ex_rela_runs(2) obtain st' where st: "rela_step ex_reloc_env ex_rela_ctx 0 (ex_rela_state 10) = Inr st'"
    by (auto simp: mapE_def)
  have v: "views ex_reloc_env ex_rela_ctx 0 (ex_rela_state 10) (ex_rela_view 10)" by (rule ex_rela_views) simp
  have t: "ELF64_R_TYPE (r_info (rv_rela (ex_rela_view 10))) = R_X86_64_32" by code_simp
  from abs32_overwrites_next [OF st v t] st show ?thesis by (simp add: ex_rela_view_def)
qed

end
