(* ===== verification/ModuleLoader.thy ===== *)
theory ModuleLoader
  imports Relocation KernelLoader
begin

text \<open>
  \<^verbatim>\<open>src/elfmoduleloader.h\<close> and \<^verbatim>\<open>src/elfmoduleloader.cpp\<close>: the image of a
  kernel module. The dependencies are read from \<^verbatim>\<open>.modinfo\<close> with
  \<^verbatim>\<open>strtok_r\<close>, which writes into the mapped file; the guest addresses of sections come
  from the guest's \<^verbatim>\<open>struct module\<close> (\<open>module_instance\<close>); text and read-only data are
  collected section by section.
\<close>

section \<open>Dependencies\<close>

text \<open>
  \<^verbatim>\<open>strtok_r\<close> with a comma as the delimiter: skip commas, take a token, end it with a zero
  byte in place and go on behind it. Pointers are offsets into the mapped bytes.
\<close>

definition strtok_comma :: "bytes \<Rightarrow> nat \<Rightarrow> (string option \<times> nat \<times> bytes) res" where
  "strtok_comma b i =
     bindE (c_string (drop i b)) (\<lambda>s.
       let lead = length (takeWhile (\<lambda>c. c = CHR '','') s);
           tok = takeWhile (\<lambda>c. c \<noteq> CHR '','') (drop lead s);
           e = i + lead + length tok in
       if tok = [] then Inr (None, i + length s, b)
       else if e = i + length s then Inr (Some tok, e, b)
       else mapE (\<lambda>b'. (Some tok, Suc e, b')) (bwrite b e [0]))"

text \<open>The calls of \<^verbatim>\<open>loadModule\<close>; every token takes at least one character.\<close>

fun depends_loop :: "nat \<Rightarrow> bytes \<Rightarrow> nat \<Rightarrow> string list \<Rightarrow> (string list \<times> bytes) res" where
  "depends_loop 0 b i acc = Inl DoesNotReturn"
| "depends_loop (Suc k) b i acc =
     bindE (strtok_comma b i) (\<lambda>(tok, j, b').
       case tok of
         None \<Rightarrow> Inr (acc, b')
       | Some nm \<Rightarrow> depends_loop k b' j (acc @ [nm]))"

function modinfo_loop :: "bytes \<Rightarrow> nat \<Rightarrow> nat \<Rightarrow> (string list \<times> bytes) res" where
  "modinfo_loop b i stop =
     (if i < stop
      then bindE (c_string (drop i b)) (\<lambda>s.
        if s = [] then modinfo_loop b (Suc i) stop
        else if take 7 s \<noteq> ''depends'' then modinfo_loop b (i + Suc (length s)) stop
        else depends_loop (Suc (length b)) b (i + 8) [])
      else Inr ([], b))"
  by pat_completeness auto
termination
  by (relation "measure (\<lambda>(b, i, stop). stop - i)") auto

declare modinfo_loop.simps [simp del]

definition loadDependencies :: "'a ElfLoader_scheme \<Rightarrow> (string list \<times> 'a ElfLoader_scheme) res" where
  "loadDependencies l =
     bindE (findSectionWithName (elffile l) ''.modinfo'') (\<lambda>miS.
       let m = loader_mem l; i = unat (si_index miS - hbase m) in
       if si_index miS = 0 then Inr ([], l)
       else mapE (\<lambda>(deps, b). (deps, set_loader_mem (m\<lparr>hbytes := b\<rparr>) l))
         (modinfo_loop (hbytes m) i (i + unat (si_size miS))))"

section \<open>Guest addresses of sections\<close>

text \<open>
  The guest's \<^verbatim>\<open>struct module\<close>, read through libdwarfparser: its size and address, the
  member \<^verbatim>\<open>gpl_syms\<close> and the array of section attributes.
\<close>

record module_instance =
  mi_size :: u64
  mi_address :: u64
  mi_gpl_syms :: u64
  mi_nsections :: u64
  mi_attr :: "nat \<Rightarrow> string \<times> u64"

fun attr_address :: "(nat \<Rightarrow> string \<times> u64) \<Rightarrow> string \<Rightarrow> nat list \<Rightarrow> u64" where
  "attr_address attr nm [] = 0"
| "attr_address attr nm (j # js) =
     (if fst (attr j) = nm then snd (attr j) else attr_address attr nm js)"

text \<open>The remainder by an alignment of 0 is a fault of the processor.\<close>

definition findMemAddressOfSegment ::
  "module_instance res \<Rightarrow> ElfFile64 \<Rightarrow> SectionInfo \<Rightarrow> u64 res" where
  "findMemAddressOfSegment inst f info =
     bindE inst (\<lambda>currentModule.
       if si_name info = ''.bss''
       then bindE (sectionAlign f (unat (secID info))) (\<lambda>align.
         bindE (guardE (Error ''division by zero'') (align \<noteq> 0)) (\<lambda>_.
           let r = mi_size currentModule mod align;
               offset = (if r = 0 then mi_size currentModule else mi_size currentModule + align - r) in
           Inr (mi_address currentModule + offset)))
       else if si_name info = ''__ksymtab_gpl'' then Inr (mi_gpl_syms currentModule)
       else Inr (attr_address (mi_attr currentModule) (si_name info)
         [0..<unat (ucast (mi_nsections currentModule) :: u32)]))"

definition module_updateSectionInfoMemAddress ::
  "module_instance res \<Rightarrow> ElfFile64 \<Rightarrow> SectionInfo \<Rightarrow> SectionInfo res" where
  "module_updateSectionInfoMemAddress inst f info =
     mapE (\<lambda>a. info\<lparr>memindex := a\<rparr>) (findMemAddressOfSegment inst f info)"

text \<open>A section looked up by name, with its guest address.\<close>

definition located_section :: "module_instance res \<Rightarrow> ElfFile64 \<Rightarrow> string \<Rightarrow> SectionInfo res" where
  "located_section inst f nm =
     bindE (findSectionWithName f nm) (module_updateSectionInfoMemAddress inst f)"

section \<open>Loading the text\<close>

text \<open>
  What loading a module takes from its surroundings, at the time its dependencies are loaded: the
  guest's instance of the module, the per-cpu address, the symbol store and the parameters of the
  patchers.
\<close>

record modload_env =
  me_instance :: "module_instance res"
  me_percpu :: "u64 res"
  me_symbol :: "string \<Rightarrow> u64"
  me_paravirt :: ParavirtState
  me_caps :: "(nat \<Rightarrow> u32) option"
  me_native :: "string \<Rightarrow> bytes"
  me_insnbuf :: bytes

definition module_reloc_env :: "modload_env \<Rightarrow> ElfFile64 \<Rightarrow> reloc_env" where
  "module_reloc_env env f =
     \<lparr>re_section = module_updateSectionInfoMemAddress (me_instance env) f, re_percpu = me_percpu env,
      re_kernel = me_symbol env, re_process = None\<rparr>"

definition patch_module :: "modload_env \<Rightarrow> 'a ElfKernelspaceLoader_scheme \<Rightarrow> 'a ElfKernelspaceLoader_scheme res" where
  "patch_module env l =
     (let upd = module_updateSectionInfoMemAddress (me_instance env) (elffile l) in
      bindE (applyAltinstr ModuleLoader upd (me_caps env) (me_paravirt env) (me_insnbuf env) l) (\<lambda>l1.
      bindE (applyParainstr (me_native env) (me_paravirt env) (me_insnbuf env) l1)
        (applySmpLocks upd (me_caps env))))"

text \<open>The other executable sections follow the text section in the order of the headers.\<close>

definition exec_step :: "nat \<Rightarrow> 'a ElfLoader_scheme \<Rightarrow> 'a ElfLoader_scheme res" where
  "exec_step i l =
     (let m = loader_mem l in
      bindE (sectionName (elffile l) i) (\<lambda>nm.
        if nm = ''.text'' \<or> nm = ''.init.text'' then Inr l
        else bindE (shdr m i) (\<lambda>s.
          if sh_flags s = (SHF_ALLOC OR SHF_EXECINSTR)
          then mapE (\<lambda>bs. append_text bs l) (hread m (hbase m + sh_offset s) (unat (sh_size s)))
          else Inr l)))"

definition PAGE_SIZE :: nat where
  "PAGE_SIZE = 0x1000"

text \<open>The result: the modules loaded first, the loader, and the calls made on the symbol store.\<close>

definition ElfModuleLoader_initText ::
  "modload_env \<Rightarrow> 'a ElfKernelspaceLoader_scheme \<Rightarrow>
   (string list \<times> 'a ElfKernelspaceLoader_scheme \<times> store_op list) res" where
  "ElfModuleLoader_initText env l0 =
     bindE (loadDependencies l0) (\<lambda>(deps, l1).
     bindE (applyRelocations (module_reloc_env env (elffile l1)) (elffile l1)) (\<lambda>f.
     bindE (located_section (me_instance env) f ''.text'') (\<lambda>txt.
     bindE (patch_module env (l1\<lparr>elffile := f, textSegment := txt\<rparr>)) (\<lambda>l2.
     bindE (section_bytes (loader_mem l2) (textSegment l2)) (\<lambda>bs.
     bindE (ehdr (loader_mem l2)) (\<lambda>e.
     bindE (foldE exec_step [0..<unat (e_shnum e)] (l2\<lparr>textSegmentContent := bs\<rparr>)) (\<lambda>l3.
     bindE (fill_page PAGE_SIZE (textSegmentContent l3)) (\<lambda>c.
     bindE (located_section (me_instance env) (elffile l3) ''__mcount_loc'') (\<lambda>info.
     bindE (applyMcount info (me_paravirt env) (l3\<lparr>textSegmentContent := c\<rparr>)) (\<lambda>l4.
     mapE (\<lambda>ops. (deps, l4, ops)) (addSymbolsToStore (elffile l4) (memindex (textSegment l4)))))))))))))"

section \<open>Loading the data\<close>

definition rodata_header :: "Elf64_Shdr \<Rightarrow> bool" where
  "rodata_header s \<longleftrightarrow>
     ((sh_flags s = SHF_ALLOC \<or> sh_flags s = SHF_STRINGS) \<and> sh_type s = SHT_PROGBITS) \<or>
     (sh_flags s = SHF_ALLOC \<and> sh_type s = SHT_NOTE)"

definition rodata_excluded :: "string \<Rightarrow> bool" where
  "rodata_excluded nm \<longleftrightarrow> nm = ''.modinfo'' \<or> nm = ''__versions'' \<or> take 5 nm = ''.init''"

definition alignment_gap :: "u64 \<Rightarrow> u64 \<Rightarrow> u64" where
  "alignment_gap sz addralign =
     (let align = (if addralign \<noteq> 0 then 0 else 1) - 1 in ((sz + align) AND NOT align) - sz)"

definition module_rodata_step :: "nat \<Rightarrow> 'a ElfLoader_scheme \<Rightarrow> 'a ElfLoader_scheme res" where
  "module_rodata_step i l =
     (let m = loader_mem l in
      bindE (shdr m i) (\<lambda>s.
        if rodata_header s
        then bindE (sectionName (elffile l) i) (\<lambda>nm.
          if rodata_excluded nm then Inr l
          else bindE (append_fill (roData l) (alignment_gap (of_nat (length (roData l))) (sh_addralign s)) 0) (\<lambda>r.
            mapE (\<lambda>bs. l\<lparr>roData := r @ bs\<rparr>) (hread m (hbase m + sh_offset s) (unat (sh_size s)))))
        else Inr l))"

definition ElfModuleLoader_initData ::
  "modload_env \<Rightarrow> 'a ElfLoader_scheme \<Rightarrow> 'a ElfLoader_scheme res" where
  "ElfModuleLoader_initData env l0 =
     (let f = elffile l0; inst = me_instance env in
      bindE (located_section inst f ''.data'') (\<lambda>data.
      bindE (located_section inst f ''.bss'') (\<lambda>bss.
      bindE (located_section inst f ''.note.gnu.build-id'') (\<lambda>rodata.
      bindE (ehdr (mem f)) (\<lambda>e.
      bindE (foldE module_rodata_step [0..<unat (e_shnum e)]
        (l0\<lparr>dataSection := data, bssSection := bss, roDataSection := rodata\<rparr>)) (\<lambda>l1.
        Inr (l1\<lparr>roDataSection := (roDataSection l1)\<lparr>si_size := of_nat (length (roData l1))\<rparr>\<rparr>)))))))"

section \<open>What the dependencies are\<close>

fun join_commas :: "string list \<Rightarrow> string" where
  "join_commas [] = []"
| "join_commas [d] = d"
| "join_commas (d # e # ds) = d @ CHR '','' # join_commas (e # ds)"

definition dep_name :: "string \<Rightarrow> bool" where
  "dep_name d \<longleftrightarrow> d \<noteq> [] \<and> CHR '','' \<notin> set d \<and> no_nul d"

lemma no_nul_join: "list_all dep_name ds \<Longrightarrow> no_nul (join_commas ds)"
  by (induction ds rule: join_commas.induct) (auto simp: dep_name_def no_nul_def u8_of_char_def)

lemma length_join: "list_all dep_name ds \<Longrightarrow> length ds \<le> length (join_commas ds)"
proof (induction ds rule: join_commas.induct)
  case (2 d)
  then show ?case by (cases d) (auto simp: dep_name_def)
qed auto

lemma takeWhile_name:
  "dep_name d \<Longrightarrow> takeWhile (\<lambda>c. c = CHR '','') (d @ r) = []"
  "dep_name d \<Longrightarrow> takeWhile (\<lambda>c. c \<noteq> CHR '','') (d @ CHR '','' # r) = d"
  "dep_name d \<Longrightarrow> takeWhile (\<lambda>c. c \<noteq> CHR '','') d = d"
proof -
  assume d: "dep_name d"
  then have "d \<noteq> []" "\<forall>c \<in> set d. c \<noteq> CHR '',''" by (auto simp: dep_name_def)
  then show "takeWhile (\<lambda>c. c = CHR '','') (d @ r) = []"
    "takeWhile (\<lambda>c. c \<noteq> CHR '','') (d @ CHR '','' # r) = d"
    "takeWhile (\<lambda>c. c \<noteq> CHR '','') d = d"
    by (cases d; simp)+
qed

text \<open>One token: the last of the list, and one with more behind it.\<close>

lemma strtok_end: "c_string (drop i b) = Inr [] \<Longrightarrow> strtok_comma b i = Inr (None, i, b)"
  by (simp add: strtok_comma_def)

lemma strtok_last:
  assumes c: "c_string (drop i b) = Inr d" and d: "dep_name d"
  shows "strtok_comma b i = Inr (Some d, i + length d, b)"
  unfolding strtok_comma_def c bindE_simps Let_def takeWhile_name(1) [OF d, of "[]", unfolded append_Nil2]
    list.size(3) drop_0 takeWhile_name(3) [OF d]
  using d by (simp add: dep_name_def)

lemma strtok_next:
  assumes c: "c_string (drop i b) = Inr (d @ CHR '','' # r)" and d: "dep_name d"
  obtains b' where "strtok_comma b i = Inr (Some d, Suc (i + length d), b')"
    and "drop (Suc (i + length d)) b' = drop (Suc (i + length d)) b" and "length b' = length b"
proof -
  from c_string_length [OF c] have len: "i + length d < length b" by simp
  then have w: "bwrite b (i + length d) [0] = Inr (take (i + length d) b @ [0] @ drop (Suc (i + length d)) b)"
    by (simp add: bwrite_def)
  let ?b' = "take (i + length d) b @ [0] @ drop (Suc (i + length d)) b"
  have t: "strtok_comma b i = Inr (Some d, Suc (i + length d), ?b')"
    unfolding strtok_comma_def c bindE_simps Let_def takeWhile_name(1) [OF d] list.size(3) drop_0
      takeWhile_name(2) [OF d]
    using d w by (simp add: mapE_def dep_name_def)
  have "drop (Suc (i + length d)) ?b' = drop (Suc (i + length d)) b" using len by simp
  moreover have "length ?b' = length b" using len by simp
  ultimately show thesis using t that by blast
qed

lemma depends_loop_join:
  "list_all dep_name ds \<Longrightarrow> c_string (drop i b) = Inr (join_commas ds) \<Longrightarrow> length ds < k \<Longrightarrow>
     \<exists>b'. depends_loop k b i acc = Inr (acc @ ds, b') \<and> length b' = length b"
proof (induction ds arbitrary: i b k acc rule: join_commas.induct)
  case 1
  then show ?case by (cases k) (simp_all add: strtok_end)
next
  case (2 d)
  then have "1 < k" by simp
  then obtain k' where k: "k = Suc (Suc k')" using less_imp_Suc_add [of 1 k] by auto
  from 2 have "dep_name d" "c_string (drop i b) = Inr d" by simp_all
  moreover have "c_string (drop (i + length d) b) = Inr []"
    using c_string_drop [OF calculation(2), of "length d"] by (simp add: add.commute)
  ultimately show ?case by (simp add: k strtok_last strtok_end)
next
  case (3 d e ds)
  then obtain k' where k: "k = Suc k'" "length (e # ds) < k'" by (cases k) auto
  from 3 have d: "dep_name d" and r: "list_all dep_name (e # ds)"
    and c: "c_string (drop i b) = Inr (d @ CHR '','' # join_commas (e # ds))" by simp_all
  from strtok_next [OF c d] obtain b' where
    b: "strtok_comma b i = Inr (Some d, Suc (i + length d), b')"
      "drop (Suc (i + length d)) b' = drop (Suc (i + length d)) b" "length b' = length b" .
  from c_string_drop [OF c, of "Suc (length d)"] b(2)
  have "c_string (drop (Suc (i + length d)) b') = Inr (join_commas (e # ds))"
    by (simp add: add.commute)
  from "3.IH" [OF r this k(2), of "acc @ [d]"] b show ?case by (auto simp: k(1))
qed

lemma modinfo_loop_skips:
  assumes "\<forall>s \<in> set before. no_nul s \<and> take 7 s \<noteq> ''depends''"
    and "drop i b = concat (map c_bytes before) @ r" and "i + length (concat (map c_bytes before)) \<le> stop"
  shows "modinfo_loop b i stop = modinfo_loop b (i + length (concat (map c_bytes before))) stop"
  using assms
proof (induction before arbitrary: i)
  case (Cons s before)
  have len: "length (c_bytes s) = Suc (length s)" by (simp add: c_bytes_def)
  have "drop (i + Suc (length s)) b = drop (Suc (length s)) (drop i b)" by (simp add: add.commute)
  also have "\<dots> = concat (map c_bytes before) @ r" using Cons.prems(2) len by simp
  finally have "drop (i + Suc (length s)) b = concat (map c_bytes before) @ r" .
  from Cons.IH [OF _ this] Cons.prems(1,3) len
  have IH: "modinfo_loop b (i + Suc (length s)) stop
      = modinfo_loop b (i + length (concat (map c_bytes (s # before)))) stop"
    by (simp add: add.assoc)
  have c: "c_string (drop i b) = Inr s" and i: "i < stop" using Cons.prems len by simp_all
  from c i Cons.prems(1) have "modinfo_loop b i stop = modinfo_loop b (i + Suc (length s)) stop"
    by (cases "s = []") (simp_all add: modinfo_loop.simps [of b i stop])
  with IH show ?case by simp
qed simp

lemma modinfo_loop_depends:
  assumes "list_all dep_name ds" and "drop i b = c_bytes (''depends='' @ join_commas ds) @ r" and "i < stop"
  shows "\<exists>b'. modinfo_loop b i stop = Inr (ds, b') \<and> length b' = length b"
proof -
  let ?s = "''depends='' @ join_commas ds"
  have n: "no_nul ?s" using no_nul_join [OF assms(1)] by (simp add: no_nul_def u8_of_char_def)
  with assms(2) have c: "c_string (drop i b) = Inr ?s" by (metis c_string_c_bytes)
  from c_string_drop [OF this, of 8] have c8: "c_string (drop (i + 8) b) = Inr (join_commas ds)"
    by (simp add: add.commute)
  from c_string_length [OF this] length_join [OF assms(1)] have "length ds < Suc (length b)" by simp
  from depends_loop_join [OF assms(1) c8 this, of "[]"] obtain b' where
    "depends_loop (Suc (length b)) b (i + 8) [] = Inr (ds, b')" "length b' = length b" by auto
  with c assms(3) show ?thesis
    by (auto simp: modinfo_loop.simps [of b i stop] simp del: depends_loop.simps)
qed

text \<open>C27: When the entries of \<^verbatim>\<open>.modinfo\<close> before the first that begins with
  \<^verbatim>\<open>depends\<close> are strings of any kind, padding included, and that entry is
  \<^verbatim>\<open>depends=\<close> and a list of names separated by commas, then exactly these modules are
  loaded, in this order.\<close>

theorem loadDependencies_roundtrip:
  assumes "findSectionWithName (elffile l) ''.modinfo'' = Inr miS" and "si_index miS \<noteq> 0"
    and "hread (loader_mem l) (si_index miS) (unat (si_size miS)) =
      Inr (concat (map c_bytes (before @ (''depends='' @ join_commas ds) # after)))"
    and "\<forall>s \<in> set before. no_nul s \<and> take 7 s \<noteq> ''depends''" and "list_all dep_name ds"
  shows "\<exists>l'. loadDependencies l = Inr (ds, l') \<and> length (hbytes (loader_mem l')) = length (hbytes (loader_mem l))"
proof -
  let ?m = "loader_mem l"
  let ?b = "hbytes ?m" and ?i = "unat (si_index miS - hbase ?m)" and ?n = "unat (si_size miS)"
  let ?u = "concat (map c_bytes before)" and ?d = "c_bytes (''depends='' @ join_commas ds)"
    and ?r = "concat (map c_bytes after)"
  from assms(3) have n: "?i + ?n \<le> length ?b" and t: "take ?n (drop ?i ?b) = ?u @ ?d @ ?r"
    by (auto simp: hread_def bread_def split: if_splits)
  from t have "drop ?i ?b = ?u @ ?d @ ?r @ drop ?n (drop ?i ?b)"
    using append_take_drop_id [of ?n "drop ?i ?b"] by simp
  then obtain w where w: "drop ?i ?b = ?u @ ?d @ w" by blast
  have "length (take ?n (drop ?i ?b)) = ?n" using n by simp
  then have len: "length ?u < ?n" unfolding t by (simp add: c_bytes_def)
  have 1: "modinfo_loop ?b ?i (?i + ?n) = modinfo_loop ?b (?i + length ?u) (?i + ?n)"
    using assms(4) w len by (intro modinfo_loop_skips) auto
  have "drop (?i + length ?u) ?b = drop (length ?u) (drop ?i ?b)" by (simp only: drop_drop add.commute)
  also have "\<dots> = ?d @ w" unfolding w by simp
  finally have "drop (?i + length ?u) ?b = ?d @ w" .
  from modinfo_loop_depends [OF assms(5) this, of "?i + ?n"] len obtain b' where
    "modinfo_loop ?b (?i + length ?u) (?i + ?n) = Inr (ds, b')" "length b' = length ?b" by auto
  with 1 assms(1,2) show ?thesis by (auto simp: loadDependencies_def Let_def mapE_def)
qed

section \<open>Read-only data\<close>

text \<open>What the loop takes from a header: nothing, or the alignment and the bytes of the section.\<close>

definition rodata_section :: "ElfFile64 \<Rightarrow> nat \<Rightarrow> (u64 \<times> bytes) option res" where
  "rodata_section f i =
     bindE (shdr (mem f) i) (\<lambda>s.
       if rodata_header s
       then bindE (sectionName f i) (\<lambda>nm.
         if rodata_excluded nm then Inr None
         else mapE (\<lambda>bs. Some (sh_addralign s, bs)) (hread (mem f) (hbase (mem f) + sh_offset s) (unat (sh_size s))))
       else Inr None)"

lemma rodata_step_None:
  "rodata_section (elffile l) i = Inr None \<Longrightarrow> module_rodata_step i l = Inr l"
  by (auto simp: rodata_section_def module_rodata_step_def Let_def mapE_def bindE_def
      split: sum.splits if_splits)

lemma rodata_step_Some:
  "rodata_section (elffile l) i = Inr (Some (a, bs)) \<Longrightarrow>
     module_rodata_step i l = bindE (append_fill (roData l) (alignment_gap (of_nat (length (roData l))) a) 0)
       (\<lambda>r. Inr (l\<lparr>roData := r @ bs\<rparr>))"
  by (auto simp: rodata_section_def module_rodata_step_def Let_def mapE_def bindE_def
      split: sum.splits if_splits)

text \<open>An alignment makes the rounded size 0, and the missing padding the size below 2 to the 64.\<close>

lemma alignment_gap_unaligned [simp]: "alignment_gap n 0 = 0"
  by (simp add: alignment_gap_def)

lemma alignment_gap_aligned: "a \<noteq> 0 \<Longrightarrow> alignment_gap n a = - n"
  by (simp add: alignment_gap_def)

lemma aligned_append_fails:
  assumes "v \<noteq> []" and "a \<noteq> 0"
  shows "append_fill v (alignment_gap (of_nat (length v)) a) b = Inl LengthError"
proof -
  let ?n = "length v + unat (- (of_nat (length v) :: u64))"
  have "(of_nat ?n :: u64) = 0" by simp
  then have "(2 :: nat) ^ 64 dvd ?n" by (simp only: word_of_nat_eq_0_iff) simp
  moreover have "0 < ?n" using assms(1) by simp
  ultimately have "(2 :: nat) ^ 64 \<le> ?n" by (intro dvd_imp_le)
  with assms(2) show ?thesis by (simp add: alignment_gap_aligned append_fill_def max_vector_def)
qed

lemma rodata_step_cases:
  assumes "rodata_section (elffile l) i = Inr r"
  shows "module_rodata_step i l = Inl LengthError \<or>
    (\<exists>l'. module_rodata_step i l = Inr l' \<and> elffile l' = elffile l \<and> (roData l \<noteq> [] \<longrightarrow> roData l' \<noteq> []) \<and>
      (\<forall>a bs. r = Some (a, bs) \<longrightarrow> bs \<noteq> [] \<longrightarrow> roData l' \<noteq> []))"
proof (cases r)
  case None
  with assms show ?thesis by (auto simp: rodata_step_None)
next
  case (Some p)
  then obtain a bs where "r = Some (a, bs)" by (cases p) auto
  with assms show ?thesis
    by (auto simp: rodata_step_Some append_fill_def)
qed

lemma rodata_fold_cases:
  "\<forall>k \<in> set ks. \<exists>r. rodata_section (elffile l) k = Inr r \<Longrightarrow>
     foldE module_rodata_step ks l = Inl LengthError \<or>
     (\<exists>l'. foldE module_rodata_step ks l = Inr l' \<and> elffile l' = elffile l \<and> (roData l \<noteq> [] \<longrightarrow> roData l' \<noteq> []))"
proof (induction ks arbitrary: l)
  case (Cons k ks)
  from Cons.prems obtain r where "rodata_section (elffile l) k = Inr r" by auto
  from rodata_step_cases [OF this] show ?case
  proof (elim disjE exE conjE)
    fix l' assume l': "module_rodata_step k l = Inr l'" "elffile l' = elffile l"
      "roData l \<noteq> [] \<longrightarrow> roData l' \<noteq> []"
    from Cons.IH [of l'] Cons.prems l' show ?thesis by auto
  qed simp
qed simp

text \<open>C29: When the module has two sections of read-only data, the first not empty and the second with an
  alignment, loading its data ends with a length error, whatever else the file holds.\<close>

theorem module_rodata_length_error:
  assumes "located_section (me_instance env) (elffile l) ''.data'' = Inr data"
    and "located_section (me_instance env) (elffile l) ''.bss'' = Inr bss"
    and "located_section (me_instance env) (elffile l) ''.note.gnu.build-id'' = Inr note"
    and "ehdr (loader_mem l) = Inr e"
    and "\<forall>k < unat (e_shnum e). \<exists>r. rodata_section (elffile l) k = Inr r"
    and "i < j" and "j < unat (e_shnum e)"
    and "rodata_section (elffile l) i = Inr (Some (a, x))" and "x \<noteq> []"
    and "rodata_section (elffile l) j = Inr (Some (a', y))" and "a' \<noteq> 0"
  shows "ElfModuleLoader_initData env l = Inl LengthError"
proof -
  let ?n = "unat (e_shnum e)" and ?f = "foldE module_rodata_step"
  let ?l = "l\<lparr>dataSection := data, bssSection := bss, roDataSection := note\<rparr>"
  have split: "[0..<?n] = [0..<i] @ i # [Suc i..<j] @ j # [Suc j..<?n]"
    using assms(6,7) by (metis less_trans upt_conv_Cons upt_add_eq_append zero_le le_add_diff_inverse less_imp_le Suc_leI)
  have "?f [0..<?n] ?l = Inl LengthError"
  proof (cases "?f [0..<i] ?l")
    case (Inl er)
    with rodata_fold_cases [of "[0..<i]" ?l] assms(5-7) show ?thesis
      unfolding split foldE_append by auto
  next
    case (Inr l1)
    with rodata_fold_cases [of "[0..<i]" ?l] assms(5-7) have l1: "elffile l1 = elffile l" by auto
    with rodata_step_cases [of l1 i "Some (a, x)"] assms(8,9) consider
      "module_rodata_step i l1 = Inl LengthError"
      | l2 where "module_rodata_step i l1 = Inr l2" "elffile l2 = elffile l" "roData l2 \<noteq> []" by auto
    then show ?thesis
    proof cases
      case 1
      with Inr show ?thesis unfolding split foldE_append by simp
    next
      case 2
      with rodata_fold_cases [of "[Suc i..<j]" l2] assms(5,7) consider
        "?f [Suc i..<j] l2 = Inl LengthError"
        | l3 where "?f [Suc i..<j] l2 = Inr l3" "elffile l3 = elffile l" "roData l3 \<noteq> []" by auto
      then show ?thesis
      proof cases
        case 1
        with Inr 2(1) show ?thesis unfolding split foldE_append by (simp add: foldE_append)
      next
        case 3: 2
        with assms(10,11) have "module_rodata_step j l3 = Inl LengthError"
          by (simp add: rodata_step_Some aligned_append_fails)
        with Inr 2(1) 3(1) show ?thesis unfolding split foldE_append by (simp add: foldE_append)
      qed
    qed
  qed
  with assms(1-4) show ?thesis by (simp add: ElfModuleLoader_initData_def Let_def)
qed

section \<open>Examples\<close>

text \<open>
  A file of two headers in which the first header is also the file header and both describe the
  same four bytes of read-only data.
\<close>

definition ex_ro_shdr :: bytes where
  "ex_ro_shdr = to_le 4 (0 :: u32) @ to_le 4 SHT_PROGBITS @ to_le 8 SHF_ALLOC @ to_le 8 (0 :: u64) @
     to_le 8 (0 :: u64) @ to_le 8 (4 :: u64) @ to_le 8 (0 :: u64) @ to_le 8 (8 :: u64) @
     [0, 0, 0, 0, 2, 0, 0, 0]"

definition ex_named_section :: "string \<Rightarrow> SectionInfo" where
  "ex_named_section nm = SectionInfo_default\<lparr>si_name := nm, secID := 1\<rparr>"

definition ex_module_file :: "bytes \<Rightarrow> SectionInfo list \<Rightarrow> ElfFile64" where
  "ex_module_file bs secs = \<lparr>mem = \<lparr>hbase = 0x10000, hbytes = bs\<rparr>, shstrindex = 0, sections = secs,
     segments = [], section_ids = Map.empty,
     section_names = map_of (zip (map si_name secs) [0..<length secs]), symbolCount = 0\<rparr>"

definition ex_module_loader :: "ElfFile64 \<Rightarrow> ElfLoader" where
  "ex_module_loader f = \<lparr>elffile = f, textSegment = SectionInfo_default, dataSection = SectionInfo_default,
     bssSection = SectionInfo_default, roDataSection = SectionInfo_default, jumpTable = [], roData = [],
     textSegmentContent = [], dataSegmentContent = []\<rparr>"

definition ex_ro_file :: ElfFile64 where
  "ex_ro_file = ex_module_file (ex_ro_shdr @ ex_ro_shdr)
     (map ex_named_section [''.data'', ''.bss'', ''.note.gnu.build-id''])"

definition ex_modload_env :: modload_env where
  "ex_modload_env = \<lparr>me_instance = Inr \<lparr>mi_size = 0x180, mi_address = 0xffffffffa0002000,
       mi_gpl_syms = 0, mi_nsections = 1, mi_attr = (\<lambda>_. (''.data'', 0xffffffffa0003000))\<rparr>,
     me_percpu = Inr 0, me_symbol = (\<lambda>_. 0), me_paravirt = undefined, me_caps = None,
     me_native = (\<lambda>_. []), me_insnbuf = []\<rparr>"

lemma ex_ro_located:
  "located_section (me_instance ex_modload_env) ex_ro_file ''.data'' =
     Inr ((ex_named_section ''.data'')\<lparr>memindex := 0xffffffffa0003000\<rparr>)"
  "located_section (me_instance ex_modload_env) ex_ro_file ''.bss'' =
     Inr ((ex_named_section ''.bss'')\<lparr>memindex := 0xffffffffa0002180\<rparr>)"
  "located_section (me_instance ex_modload_env) ex_ro_file ''.note.gnu.build-id'' =
     Inr (ex_named_section ''.note.gnu.build-id'')"
  by code_simp+

lemma ex_ro_sections:
  "rodata_section ex_ro_file 0 = Inr (Some (8, [0, 0, 0, 0]))"
  "rodata_section ex_ro_file 1 = Inr (Some (8, [0, 0, 0, 0]))"
  by code_simp+

lemma ex_ro_ehdr: "\<exists>e. ehdr (mem ex_ro_file) = Inr e \<and> unat (e_shnum e) = 2"
proof -
  have "mapE (\<lambda>e. unat (e_shnum e)) (ehdr (mem ex_ro_file)) = Inr 2" by code_simp
  then show ?thesis by (auto simp: mapE_def)
qed

theorem module_rodata_length_error_witness:
  "ElfModuleLoader_initData ex_modload_env (ex_module_loader ex_ro_file) = Inl LengthError"
proof -
  obtain e where e: "ehdr (mem ex_ro_file) = Inr e" "unat (e_shnum e) = 2" using ex_ro_ehdr by blast
  have f: "elffile (ex_module_loader ex_ro_file) = ex_ro_file" by (simp add: ex_module_loader_def)
  have all: "\<forall>k < unat (e_shnum e). \<exists>r. rodata_section ex_ro_file k = Inr r"
    using ex_ro_sections by (auto simp: e(2) less_2_cases_iff)
  show ?thesis
    by (rule module_rodata_length_error [where l = "ex_module_loader ex_ro_file", unfolded f,
          OF ex_ro_located e(1) all _ _ ex_ro_sections(1) _ ex_ro_sections(2)])
      (simp_all add: e(2))
qed

definition ex_modinfo :: bytes where
  "ex_modinfo = concat (map c_bytes ([''license=GPL'', ''''] @
     (''depends='' @ join_commas [''snd'', ''soundcore'']) # [''vermagic=3'']))"

definition ex_modinfo_section :: SectionInfo where
  "ex_modinfo_section = \<lparr>si_name = ''.modinfo'', secID = 1, si_offset = 0, si_index = 0x10000, memindex = 0,
     si_size = 46, si_flags = 0\<rparr>"

theorem loadDependencies_roundtrip_witness:
  "\<exists>l'. loadDependencies (ex_module_loader (ex_module_file ex_modinfo [ex_modinfo_section])) =
     Inr ([''snd'', ''soundcore''], l')"
proof -
  let ?l = "ex_module_loader (ex_module_file ex_modinfo [ex_modinfo_section])"
  have s: "findSectionWithName (elffile ?l) ''.modinfo'' = Inr ex_modinfo_section" by code_simp
  have z: "si_index ex_modinfo_section \<noteq> 0" by code_simp
  have r: "hread (loader_mem ?l) (si_index ex_modinfo_section) (unat (si_size ex_modinfo_section)) =
      Inr (concat (map c_bytes ([''license=GPL'', ''''] @
        (''depends='' @ join_commas [''snd'', ''soundcore'']) # [''vermagic=3''])))" by code_simp
  have b: "\<forall>s \<in> set [''license=GPL'', '''']. no_nul s \<and> take 7 s \<noteq> ''depends''"
    by (simp add: no_nul_def u8_of_char_def)
  have n: "list_all dep_name [''snd'', ''soundcore'']"
    by (simp add: dep_name_def no_nul_def u8_of_char_def)
  from loadDependencies_roundtrip [OF s z r b n] show ?thesis by blast
qed

end
