(* ===== verification/CodeValidator.thy ===== *)
theory CodeValidator
  imports KernelLoader
begin

text \<open>
  The code half of \<^verbatim>\<open>src/kernelvalidator.cpp\<close>: a page of the guest's code is compared
  with the loaded image; a difference is accepted when one of the patches a kernel applies to itself
  explains it (\<open>excuse\<close>), the first other difference is reported and ends the check.

  The page and the guest's memory come from libvmiwrapper, another repository: \<open>page_info\<close>
  holds what the code reads of a page, the page's content is the argument \<open>pm\<close>.
\<close>

section \<open>Comparing memory\<close>

text \<open>
  \<^verbatim>\<open>memcmp(a, b, n) == 0\<close>: the first difference decides; without one the comparison
  reads on, past the end of a buffer that is too short.
\<close>

fun mem_eq :: "bytes \<Rightarrow> bytes \<Rightarrow> nat \<Rightarrow> bool res" where
  "mem_eq a b 0 = Inr True"
| "mem_eq (x # a) (y # b) (Suc n) = (if x = y then mem_eq a b n else Inr False)"
| "mem_eq [] b (Suc n) = Inl OutOfBounds"
| "mem_eq (x # a) [] (Suc n) = Inl OutOfBounds"

lemma mem_eq_True_iff: "mem_eq a b n = Inr True \<longleftrightarrow> n \<le> length a \<and> n \<le> length b \<and> take n a = take n b"
  by (induction a b n rule: mem_eq.induct) auto

lemma mem_eq_same: "n \<le> length a \<Longrightarrow> mem_eq a a n = Inr True"
  by (simp add: mem_eq_True_iff)

text \<open>The five bytes from index \<open>i\<close> on are entry \<open>k\<close> of the nop table in use.\<close>

definition nop_at :: "ParavirtState \<Rightarrow> nat \<Rightarrow> bytes \<Rightarrow> nat \<Rightarrow> bool res" where
  "nop_at st k pm i =
     bindE (deref (ideal_nops st)) (\<lambda>t. bindE (nop_read t k 5) (\<lambda>x. mem_eq (drop i pm) x 5))"

definition byte_of :: "bytes \<Rightarrow> nat \<Rightarrow> u8 res" where
  "byte_of b i = (if i < length b then Inr (b ! i) else Inl OutOfBounds)"

section \<open>Jump labels\<close>

definition isValidJmpLabel ::
  "ParavirtState \<Rightarrow> bytes \<Rightarrow> u64 \<Rightarrow> nat \<Rightarrow> 'a ElfKernelspaceLoader_scheme \<Rightarrow> bool res" where
  "isValidJmpLabel st pageInMem codeAddress i elf =
     (case map_of (jumpEntries elf) codeAddress of
        None \<Rightarrow> Inr False
      | Some dest \<Rightarrow>
          bindE (orE (nop_at st 5 pageInMem i) (nop_at st 9 pageInMem i)) (\<lambda>disabled.
            if disabled then Inr True
            else bindE (bread pageInMem (i + 1) 4) (\<lambda>d.
              bindE (byte_of pageInMem i) (\<lambda>b. Inr (b = 0xe9 \<and> dest = of_le d)))))"

section \<open>What explains a difference\<close>

text \<open>
  The fixed data of one page check: patch state, loader and its kind, the kernel's
  \<^verbatim>\<open>copy_user_generic_unrolled\<close>, the offset of the page in the text, the loaded bytes
  from there on and the page's bytes in the guest.
\<close>

record code_page =
  cp_state :: ParavirtState
  cp_kind :: loader_kind
  cp_elf :: ElfKernelspaceLoader
  cp_generic :: u64
  cp_offset :: u32
  cp_loaded :: bytes
  cp_mem :: bytes

definition code_address :: "code_page \<Rightarrow> nat \<Rightarrow> u64" where
  "code_address c i = memindex (textSegment (cp_elf c)) + ucast (cp_offset c) + of_nat i"

text \<open>\<open>Some k\<close>: explained, and \<open>k\<close> further bytes are skipped.\<close>

definition skip_if :: "bool res \<Rightarrow> nat \<Rightarrow> nat option res" where
  "skip_if b k = mapE (\<lambda>x. if x then Some k else None) b"

definition else_try :: "nat option res \<Rightarrow> nat option res \<Rightarrow> nat option res" where
  "else_try a b = bindE a (\<lambda>x. case x of Some k \<Rightarrow> Inr (Some k) | None \<Rightarrow> b)"

definition in_hypercall_page :: "u64 \<Rightarrow> bool" where
  "in_hypercall_page a \<longleftrightarrow> a AND 0xfffffffffffff000 = 0xffffffff81001000"

definition atomic_nop :: "code_page \<Rightarrow> nat \<Rightarrow> bool res" where
  "atomic_nop c i =
     andE (Inr (1 < i)) (andE (nop_at (cp_state c) 5 (cp_loaded c) (i - 2))
       (nop_at (cp_state c) 9 (cp_mem c) (i - 2)))"

definition split_nop :: "nat \<Rightarrow> u8 \<Rightarrow> u8 \<Rightarrow> bool" where
  "split_nop i l m \<longleftrightarrow> i \<le> 1 \<and> ((l = 0x66 \<and> m = 0x90) \<or> (l = 0x90 \<and> m = 0x66))"

definition ftrace_nop :: "code_page \<Rightarrow> nat \<Rightarrow> bool res" where
  "ftrace_nop c i =
     andE (mem_eq (drop i (cp_loaded c)) [0x0f, 0x1f, 0x44, 0x00, 0x00] 5)
       (mem_eq (drop i (cp_mem c)) [0x66, 0x66, 0x66, 0x66, 0x90] 5)"

text \<open>
  The call whose opcode is the byte before: the displacement is read from the byte after the first
  differing one and taken as unsigned.
\<close>

definition generic_call :: "code_page \<Rightarrow> nat \<Rightarrow> bool res" where
  "generic_call c i =
     bindE (andE (Inr (0 < i)) (mapE (\<lambda>b. b = 0xe8) (byte_of (cp_loaded c) (i - 1)))) (\<lambda>call.
       if \<not> call then Inr False
       else bindE (bread (cp_loaded c) (i + 1) 4) (\<lambda>d.
         let elfDestAddress = code_address c i + ucast (of_le d :: u32) + 5 in
         case cp_kind c of
           KernelLoader \<Rightarrow> Inr (cp_generic c = elfDestAddress)
         | ModuleLoader \<Rightarrow> bindE (bread (cp_mem c) (i + 1) 4) (\<lambda>_. Inr False)))"

definition smp_lock :: "code_page \<Rightarrow> nat \<Rightarrow> u8 \<Rightarrow> u8 \<Rightarrow> bool" where
  "smp_lock c i l m \<longleftrightarrow>
     ((l = 0x3e \<and> m = 0xf0) \<or> (l = 0xf0 \<and> m = 0x3e)) \<and>
     ucast (of_nat i + cp_offset c) \<in> smpOffsets (cp_elf c)"

definition empty_jump :: "code_page \<Rightarrow> nat \<Rightarrow> bool res" where
  "empty_jump c i =
     andE (mem_eq (drop i (cp_loaded c)) [0xe9, 0, 0, 0, 0] 5) (nop_at (cp_state c) 9 (cp_mem c) i)"

definition excuse :: "code_page \<Rightarrow> nat \<Rightarrow> u8 \<Rightarrow> u8 \<Rightarrow> nat option res" where
  "excuse c i l m =
     (if in_hypercall_page (code_address c i) then Inr (Some 0)
      else else_try (skip_if (atomic_nop c i) 5)
        (else_try (skip_if (Inr (split_nop i l m)) 0)
        (else_try (skip_if (ftrace_nop c i) 5)
        (else_try (skip_if (isValidJmpLabel (cp_state c) (cp_mem c) (code_address c i) i (cp_elf c)) 5)
        (else_try (skip_if (generic_call c i) 4)
        (else_try (skip_if (Inr (smp_lock c i l m)) 0)
          (skip_if (empty_jump c i) 5)))))))"

section \<open>The page\<close>

datatype code_verdict =
    CodeIntact
  | CodeUninitialised u64
  | CodeChanged u64 change

datatype code_outcome = Skip nat | Done code_verdict

definition beyond_content :: "code_page \<Rightarrow> nat \<Rightarrow> bool" where
  "beyond_content c i \<longleftrightarrow>
     cp_kind c = KernelLoader \<and>
     sint (ucast (of_nat (length (textSegmentContent (cp_elf c))) - ucast (cp_offset c) :: u64) :: u32)
       \<le> int i"

text \<open>Only the first byte of a run of differences is examined.\<close>

definition code_step :: "code_page \<Rightarrow> nat \<Rightarrow> nat \<Rightarrow> code_outcome res" where
  "code_step c n i =
     bindE (byte_of (cp_loaded c) i) (\<lambda>l.
     bindE (byte_of (cp_mem c) i) (\<lambda>m.
       if l = m then Inr (Skip 0)
       else if 0 < i \<and> cp_loaded c ! (i - 1) \<noteq> cp_mem c ! (i - 1) then Inr (Skip 0)
       else bindE (excuse c i l m) (\<lambda>e.
         case e of
           Some k \<Rightarrow> Inr (Skip k)
         | None \<Rightarrow>
             if beyond_content c i then Inr (Done (CodeUninitialised (code_address c i)))
             else mapE (\<lambda>d. Done (CodeChanged (code_address c i) d))
               (displayChange (cp_mem c) (cp_loaded c) (int i) (int n)))))"

text \<open>The loop: the position grows by one and what the step skips.\<close>

function code_loop :: "(nat \<Rightarrow> code_outcome res) \<Rightarrow> nat \<Rightarrow> nat \<Rightarrow> code_verdict res" where
  "code_loop step n i =
     (if i < n
      then bindE (step i) (\<lambda>r. case r of Skip k \<Rightarrow> code_loop step n (i + Suc k) | Done v \<Rightarrow> Inr v)
      else Inr CodeIntact)"
  by pat_completeness auto
termination
  by (relation "measure (\<lambda>(step, n, i). n - i)") auto

declare code_loop.simps [simp del]

record page_info =
  vaddr :: u64
  pg_size :: u32

definition page_offset :: "page_info \<Rightarrow> 'a ElfLoader_scheme \<Rightarrow> u32" where
  "page_offset page elf = ucast (vaddr page - (memindex (textSegment elf) AND 0xffffffffffff))"

definition page_setup ::
  "ParavirtState \<Rightarrow> u64 \<Rightarrow> page_info \<Rightarrow> found_loader \<Rightarrow> bytes \<Rightarrow> code_page" where
  "page_setup st generic page f pm =
     (let elf = fl_loader f; off = page_offset page elf in
      \<lparr>cp_state = st, cp_kind = fl_kind f, cp_elf = elf, cp_generic = generic, cp_offset = off,
       cp_loaded = drop (unat off) (textSegmentContent elf), cp_mem = pm\<rparr>)"

definition validateCodePage ::
  "ParavirtState \<Rightarrow> u64 \<Rightarrow> page_info \<Rightarrow> found_loader \<Rightarrow> bytes \<Rightarrow> code_verdict res" where
  "validateCodePage st generic page f pm =
     bindE (assertE (unat (page_offset page (fl_loader f)) \<le> length (textSegmentContent (fl_loader f)))) (\<lambda>_.
       code_loop (code_step (page_setup st generic page f pm) (unat (pg_size page)))
         (unat (pg_size page)) 0)"

section \<open>The positions the loop looks at\<close>

inductive visited :: "(nat \<Rightarrow> code_outcome res) \<Rightarrow> nat \<Rightarrow> nat \<Rightarrow> nat \<Rightarrow> bool"
  for step :: "nat \<Rightarrow> code_outcome res" and n :: nat where
  visited_here: "visited step n i i"
| visited_step: "i < n \<Longrightarrow> step i = Inr (Skip k) \<Longrightarrow> visited step n (i + Suc k) j \<Longrightarrow> visited step n i j"

inductive_cases visitedE: "visited step n i j"

lemma visited_trans: "visited step n i j \<Longrightarrow> visited step n j l \<Longrightarrow> visited step n i l"
  by (induction rule: visited.induct) (auto intro: visited.intros)

text \<open>
  A loop that ends without a finding has visited every position, or skipped it from a visited one.
\<close>

lemma code_loop_covers:
  "code_loop step n i = Inr CodeIntact \<Longrightarrow> (\<forall>k. step k \<noteq> Inr (Done CodeIntact)) \<Longrightarrow>
   i \<le> j \<Longrightarrow> j < n \<Longrightarrow>
   (visited step n i j \<and> (\<exists>k. step j = Inr (Skip k))) \<or>
   (\<exists>p k. visited step n i p \<and> step p = Inr (Skip k) \<and> p < j \<and> j \<le> p + k)"
proof (induction step n i rule: code_loop.induct)
  case (1 step n i)
  from 1(2,4,5) obtain r where r: "step i = Inr r"
    by (subst (asm) code_loop.simps) (auto split: if_splits)
  show ?case
  proof (cases r)
    case (Done v)
    with 1(2,3,4,5) r show ?thesis by (subst (asm) code_loop.simps) auto
  next
    case (Skip k)
    have i: "i < n" using 1(4,5) by simp
    have rest: "code_loop step n (i + Suc k) = Inr CodeIntact"
      using 1(2) r Skip i by (subst (asm) code_loop.simps) simp
    consider "j = i" | "i < j" "j \<le> i + k" | "i + Suc k \<le> j" using 1(4) by linarith
    then show ?thesis
    proof cases
      case 1
      then show ?thesis using r Skip by (auto intro: visited_here)
    next
      case 2
      then show ?thesis using r Skip by (blast intro: visited_here)
    next
      case 3
      have st: "visited step n i q" if "visited step n (i + Suc k) q" for q
        using that i r Skip by (auto intro: visited_step)
      from 1(1) [OF i r Skip rest 1(3) 3 1(5)] show ?thesis using st by blast
    qed
  qed
qed

section \<open>What an accepted page is\<close>

text \<open>The first byte of a run of differences, and a difference that a known patch explains.\<close>

definition first_difference :: "code_page \<Rightarrow> nat \<Rightarrow> bool" where
  "first_difference c i \<longleftrightarrow>
     cp_loaded c ! i \<noteq> cp_mem c ! i \<and> (0 < i \<longrightarrow> cp_loaded c ! (i - 1) = cp_mem c ! (i - 1))"

definition explained :: "code_page \<Rightarrow> nat \<Rightarrow> nat \<Rightarrow> bool" where
  "explained c i k \<longleftrightarrow> excuse c i (cp_loaded c ! i) (cp_mem c ! i) = Inr (Some k)"

lemma byte_of_Inr [simp]: "byte_of b i = Inr x \<longleftrightarrow> i < length b \<and> x = b ! i"
  by (auto simp: byte_of_def)

lemma code_step_Skip:
  assumes "code_step c n i = Inr (Skip k)"
  shows "\<not> first_difference c i \<and> k = 0 \<or> first_difference c i \<and> explained c i k"
  using assms
  by (auto simp: code_step_def first_difference_def explained_def mapE_def
      split: if_splits option.splits)

lemma code_step_no_intact: "code_step c n i \<noteq> Inr (Done CodeIntact)"
  by (auto simp: code_step_def mapE_def bindE_Inr_iff split: if_splits option.splits)

lemma code_step_Done:
  assumes "code_step c n i = Inr (Done v)"
  shows "first_difference c i \<and> excuse c i (cp_loaded c ! i) (cp_mem c ! i) = Inr None \<and>
    (v = CodeUninitialised (code_address c i) \<or>
     (\<exists>d. v = CodeChanged (code_address c i) d \<and>
        displayChange (cp_mem c) (cp_loaded c) (int i) (int n) = Inr d))"
  using assms
  by (auto simp: code_step_def first_difference_def mapE_def split: if_splits option.splits)

text \<open>C1: When a code page is accepted, every run of differing bytes in it starts with a byte that one
  of the known self-patches of the kernel explains, or lies in the stretch that such a patch found
  before it made the loop skip.\<close>

theorem intact_page_explained:
  assumes "validateCodePage st generic page f pm = Inr CodeIntact"
    and "j < unat (pg_size page)"
    and "first_difference (page_setup st generic page f pm) j"
  shows "(\<exists>k. explained (page_setup st generic page f pm) j k) \<or>
    (\<exists>p k. p < j \<and> j \<le> p + k \<and> first_difference (page_setup st generic page f pm) p \<and>
       explained (page_setup st generic page f pm) p k)"
proof -
  let ?c = "page_setup st generic page f pm" and ?n = "unat (pg_size page)"
  have "code_loop (code_step ?c ?n) ?n 0 = Inr CodeIntact"
    using assms(1) by (auto simp: validateCodePage_def)
  from code_loop_covers [OF this _ _ assms(2)] code_step_no_intact
  consider k where "code_step ?c ?n j = Inr (Skip k)"
    | p k where "code_step ?c ?n p = Inr (Skip k)" "p < j" "j \<le> p + k" by blast
  then show ?thesis
  proof cases
    case 1
    from code_step_Skip [OF this] assms(3) show ?thesis by auto
  next
    case 2
    from code_step_Skip [OF 2(1)] 2(2,3) show ?thesis by fastforce
  qed
qed

lemma code_loop_Done:
  "code_loop step n i = Inr v \<Longrightarrow> v \<noteq> CodeIntact \<Longrightarrow> \<exists>j < n. step j = Inr (Done v)"
proof (induction step n i rule: code_loop.induct)
  case (1 step n i)
  show ?case
  proof (cases "i < n")
    case False
    with 1(2,3) show ?thesis by (subst (asm) code_loop.simps) simp
  next
    case True
    with 1(2) obtain r where r: "step i = Inr r"
      by (subst (asm) code_loop.simps) auto
    show ?thesis
    proof (cases r)
      case (Skip k)
      then show ?thesis using 1(1) [OF True r Skip] 1(2,3) True r
        by (subst (asm) (2) code_loop.simps) simp
    next
      case (Done w)
      then show ?thesis using 1(2) True r by (subst (asm) code_loop.simps) auto
    qed
  qed
qed

text \<open>C2: A reported change is a real one: the address is that of a byte of the page that differs from
  the loaded image and that no known patch explains. The report's wording is exchanged, though: the byte
  it says the page \<^verbatim>\<open>is\<close> is the loaded one, the one it \<^verbatim>\<open>should be\<close> is
  the guest's.\<close>

theorem reported_change_is_real:
  assumes "validateCodePage st generic page f pm = Inr (CodeChanged a d)"
  shows "\<exists>i < unat (pg_size page).
    a = code_address (page_setup st generic page f pm) i \<and>
    first_difference (page_setup st generic page f pm) i \<and>
    (\<forall>k. \<not> explained (page_setup st generic page f pm) i k) \<and>
    ch_offset d = int i \<and> ch_should d = pm ! i \<and>
    ch_is d = cp_loaded (page_setup st generic page f pm) ! i"
proof -
  let ?c = "page_setup st generic page f pm" and ?n = "unat (pg_size page)"
  have "code_loop (code_step ?c ?n) ?n 0 = Inr (CodeChanged a d)"
    using assms by (auto simp: validateCodePage_def)
  then obtain i where i: "i < ?n" "code_step ?c ?n i = Inr (Done (CodeChanged a d))"
    using code_loop_Done by blast
  from code_step_Done [OF i(2)] have "first_difference ?c i"
    "excuse ?c i (cp_loaded ?c ! i) (cp_mem ?c ! i) = Inr None" "a = code_address ?c i"
    and "displayChange (cp_mem ?c) (cp_loaded ?c) (int i) (int ?n) = Inr d" by auto
  moreover from this(4) have "ch_offset d = int i \<and> ch_should d = cp_mem ?c ! i \<and> ch_is d = cp_loaded ?c ! i"
    by (auto simp: displayChange_def byte_at_def split: if_splits)
  ultimately show ?thesis
    using i(1) by (auto simp: explained_def page_setup_def Let_def intro!: exI [of _ i])
qed

section \<open>Pages that are accepted\<close>

text \<open>Every step from a position on skips: the loop ends without a finding.\<close>

lemma code_loop_all_skip:
  "(\<And>j. i \<le> j \<Longrightarrow> j < n \<Longrightarrow> \<exists>k. step j = Inr (Skip k)) \<Longrightarrow> code_loop step n i = Inr CodeIntact"
proof (induction step n i rule: code_loop.induct)
  case (1 step n i)
  show ?case
  proof (cases "i < n")
    case True
    then obtain k where k: "step i = Inr (Skip k)" using 1(2) [of i] by auto
    have "code_loop step n (i + Suc k) = Inr CodeIntact"
      using 1(1) [OF True k refl] 1(2) by auto
    with k True show ?thesis by (subst code_loop.simps) simp
  qed (subst code_loop.simps, simp)
qed

lemma code_step_equal:
  "j < length (cp_loaded c) \<Longrightarrow> j < length (cp_mem c) \<Longrightarrow> cp_loaded c ! j = cp_mem c ! j \<Longrightarrow>
     code_step c n j = Inr (Skip 0)"
  by (simp add: code_step_def byte_of_def)

lemma code_step_after_difference:
  "j < length (cp_loaded c) \<Longrightarrow> j < length (cp_mem c) \<Longrightarrow> 0 < j \<Longrightarrow>
     cp_loaded c ! (j - 1) \<noteq> cp_mem c ! (j - 1) \<Longrightarrow> code_step c n j = Inr (Skip 0)"
  by (simp add: code_step_def byte_of_def)

lemma code_step_explained:
  "j < length (cp_loaded c) \<Longrightarrow> j < length (cp_mem c) \<Longrightarrow> first_difference c j \<Longrightarrow> explained c j k \<Longrightarrow>
     code_step c n j = Inr (Skip k)"
  by (auto simp: code_step_def byte_of_def first_difference_def explained_def)

lemma code_step_skips:
  assumes len: "j < length (cp_loaded c)" "j < length (cp_mem c)"
    and "first_difference c j \<Longrightarrow> \<exists>k. explained c j k"
  shows "\<exists>k. code_step c n j = Inr (Skip k)"
proof -
  consider "cp_loaded c ! j = cp_mem c ! j" | "first_difference c j"
    | "0 < j" "cp_loaded c ! (j - 1) \<noteq> cp_mem c ! (j - 1)"
    by (auto simp: first_difference_def)
  then show ?thesis
    using code_step_equal [OF len] code_step_after_difference [OF len] code_step_explained [OF len]
      assms(3) by cases metis+
qed

text \<open>A page whose bytes are those of the loaded image is accepted, whatever the patch tables.\<close>

theorem identical_page_intact:
  assumes "unat (page_offset page (fl_loader f)) + unat (pg_size page) \<le>
      length (textSegmentContent (fl_loader f))"
    and "pm = take (unat (pg_size page))
      (drop (unat (page_offset page (fl_loader f))) (textSegmentContent (fl_loader f)))"
  shows "validateCodePage st generic page f pm = Inr CodeIntact"
proof -
  let ?c = "page_setup st generic page f pm" and ?n = "unat (pg_size page)"
  have "code_step ?c ?n j = Inr (Skip 0)" if "j < ?n" for j
    using that assms by (intro code_step_equal) (simp_all add: page_setup_def Let_def)
  then have "code_loop (code_step ?c ?n) ?n 0 = Inr CodeIntact"
    by (intro code_loop_all_skip) auto
  with assms(1) show ?thesis by (simp add: validateCodePage_def)
qed

text \<open>The hypercall page is never checked: any content of it is accepted.\<close>

theorem hypercall_page_unchecked:
  assumes "unat (page_offset page (fl_loader f)) + unat (pg_size page) \<le>
      length (textSegmentContent (fl_loader f))"
    and "length pm = unat (pg_size page)"
    and "\<forall>i < unat (pg_size page). in_hypercall_page (code_address (page_setup st generic page f pm) i)"
  shows "validateCodePage st generic page f pm = Inr CodeIntact"
proof -
  let ?c = "page_setup st generic page f pm" and ?n = "unat (pg_size page)"
  have "\<exists>k. code_step ?c ?n j = Inr (Skip k)" if j: "j < ?n" for j
  proof -
    have len: "j < length (cp_loaded ?c)" "j < length (cp_mem ?c)"
      using j assms(1,2) by (simp_all add: page_setup_def Let_def)
    have "explained ?c j 0" using assms(3) j by (simp add: explained_def excuse_def)
    then show ?thesis using code_step_skips [OF len] by blast
  qed
  then have "code_loop (code_step ?c ?n) ?n 0 = Inr CodeIntact"
    by (intro code_loop_all_skip) auto
  with assms(1) show ?thesis by (simp add: validateCodePage_def)
qed

text \<open>
  Behind an explained byte the rest of its run of differences is not examined.
\<close>

lemma run_behind_skip:
  assumes "first_difference c i" and "explained c i 0" and "i < n"
    and "n \<le> length (cp_loaded c)" and "n \<le> length (cp_mem c)"
    and "\<forall>j. i < j \<and> j < n \<longrightarrow> cp_loaded c ! j \<noteq> cp_mem c ! j"
  shows "code_loop (code_step c n) n i = Inr CodeIntact"
proof (rule code_loop_all_skip)
  fix j assume j: "i \<le> j" "j < n"
  then have len: "j < length (cp_loaded c)" "j < length (cp_mem c)" using assms(4,5) by auto
  show "\<exists>k. code_step c n j = Inr (Skip k)"
  proof (cases "j = i")
    case True
    then show ?thesis using code_step_explained [OF len] assms(1,2) by auto
  next
    case False
    have "cp_loaded c ! (j - 1) \<noteq> cp_mem c ! (j - 1)"
      using False j assms(1) assms(6) [rule_format, of "j - 1"]
      by (cases "j - 1 = i") (simp_all add: first_difference_def, linarith)
    then show ?thesis using code_step_after_difference [OF len] False j by auto
  qed
qed

section \<open>Jump labels and the image the loader built\<close>

definition nop5 :: "nops \<Rightarrow> nat \<Rightarrow> bytes" where
  "nop5 t k = (case nop_read t k 5 of Inr x \<Rightarrow> x | Inl _ \<Rightarrow> [])"

lemma nop5_read: "kernel_nops t \<Longrightarrow> k \<in> {5, 9} \<Longrightarrow> nop_read t k 5 = Inr (nop5 t k) \<and> length (nop5 t k) = 5"
  by (auto simp: kernel_nops_def nop5_def nop_read_def p6_nops_def k8_nops_def nop_offsets_def
      p6nops_def k8nops_def bread_def)

lemma mem_eq_drop:
  assumes "i + 5 \<le> length pm" and "length x = 5"
  shows "mem_eq (drop i pm) x 5 = Inr (take 5 (drop i pm) = x)"
proof -
  have "mem_eq a x n \<noteq> Inl e" if "n \<le> length a" "n \<le> length x" for a x n e
    using that by (induction a x n rule: mem_eq.induct) auto
  then have "\<exists>b. mem_eq (drop i pm) x 5 = Inr b"
    using assms by (cases "mem_eq (drop i pm) x 5") auto
  then show ?thesis
    using mem_eq_True_iff [of "drop i pm" x 5] assms by (auto simp: le_diff_conv)
qed

lemma bytes5:
  assumes "i + 5 \<le> length pm"
  shows "take 5 (drop i pm) = b # to_le 4 (d :: u32) \<longleftrightarrow>
    pm ! i = b \<and> of_le (take 4 (drop (i + 1) pm)) = d"
proof -
  have "drop i pm = pm ! i # drop (i + 1) pm"
    using assms by (simp add: Cons_nth_drop_Suc)
  then have "take 5 (drop i pm) = pm ! i # take 4 (drop (i + 1) pm)" by (simp add: numeral_eq_Suc)
  moreover have "take 4 (drop (i + 1) pm) = to_le 4 d \<longleftrightarrow> of_le (take 4 (drop (i + 1) pm)) = d"
    using to_le_of_le [of "take 4 (drop (i + 1) pm)" 4, where 'a = 32] of_le_to_le [of 4 d] assms by auto
  ultimately show ?thesis by auto
qed

text \<open>At a page position with five bytes left, a jump label is valid exactly when its address was
  recorded and the bytes are one of the two five-byte nops of the table or the jump with the recorded
  displacement.\<close>

lemma isValidJmpLabel_iff:
  assumes "ideal_nops st = Some t" and "kernel_nops t" and "i + 5 \<le> length pm"
  shows "isValidJmpLabel st pm a i elf = Inr
    (\<exists>dest. map_of (jumpEntries elf) a = Some dest \<and>
      take 5 (drop i pm) \<in> {nop5 t 5, nop5 t 9, 0xe9 # to_le 4 dest})"
proof (cases "map_of (jumpEntries elf) a")
  case None
  then show ?thesis by (simp add: isValidJmpLabel_def)
next
  case (Some dest)
  have nop: "nop_at st k pm i = Inr (take 5 (drop i pm) = nop5 t k)" if "k \<in> {5, 9}" for k
    using nop5_read [OF assms(2) that] mem_eq_drop [OF assms(3)]
    by (simp add: nop_at_def deref_def assms(1))
  have b: "bread pm (Suc i) 4 = Inr (take 4 (drop (Suc i) pm))" "byte_of pm i = Inr (pm ! i)"
    using assms(3) by (simp_all add: bread_def)
  show ?thesis
    using bytes5 [OF assms(3), of "0xe9" dest] nop [of 5] nop [of 9]
    by (auto simp: isValidJmpLabel_def Some b orE_def)
qed

text \<open>C3: The code a jump label gets when it is patched for the guest's key, enabled or disabled, is
  accepted by the validator at that label's recorded address: the loader's patching and the
  validator's check agree on both states of every label.\<close>

theorem patched_label_valid:
  assumes "ideal_nops st = Some t" and "kernel_nops t"
    and "patch_jump_label st enabled e l = Inr l'"
    and "map_of (jumpEntries elf) (je_code e) = Some (jump_destination e)"
    and "i = unat (je_code e - memindex (textSegment l))"
  shows "isValidJmpLabel st (textSegmentContent l') (je_code e) i elf = Inr True"
proof -
  let ?b = "if enabled then 0xe9 # to_le 4 (jump_destination e) else nop5 t 5"
  let ?c = "textSegmentContent l"
  have l5: "length ?b = 5" using nop5_read [OF assms(2), of 5] by simp
  have fill: "nop_fill (nop_of t) 5 = nop5 t 5"
  proof -
    have "nop_of t 5 = nop5 t 5" by (simp add: nop_of_def nop5_def)
    then show ?thesis
      by (simp add: nop_fill.simps [of _ 5] nop_fill.simps [of _ 0] ASM_NOP_MAX_def)
  qed
  have w: "bwrite ?c i ?b = Inr (textSegmentContent l')"
  proof (cases enabled)
    case True
    with assms(3) have r: "bindE (bwrite ?c i [0xe9]) (\<lambda>c. bwrite c (i + 1) (to_le 4 (jump_destination e)))
        = Inr (textSegmentContent l')"
      by (auto simp: patch_jump_label_def Let_def mapE_def assms(5) [symmetric])
    then have "i + 1 + 4 \<le> length ?c" by (auto simp: bwrite_Inr_iff)
    with r bwrite_append [of i "[0xe9]" "to_le 4 (jump_destination e)" ?c] True show ?thesis by simp
  next
    case False
    with assms(3) have r: "add_nops t ?c i 5 = Inr (textSegmentContent l')"
      by (auto simp: patch_jump_label_def Let_def mapE_def assms(5) [symmetric] patcher_nops_def
          deref_def assms(1))
    then obtain x where "nop_read t 5 5 = Inr x" "i + length x \<le> length ?c"
      by (subst (asm) add_nops.simps) (auto simp: ASM_NOP_MAX_def Let_def bwrite_Inr_iff)
    with nop5_read [OF assms(2), of 5] have "i + unat (5 :: u8) \<le> length ?c" by simp
    from add_nops_spec [OF assms(2) this] r fill False show ?thesis by simp
  qed
  then have "i + 5 \<le> length (textSegmentContent l')"
    using length_bwrite [OF w] l5 by (auto simp: bwrite_Inr_iff)
  moreover have "take 5 (drop i (textSegmentContent l')) = ?b"
    using bread_bwrite_same [OF w] l5 by (simp add: bread_Inr_iff)
  ultimately show ?thesis
    by (subst isValidJmpLabel_iff [OF assms(1,2)]) (simp_all add: assms(4))
qed

section \<open>Gaps of the check\<close>

text \<open>Behind a lock prefix that may be switched, a run of differing bytes is not examined: if every
  byte of the page from there on differs from the image, the page is still accepted.\<close>

theorem bytes_behind_lock_unchecked:
  assumes "n \<le> length (cp_loaded c)" and "n \<le> length (cp_mem c)" and "2 \<le> i" and "i + 5 \<le> n"
    and "ideal_nops (cp_state c) = Some t" and "kernel_nops t"
    and "cp_loaded c ! i = 0x3e" and "cp_mem c ! i = 0xf0" and "cp_loaded c ! (i - 1) \<noteq> 0xe8"
    and "cp_loaded c ! (i - 1) = cp_mem c ! (i - 1)"
    and "\<not> in_hypercall_page (code_address c i)"
    and "take 5 (drop (i - 2) (cp_loaded c)) \<noteq> nop5 t 5"
    and "map_of (jumpEntries (cp_elf c)) (code_address c i) = None"
    and "ucast (of_nat i + cp_offset c) \<in> smpOffsets (cp_elf c)"
    and "\<forall>j. i < j \<and> j < n \<longrightarrow> cp_loaded c ! j \<noteq> cp_mem c ! j"
  shows "code_loop (code_step c n) n i = Inr CodeIntact"
proof (rule run_behind_skip)
  show "first_difference c i" using assms(7,8,10) by (auto simp: first_difference_def)
  have "nop_at (cp_state c) 5 (cp_loaded c) (i - 2) = Inr False"
    using nop5_read [OF assms(6), of 5] mem_eq_drop [of "i - 2" "cp_loaded c" "nop5 t 5"] assms(1,3,4,12)
    by (simp add: nop_at_def deref_def assms(5))
  then have "atomic_nop c i = Inr False" using assms(3) by (simp add: atomic_nop_def)
  moreover have "drop i (cp_loaded c) = 0x3e # drop (Suc i) (cp_loaded c)"
    using assms(1,4,7) Cons_nth_drop_Suc [of i "cp_loaded c"] by simp
  then have "mem_eq (drop i (cp_loaded c)) [0x0f, 0x1f, 0x44, 0x00, 0x00] (Suc 4) = Inr False"
    by (simp only: mem_eq.simps) simp
  then have "ftrace_nop c i = Inr False" by (simp add: ftrace_nop_def)
  moreover have "isValidJmpLabel (cp_state c) (cp_mem c) (code_address c i) i (cp_elf c) = Inr False"
    by (simp add: isValidJmpLabel_def assms(13))
  moreover have "generic_call c i = Inr False"
    using assms(1,3,4,9) by (simp add: generic_call_def mapE_def byte_of_def)
  moreover have "smp_lock c i 0x3e 0xf0" using assms(14) by (simp add: smp_lock_def)
  moreover have "\<not> split_nop i 0x3e 0xf0" by (simp add: split_nop_def)
  ultimately show "explained c i 0"
    using assms(7,8,11) by (simp add: explained_def excuse_def else_try_def skip_if_def mapE_def)
qed (use assms in auto)

text \<open>The byte right behind a five-byte patch is never compared: when the patch at position
  \<open>i\<close> is explained and the page agrees with the image from \<open>i + 6\<close> on, the rest of
  the page is accepted, whatever byte \<open>i + 5\<close> holds in the guest.\<close>

theorem byte_behind_patch_unchecked:
  assumes "code_step c n i = Inr (Skip 5)" and "i + 5 < n"
    and "\<forall>j. i + 5 < j \<and> j < n \<longrightarrow> j < length (cp_loaded c) \<and> j < length (cp_mem c) \<and>
      cp_loaded c ! j = cp_mem c ! j"
  shows "code_loop (code_step c n) n i = Inr CodeIntact"
proof -
  have "code_loop (code_step c n) n (i + Suc 5) = Inr CodeIntact"
    using assms(3) code_step_equal by (intro code_loop_all_skip) auto
  with assms(1,2) show ?thesis by (subst code_loop.simps) (simp add: add.commute)
qed

section \<open>Example pages\<close>

text \<open>Sixteen bytes of kernel text with a lock prefix at offset 3 and a jump label at offset 8.\<close>

definition ex_code_loader :: "bytes \<Rightarrow> ElfKernelspaceLoader" where
  "ex_code_loader content = ex_smp_loader\<lparr>textSegment := ex_text\<lparr>memindex := 0xffffffff82000000\<rparr>,
     textSegmentContent := content, jumpEntries := [(0xffffffff82000008, 9)], smpOffsets := {3}\<rparr>"

definition ex_found :: "bytes \<Rightarrow> found_loader" where
  "ex_found content = \<lparr>fl_kind = KernelLoader, fl_name = ''kernel'', fl_loader = ex_code_loader content\<rparr>"

definition ex_page :: page_info where
  "ex_page = \<lparr>vaddr = 0xffff82000000, pg_size = 16\<rparr>"

definition ex_content :: bytes where
  "ex_content = [0x55, 0x56, 0x57, 0x3e, 0x58, 0x59, 0x5a, 0x5b] @ [0xe9, 9, 0, 0, 0] @ [0xc3, 0xc3, 0xc3]"

text \<open>The lock prefix switched and the label disabled.\<close>

definition ex_guest :: bytes where
  "ex_guest = [0x55, 0x56, 0x57, 0xf0, 0x58, 0x59, 0x5a, 0x5b] @ [0x0f, 0x1f, 0x44, 0, 0] @ [0xc3, 0xc3, 0xc3]"

lemma ex_guest_intact: "validateCodePage ex_pv_state 0 ex_page (ex_found ex_content) ex_guest = Inr CodeIntact"
  by code_simp

theorem intact_page_explained_witness:
  "(\<exists>k. explained (page_setup ex_pv_state 0 ex_page (ex_found ex_content) ex_guest) 3 k) \<or>
    (\<exists>p k. p < 3 \<and> 3 \<le> p + k \<and>
       first_difference (page_setup ex_pv_state 0 ex_page (ex_found ex_content) ex_guest) p \<and>
       explained (page_setup ex_pv_state 0 ex_page (ex_found ex_content) ex_guest) p k)"
proof (rule intact_page_explained [OF ex_guest_intact])
  show "3 < unat (pg_size ex_page)" by (simp add: ex_page_def)
  show "first_difference (page_setup ex_pv_state 0 ex_page (ex_found ex_content) ex_guest) 3"
    by code_simp
qed

text \<open>A byte of the text overwritten with a breakpoint.\<close>

definition ex_hooked :: bytes where
  "ex_hooked = [0x55, 0xcc] @ drop 2 ex_guest"

lemma ex_hooked_run:
  "mapE (\<lambda>v. case v of CodeChanged a d \<Rightarrow> Some (a, ch_offset d) | _ \<Rightarrow> None)
     (validateCodePage ex_pv_state 0 ex_page (ex_found ex_content) ex_hooked)
   = Inr (Some (0xffffffff82000001, 1))"
  by code_simp

theorem reported_change_is_real_witness:
  "\<exists>d. validateCodePage ex_pv_state 0 ex_page (ex_found ex_content) ex_hooked
      = Inr (CodeChanged 0xffffffff82000001 d) \<and> ch_should d = 0xcc \<and> ch_is d = 0x56"
proof -
  obtain d where d: "validateCodePage ex_pv_state 0 ex_page (ex_found ex_content) ex_hooked
      = Inr (CodeChanged 0xffffffff82000001 d)" "ch_offset d = 1"
    using ex_hooked_run by (auto simp: mapE_def split: code_verdict.splits)
  from reported_change_is_real [OF d(1)] d(2) have "ch_should d = ex_hooked ! 1"
    "ch_is d = cp_loaded (page_setup ex_pv_state 0 ex_page (ex_found ex_content) ex_hooked) ! 1"
    by auto
  moreover have "ex_hooked ! 1 = 0xcc"
    "cp_loaded (page_setup ex_pv_state 0 ex_page (ex_found ex_content) ex_hooked) ! 1 = 0x56"
    by code_simp+
  ultimately show ?thesis using d by auto
qed

lemma ex_page_sizes:
  "unat (pg_size ex_page) = 16" "page_offset ex_page (ex_code_loader content) = 0"
  by (simp_all add: ex_page_def page_offset_def ex_code_loader_def)

theorem identical_page_intact_witness:
  "validateCodePage ex_pv_state 0 ex_page (ex_found ex_content) ex_content = Inr CodeIntact"
  by (rule identical_page_intact)
    (simp_all add: ex_found_def ex_page_sizes, simp_all add: ex_code_loader_def ex_content_def)

text \<open>The same page at the address of the hypercall page.\<close>

definition ex_hyper_found :: found_loader where
  "ex_hyper_found = (ex_found ex_content)\<lparr>fl_loader :=
     (ex_code_loader ex_content)\<lparr>textSegment := ex_text\<lparr>memindex := 0xffffffff81001000\<rparr>\<rparr>\<rparr>"

theorem hypercall_page_unchecked_witness:
  "validateCodePage ex_pv_state 0 (ex_page\<lparr>vaddr := 0xffff81001000\<rparr>) ex_hyper_found (replicate 16 0xcc)
    = Inr CodeIntact"
proof (rule hypercall_page_unchecked)
  let ?c = "page_setup ex_pv_state 0 (ex_page\<lparr>vaddr := 0xffff81001000\<rparr>) ex_hyper_found (replicate 16 0xcc)"
  have "\<forall>i \<in> set [0..<16]. in_hypercall_page (code_address ?c i)" by code_simp
  then show "\<forall>i < unat (pg_size (ex_page\<lparr>vaddr := 0xffff81001000\<rparr>)). in_hypercall_page (code_address ?c i)"
    by (simp add: ex_page_def)
qed (simp_all add: ex_page_def ex_hyper_found_def page_offset_def ex_code_loader_def ex_content_def)

theorem patched_label_valid_witness:
  "\<exists>l'. patch_jump_label ex_pv_state False ex_jump_entry ex_jump_loader = Inr l' \<and>
    isValidJmpLabel ex_pv_state (textSegmentContent l') 0xffffffff81000002 2
      (ex_jump_loader\<lparr>jumpEntries := [(0xffffffff81000002, 9)]\<rparr>) = Inr True"
proof -
  have "mapE (\<lambda>_. ()) (patch_jump_label ex_pv_state False ex_jump_entry ex_jump_loader) = Inr ()"
    by code_simp
  then obtain l' where l': "patch_jump_label ex_pv_state False ex_jump_entry ex_jump_loader = Inr l'"
    by (auto simp: mapE_def)
  have "isValidJmpLabel ex_pv_state (textSegmentContent l') (je_code ex_jump_entry) 2
      (ex_jump_loader\<lparr>jumpEntries := [(0xffffffff81000002, 9)]\<rparr>) = Inr True"
    by (rule patched_label_valid [OF ex_pv_state_nops(1,2) l'])
      (simp_all add: ex_jump_entry_def jump_destination_def ex_jump_loader_def ex_smp_loader_def ex_text_def)
  with l' show ?thesis by (simp add: ex_jump_entry_def)
qed

text \<open>Everything behind the switched lock prefix replaced.\<close>

definition ex_run_page :: code_page where
  "ex_run_page = page_setup ex_pv_state 0 ex_page (ex_found ex_content)
     ([0x55, 0x56, 0x57, 0xf0] @ replicate 12 0xcc)"

theorem bytes_behind_lock_unchecked_witness:
  "code_loop (code_step ex_run_page 16) 16 3 = Inr CodeIntact"
proof (rule bytes_behind_lock_unchecked)
  show "ideal_nops (cp_state ex_run_page) = Some p6_nops" "kernel_nops p6_nops"
    by (simp_all add: ex_run_page_def page_setup_def Let_def ex_pv_state_nops)
  show "take 5 (drop (3 - 2) (cp_loaded ex_run_page)) \<noteq> nop5 p6_nops 5" by code_simp
  show "\<not> in_hypercall_page (code_address ex_run_page 3)" by code_simp
  show "map_of (jumpEntries (cp_elf ex_run_page)) (code_address ex_run_page 3) = None" by code_simp
  show "ucast (of_nat 3 + cp_offset ex_run_page) \<in> smpOffsets (cp_elf ex_run_page)" by code_simp
  have "\<forall>j \<in> {4..<16}. cp_loaded ex_run_page ! j \<noteq> cp_mem ex_run_page ! j" by code_simp
  then show "\<forall>j. 3 < j \<and> j < 16 \<longrightarrow> cp_loaded ex_run_page ! j \<noteq> cp_mem ex_run_page ! j" by auto
  show "16 \<le> length (cp_loaded ex_run_page)" "16 \<le> length (cp_mem ex_run_page)"
    "cp_loaded ex_run_page ! 3 = 0x3e" "cp_mem ex_run_page ! 3 = 0xf0"
    "cp_loaded ex_run_page ! (3 - 1) \<noteq> 0xe8"
    "cp_loaded ex_run_page ! (3 - 1) = cp_mem ex_run_page ! (3 - 1)"
    by code_simp+
qed simp_all

text \<open>The label disabled and the byte behind it replaced.\<close>

definition ex_behind_page :: code_page where
  "ex_behind_page = page_setup ex_pv_state 0 ex_page (ex_found ex_content)
     (take 8 ex_content @ [0x0f, 0x1f, 0x44, 0, 0] @ [0xcc, 0xc3, 0xc3])"

theorem byte_behind_patch_unchecked_witness:
  "code_loop (code_step ex_behind_page 16) 16 8 = Inr CodeIntact \<and>
   cp_loaded ex_behind_page ! 13 \<noteq> cp_mem ex_behind_page ! 13"
proof
  show "code_loop (code_step ex_behind_page 16) 16 8 = Inr CodeIntact"
  proof (rule byte_behind_patch_unchecked)
    show "code_step ex_behind_page 16 8 = Inr (Skip 5)" by code_simp
    have "\<forall>j \<in> {14..<16}. j < length (cp_loaded ex_behind_page) \<and> j < length (cp_mem ex_behind_page) \<and>
      cp_loaded ex_behind_page ! j = cp_mem ex_behind_page ! j" by code_simp
    then show "\<forall>j. 8 + 5 < j \<and> j < 16 \<longrightarrow> j < length (cp_loaded ex_behind_page) \<and>
      j < length (cp_mem ex_behind_page) \<and> cp_loaded ex_behind_page ! j = cp_mem ex_behind_page ! j"
      by auto
  qed simp
  show "cp_loaded ex_behind_page ! 13 \<noteq> cp_mem ex_behind_page ! 13" by code_simp
qed

end
