(* ===== verification/DataValidator.thy ===== *)
theory DataValidator
  imports CodeValidator
begin

text \<open>
  The data half of \<^verbatim>\<open>src/kernelvalidator.cpp\<close>: the interrupt descriptor tables, the
  read-only data and the search of other data pages for pointers to code.

  The symbol store is another repository's: \<open>symbol_env\<close> holds its answers. The text a check
  prints is the list of its \<open>report\<close>s.
\<close>

section \<open>State and reports\<close>

record symbol_env =
  se_isFunction :: "u64 \<Rightarrow> bool"
  se_isSymbol :: "u64 \<Rightarrow> bool"
  se_functionAddress :: "string \<Rightarrow> u64"
  se_symbolAddress :: "string \<Rightarrow> u64"
  se_containing :: "u64 \<Rightarrow> u64"
  se_name :: "u64 \<Rightarrow> string"

record validator_options =
  loopMode :: bool
  codeValidation :: bool
  pointerExamination :: bool

record KernelValidator =
  options :: validator_options
  kernelLoader :: ElfKernelLoader
  stackAddresses :: "(u64 \<times> u64) list"
  callTargets :: "(u64 \<times> u64) list"
  globalCodePtrs :: u64
  execData :: bool

datatype report =
    UnverifiedIdt u64 u64 u32
  | RoDataMismatch u64
  | EoiWriteFound
  | ShouldBeZero
  | UnknownFunction u64 u64
  | ChangedByte change
  | MaliciousPointer u64 u64 string
  | PointerBehindContent u64 u64
  | ReturnAddressFound u64 u64
  | UndecidablePointers u64 string
  | UnidentifiedChanges u64
  | UnprocessedPage u64 u32
  | NoModuleFound u64
  | ExecutableData
  | CodeVerdict code_verdict

definition read32 :: "bytes \<Rightarrow> nat \<Rightarrow> u32 res" where
  "read32 b i = bindE (bread b i 4) (\<lambda>x. Inr (of_le x))"

definition read64 :: "bytes \<Rightarrow> nat \<Rightarrow> u64 res" where
  "read64 b i = bindE (bread b i 8) (\<lambda>x. Inr (of_le x))"

lemma read32_get: "read32 b i = buf.get 4 b i"
  by (simp add: read32_def buf.get_def)

lemma read64_get: "read64 b i = buf.get 8 b i"
  by (simp add: read64_def buf.get_def)

section \<open>Interrupt descriptors\<close>

text \<open>The handler of the gate at index \<open>i\<close>: the quad word at offset 4, its low half from offset 0.\<close>

definition idt_pointer :: "bytes \<Rightarrow> nat \<Rightarrow> u64 res" where
  "idt_pointer pm i =
     bindE (bread pm (i + 4) 8) (\<lambda>q.
     bindE (byte_of pm i) (\<lambda>b0.
     bindE (byte_of pm (i + 1)) (\<lambda>b1. Inr (of_le ([b0, b1] @ drop 2 q)))))"

definition idt_known :: "symbol_env \<Rightarrow> u64 \<Rightarrow> bool" where
  "idt_known env p \<longleftrightarrow> se_isFunction env p \<or> se_isSymbol env p \<or> p = 0"

definition idt_init_stub :: "ElfKernelLoader \<Rightarrow> u32 \<Rightarrow> u64 \<Rightarrow> bool" where
  "idt_init_stub k i p \<longleftrightarrow>
     0x140 \<le> i \<and> i < 0x210 \<and> p = sinittextAddress k + ucast (i div 0x10 * 9)"

definition idt_irq_stub :: "ElfKernelLoader \<Rightarrow> u32 \<Rightarrow> u64 \<Rightarrow> bool" where
  "idt_irq_stub k i p \<longleftrightarrow>
     0x210 \<le> i \<and>
     p = irq_entries_startAddress k +
       ucast ((i div 0x10 - 0x20) mod 7 * 4 + (i div 0x10 - 0x20) div 7 * 0x20)"

definition idt_entry_ok :: "symbol_env \<Rightarrow> ElfKernelLoader \<Rightarrow> u32 \<Rightarrow> u64 \<Rightarrow> u32 \<Rightarrow> bool" where
  "idt_entry_ok env k i p padding \<longleftrightarrow>
     (idt_known env p \<and> padding = 0) \<or> idt_init_stub k i p \<or> idt_irq_stub k i p"

definition idt_step ::
  "symbol_env \<Rightarrow> ElfKernelLoader \<Rightarrow> u64 \<Rightarrow> bytes \<Rightarrow> nat \<Rightarrow> report list \<Rightarrow> (nat \<times> report list) res" where
  "idt_step env k va pm i out =
     bindE (idt_pointer pm i) (\<lambda>p.
     bindE (read32 pm (i + 12)) (\<lambda>padding.
       Inr (15, if idt_entry_ok env k (of_nat i) p padding then out
                else out @ [UnverifiedIdt p (va + of_nat i) padding])))"

section \<open>Read-only data\<close>

text \<open>
  The loop runs to \<^verbatim>\<open>count <= page->size\<close>. Its \<^verbatim>\<open>return\<close> is a skip of the
  whole page.
\<close>

definition zero_page :: "u64 \<Rightarrow> bool" where
  "zero_page a \<longleftrightarrow> a = 0xffff81aef000 \<or> a = 0xffff817c6000"

definition rodata_step ::
  "symbol_env \<Rightarrow> u64 \<Rightarrow> nat \<Rightarrow> bytes \<Rightarrow> bytes \<Rightarrow> nat \<Rightarrow> report list \<Rightarrow> (nat \<times> report list) res" where
  "rodata_step env va n loaded pm count out =
     bindE (byte_of loaded count) (\<lambda>l.
     bindE (byte_of pm count) (\<lambda>m.
       if l = m then Inr (0, out)
       else bindE (read64 pm count) (\<lambda>currentPtr.
         if se_functionAddress env ''kvm_guest_apic_eoi_write'' = currentPtr
         then Inr (7, out @ [EoiWriteFound])
         else if zero_page (of_nat count + va) then Inr (Suc n, out @ [ShouldBeZero])
         else bindE (displayChange pm loaded (int count) (int n)) (\<lambda>d.
           Inr (0, out @ [UnknownFunction currentPtr (of_nat count + va), ChangedByte d])))))"

definition in_rodata :: "page_info \<Rightarrow> SectionInfo \<Rightarrow> bool" where
  "in_rodata page ro \<longleftrightarrow>
     (let roDataOffset = memindex ro AND 0xffffffffffff in
      roDataOffset \<le> vaddr page \<and> vaddr page < roDataOffset + si_size ro)"

text \<open>The offset in the loader's data is taken from the kernel's section, whatever loader it is.\<close>

definition rodata_page :: "ElfKernelLoader \<Rightarrow> page_info \<Rightarrow> 'a ElfLoader_scheme \<Rightarrow> bytes" where
  "rodata_page k page elf =
     drop (unat (vaddr page - (memindex (roDataSection k) AND 0xffffffffffff))) (roData elf)"

definition check_rodata ::
  "symbol_env \<Rightarrow> page_info \<Rightarrow> bytes \<Rightarrow> bytes \<Rightarrow> report list res" where
  "check_rodata env page loaded pm =
     (let n = unat (pg_size page) in
      bindE (mem_eq pm loaded n) (\<lambda>same.
        if same then Inr []
        else skip_loop (rodata_step env (vaddr page) n loaded pm) (Suc n) 0 [RoDataMismatch (vaddr page)]))"

section \<open>Pointers to code\<close>

datatype ptr_verdict =
    Harmless
  | BehindContent
  | ReturnsThere
  | BreakpointAddress
  | Malicious string

definition examine_pointer ::
  "symbol_env \<Rightarrow> disasm \<Rightarrow> ElfKernelLoader \<Rightarrow> u64 \<Rightarrow> u64 \<Rightarrow> u64 \<Rightarrow> ptr_verdict res" where
  "examine_pointer env dis k exTable at p =
     (if p = 0xffffffff815237b0 then Inl (ExitProcess 0)
      else if se_isFunction env p \<or> se_isSymbol env p then Inr Harmless
      else bindE (getModuleForAddress k p) (\<lambda>f. case f of
          None \<Rightarrow> Inr Harmless
        | Some m \<Rightarrow>
            let l = fl_loader m; off = p - memindex (textSegment l) in
            if \<not> ElfLoader_isCodeAddress l p then Inr Harmless
            else if length (textSegmentContent l) < unat off then Inr BehindContent
            else if off \<in> smpOffsets l then Inr Harmless
            else if map_of (jumpEntries l) p \<noteq> None \<or> p \<in> jumpDestinations l then Inr Harmless
            else if exTable < p then Inr Harmless
            else bindE (isReturnAddress dis (textSegmentContent l) (ucast off) (memindex (textSegment l)))
              (\<lambda>callAddr.
                Inr (if callAddr \<noteq> 0 then ReturnsThere
                     else if at = se_symbolAddress env ''bp_int3_addr'' AND 0xffffffffffff
                     then BreakpointAddress else Malicious (fl_name m)))))"

fun ptr_report :: "u64 \<Rightarrow> u64 \<Rightarrow> ptr_verdict \<Rightarrow> report list" where
  "ptr_report p at Harmless = []"
| "ptr_report p at BreakpointAddress = []"
| "ptr_report p at BehindContent = [PointerBehindContent p at]"
| "ptr_report p at ReturnsThere = [ReturnAddressFound p at]"
| "ptr_report p at (Malicious nm) = [MaliciousPointer p at nm]"

fun ptr_count :: "ptr_verdict \<Rightarrow> u64" where
  "ptr_count (Malicious nm) = 1"
| "ptr_count v = 0"

fun ptr_skip :: "ptr_verdict \<Rightarrow> nat" where
  "ptr_skip BreakpointAddress = 16"
| "ptr_skip v = 0"

text \<open>The upper half of a kernel pointer is at index \<open>i\<close>, the pointer four bytes before.\<close>

definition pointer_before :: "bytes \<Rightarrow> nat \<Rightarrow> u64 res" where
  "pointer_before pm i = (if i < 4 then Inl OutOfBounds else read64 pm (i - 4))"

definition scan_step ::
  "symbol_env \<Rightarrow> disasm \<Rightarrow> ElfKernelLoader \<Rightarrow> u64 \<Rightarrow> u64 \<Rightarrow> bytes \<Rightarrow> nat \<Rightarrow>
   u64 \<times> report list \<Rightarrow> (nat \<times> u64 \<times> report list) res" where
  "scan_step env dis k exTable va pm i = (\<lambda>(n, out).
     bindE (read32 pm i) (\<lambda>h.
       if h \<noteq> 0xffffffff then Inr (0, n, out)
       else bindE (pointer_before pm i) (\<lambda>p.
         if p = 0xffffffffffffffff then Inr (8, n, out)
         else let at = of_nat (i - 4) + va in
           bindE (examine_pointer env dis k exTable at p) (\<lambda>v.
             Inr (ptr_skip v, n + ptr_count v, out @ ptr_report p at v)))))"

definition findCodePtrs ::
  "symbol_env \<Rightarrow> disasm \<Rightarrow> KernelValidator \<Rightarrow> page_info \<Rightarrow> bytes \<Rightarrow> (u64 \<times> report list) res" where
  "findCodePtrs env dis v page pm =
     bindE (findSectionWithName (elffile (kernelLoader v)) ''__ex_table'') (\<lambda>exTable.
       if map_of (stackAddresses v) (vaddr page AND 0xffffffffe000) \<noteq> None then Inr (0, [])
       else skip_loop (scan_step env dis (kernelLoader v) (memindex exTable) (vaddr page) pm)
         (unat (pg_size page - 4)) 4 (0, []))"

section \<open>The data page\<close>

definition is_idt_page :: "ElfKernelLoader \<Rightarrow> page_info \<Rightarrow> bool" where
  "is_idt_page k page \<longleftrightarrow>
     vaddr page = idt_tableAddress k AND 0xffffffffffff \<or>
     vaddr page = nmi_idt_tableAddress k AND 0xffffffffffff"

definition check_idt :: "symbol_env \<Rightarrow> ElfKernelLoader \<Rightarrow> page_info \<Rightarrow> bytes \<Rightarrow> report list res" where
  "check_idt env k page pm = skip_loop (idt_step env k (vaddr page) pm) (unat (pg_size page)) 0 []"

definition check_pointers ::
  "symbol_env \<Rightarrow> disasm \<Rightarrow> KernelValidator \<Rightarrow> page_info \<Rightarrow> string \<Rightarrow> bytes \<Rightarrow> (KernelValidator \<times> report list) res" where
  "check_pointers env dis v page nm pm =
     bindE (findCodePtrs env dis v page pm) (\<lambda>(codePtrs, out).
       if codePtrs = 0 then Inr (v, out)
       else let v' = v\<lparr>globalCodePtrs := globalCodePtrs v + codePtrs\<rparr> in
         Inr (v', out @ [UndecidablePointers codePtrs nm, UnidentifiedChanges (globalCodePtrs v'),
           UnprocessedPage (vaddr page) (pg_size page)]))"

definition validateDataPage ::
  "symbol_env \<Rightarrow> disasm \<Rightarrow> KernelValidator \<Rightarrow> page_info \<Rightarrow> found_loader \<Rightarrow> bytes \<Rightarrow>
   (KernelValidator \<times> report list) res" where
  "validateDataPage env dis v page f pm =
     (let k = kernelLoader v; elf = fl_loader f in
      if is_idt_page k page then mapE (Pair v) (check_idt env k page pm)
      else if in_rodata page (roDataSection elf)
      then mapE (Pair v) (check_rodata env page (rodata_page k page elf) pm)
      else check_pointers env dis v page (fl_name f) pm)"

section \<open>The search for pointers\<close>

text \<open>What the scan reports for position \<open>i\<close> when nothing was skipped before.\<close>

definition reports_at ::
  "symbol_env \<Rightarrow> disasm \<Rightarrow> ElfKernelLoader \<Rightarrow> u64 \<Rightarrow> u64 \<Rightarrow> bytes \<Rightarrow> nat \<Rightarrow> report list" where
  "reports_at env dis k exTable va pm i =
     (case scan_step env dis k exTable va pm i (0, []) of Inr (_, _, out) \<Rightarrow> out | Inl _ \<Rightarrow> [])"

lemma scan_step_reports:
  "scan_step env dis k ex va pm i (n, out) = Inr (j, n', out') \<Longrightarrow>
     out' = out @ reports_at env dis k ex va pm i"
  by (auto simp: scan_step_def reports_at_def Let_def split: if_splits elim!: bindE_InrE)

lemma scan_fold_reports:
  "foldE (\<lambda>i s. mapE snd (scan_step env dis k ex va pm i s)) js (n, out) = Inr (n', out') \<Longrightarrow>
     out' = out @ concat (map (reports_at env dis k ex va pm) js)"
proof (induction js arbitrary: n out)
  case (Cons i js)
  then obtain k1 n1 out1 where st: "scan_step env dis k ex va pm i (n, out) = Inr (k1, n1, out1)"
    and rest: "foldE (\<lambda>i s. mapE snd (scan_step env dis k ex va pm i s)) js (n1, out1) = Inr (n', out')"
    by (auto simp: mapE_def)
  from Cons.IH [OF rest] scan_step_reports [OF st] show ?case by simp
qed simp

text \<open>A pointer the page holds at index \<open>i\<close> and the check calls malicious.\<close>

definition malicious_at ::
  "symbol_env \<Rightarrow> disasm \<Rightarrow> ElfKernelLoader \<Rightarrow> u64 \<Rightarrow> u64 \<Rightarrow> bytes \<Rightarrow> nat \<Rightarrow> u64 \<Rightarrow> string \<Rightarrow> bool" where
  "malicious_at env dis k exTable va pm i p nm \<longleftrightarrow>
     read64 pm i = Inr p \<and> read32 pm (i + 4) = Inr 0xffffffff \<and> p \<noteq> 0xffffffffffffffff \<and>
     examine_pointer env dis k exTable (of_nat i + va) p = Inr (Malicious nm)"

lemma ptr_report_malicious [simp]:
  "MaliciousPointer p at nm \<in> set (ptr_report q at' v) \<longleftrightarrow> v = Malicious nm \<and> p = q \<and> at = at'"
  by (cases v) auto

lemma reports_at_malicious:
  assumes "4 \<le> i"
  shows "MaliciousPointer p at nm \<in> set (reports_at env dis k ex va pm i) \<longleftrightarrow>
    malicious_at env dis k ex va pm (i - 4) p nm \<and> at = of_nat (i - 4) + va"
proof -
  have i: "i - 4 + 4 = i" "\<not> i < 4" using assms by simp_all
  obtain a where a: "of_nat (i - 4) + va = a" by simp
  show ?thesis
    unfolding reports_at_def scan_step_def malicious_at_def pointer_before_def a i(1)
    by (cases "read32 pm i"; cases "read64 pm (i - 4)")
      (auto simp: i(2) Let_def split: sum.splits if_splits elim!: bindE_InrE
        intro: bindE_Inl_iff [THEN iffD2], auto simp: bindE_def split: sum.splits)
qed

text \<open>Nothing in the page makes the scan skip: no all-ones quad word and not the page of the
  breakpoint address.\<close>

definition no_skips :: "symbol_env \<Rightarrow> page_info \<Rightarrow> bytes \<Rightarrow> bool" where
  "no_skips env page pm \<longleftrightarrow>
     (\<forall>j < unat (pg_size page). read64 pm j \<noteq> Inr 0xffffffffffffffff \<and>
        of_nat j + vaddr page \<noteq> se_symbolAddress env ''bp_int3_addr'' AND 0xffffffffffff)"

lemma examine_pointer_breakpoint:
  "examine_pointer env dis k ex at p = Inr BreakpointAddress \<Longrightarrow>
     at = se_symbolAddress env ''bp_int3_addr'' AND 0xffffffffffff"
  by (auto simp: examine_pointer_def Let_def split: if_splits option.splits elim!: bindE_InrE)

lemma scan_step_no_skip:
  assumes "no_skips env page pm" and "i < unat (pg_size page)"
    and "scan_step env dis k ex (vaddr page) pm i s = Inr (j, s')"
  shows "j = 0"
proof -
  obtain n out where s: "s = (n, out)" by (cases s)
  have i4: "i - 4 < unat (pg_size page)" using assms(2) by simp
  with assms(1) have "read64 pm (i - 4) \<noteq> Inr 0xffffffffffffffff"
    and at: "of_nat (i - 4) + vaddr page \<noteq> se_symbolAddress env ''bp_int3_addr'' AND 0xffffffffffff"
    unfolding no_skips_def by blast+
  have v: "ptr_skip w = 0" if "examine_pointer env dis k ex (of_nat (i - 4) + vaddr page) q = Inr w" for q w
    using examine_pointer_breakpoint [of env dis k ex "of_nat (i - 4) + vaddr page" q] that at
    by (cases w) auto
  obtain a where a: "of_nat (i - 4) + vaddr page = a" by simp
  from v assms(3) \<open>read64 pm (i - 4) \<noteq> _\<close> show ?thesis
    unfolding a s scan_step_def pointer_before_def
    by (auto simp: Let_def split: if_splits elim!: bindE_InrE)
qed

text \<open>C12: In a data page in which nothing makes the scan skip, the pointers reported as malicious are
  exactly those the page holds below its last quad word and the examination of a pointer calls so.\<close>

theorem malicious_pointers_exact:
  assumes "findCodePtrs env dis v page pm = Inr (n, out)"
    and "findSectionWithName (elffile (kernelLoader v)) ''__ex_table'' = Inr exTable"
    and "map_of (stackAddresses v) (vaddr page AND 0xffffffffe000) = None"
    and "no_skips env page pm" and "4 \<le> pg_size page"
  shows "MaliciousPointer p at nm \<in> set out \<longleftrightarrow>
    (\<exists>i. i + 8 < unat (pg_size page) \<and> at = of_nat i + vaddr page \<and>
       malicious_at env dis (kernelLoader v) (memindex exTable) (vaddr page) pm i p nm)"
proof -
  let ?step = "scan_step env dis (kernelLoader v) (memindex exTable) (vaddr page) pm"
  let ?n = "unat (pg_size page - 4)"
  have n: "?n = unat (pg_size page) - 4" using assms(5) by (simp add: unat_sub)
  have "skip_loop ?step ?n 4 (0, []) = Inr (n, out)"
    using assms(1-3) by (simp add: findCodePtrs_def)
  moreover have "skip_loop ?step ?n 4 (0, []) = foldE (\<lambda>i s. mapE snd (?step i s)) [4..<?n] (0, [])"
  proof (rule skip_loop_foldE)
    fix j s k s' assume "j < ?n" and st: "?step j s = Inr (k, s')"
    with n have "j < unat (pg_size page)" by simp
    with st show "k = 0" using scan_step_no_skip [OF assms(4)] by blast
  qed
  ultimately have out: "out = concat (map (reports_at env dis (kernelLoader v) (memindex exTable)
      (vaddr page) pm) [4..<?n])"
    using scan_fold_reports by fastforce
  have "MaliciousPointer p at nm \<in> set out \<longleftrightarrow>
      (\<exists>j. 4 \<le> j \<and> j < ?n \<and> malicious_at env dis (kernelLoader v) (memindex exTable) (vaddr page) pm (j - 4) p nm
        \<and> at = of_nat (j - 4) + vaddr page)"
    using reports_at_malicious by (auto simp: out)
  also have "\<dots> \<longleftrightarrow> (\<exists>i. i + 8 < unat (pg_size page) \<and> at = of_nat i + vaddr page \<and>
      malicious_at env dis (kernelLoader v) (memindex exTable) (vaddr page) pm i p nm)"
    (is "?l \<longleftrightarrow> ?r")
  proof
    assume ?l
    then obtain j where "4 \<le> j" "j < ?n" "at = of_nat (j - 4) + vaddr page"
      "malicious_at env dis (kernelLoader v) (memindex exTable) (vaddr page) pm (j - 4) p nm" by blast
    with n show ?r by (intro exI [of _ "j - 4"]) auto
  next
    assume ?r
    then obtain i where "i + 8 < unat (pg_size page)" "at = of_nat i + vaddr page"
      "malicious_at env dis (kernelLoader v) (memindex exTable) (vaddr page) pm i p nm" by blast
    with n show ?l by (intro exI [of _ "i + 4"]) auto
  qed
  finally show ?thesis .
qed

section \<open>The descriptor tables\<close>

text \<open>A 64-bit gate as the architecture lays it out.\<close>

record gate =
  g_offset :: u64
  g_selector :: u16
  g_flags :: u16
  g_reserved :: u32

definition encode_gate :: "gate \<Rightarrow> bytes" where
  "encode_gate g = to_le 2 (g_offset g) @ to_le 2 (g_selector g) @ to_le 2 (g_flags g) @
     to_le 2 (drop_bit 16 (g_offset g)) @ to_le 4 (drop_bit 32 (g_offset g)) @ to_le 4 (g_reserved g)"

lemma length_encode_gate [simp]: "length (encode_gate g) = 16"
  by (simp add: encode_gate_def)

lemma to_le_add: "to_le (m + n) w = to_le m w @ to_le n (drop_bit (8 * m) w)"
  by (induction m arbitrary: w) (simp_all add: algebra_simps)

lemma idt_pointer_gate: "idt_pointer (pre @ encode_gate g @ post) (length pre) = Inr (g_offset g)"
proof -
  let ?o = "g_offset g"
  have two: "to_le 2 ?o = [ucast ?o, ucast (drop_bit 8 ?o)]" by (simp add: numeral_2_eq_2)
  have "[ucast ?o, ucast (drop_bit 8 ?o)] @ to_le 2 (drop_bit 16 ?o) @ to_le 4 (drop_bit 32 ?o) = to_le 8 ?o"
    using to_le_add [of 2 6 ?o] to_le_add [of 2 4 "drop_bit 16 ?o"] two by simp
  then have of: "of_le (ucast ?o # ucast (drop_bit 8 ?o) # to_le 2 (drop_bit 16 ?o) @ to_le 4 (drop_bit 32 ?o)) = ?o"
    by (simp add: of_le_to_le)
  have "drop 4 (encode_gate g) = (to_le 2 (g_flags g) @ to_le 2 (drop_bit 16 ?o) @ to_le 4 (drop_bit 32 ?o))
      @ to_le 4 (g_reserved g)"
    by (simp add: encode_gate_def)
  then have q: "bread (pre @ encode_gate g @ post) (length pre + 4) 8
      = Inr (to_le 2 (g_flags g) @ to_le 2 (drop_bit 16 ?o) @ to_le 4 (drop_bit 32 ?o))"
    by (simp add: bread_def)
  have "(pre @ encode_gate g @ post) ! length pre = ucast ?o"
    "(pre @ encode_gate g @ post) ! (length pre + 1) = ucast (drop_bit 8 ?o)"
    by (simp_all add: nth_append encode_gate_def two)
  with q of show ?thesis by (simp add: idt_pointer_def byte_of_def)
qed

lemma idt_reserved_gate: "read32 (pre @ encode_gate g @ post) (length pre + 12) = Inr (g_reserved g)"
proof -
  have "drop 12 (encode_gate g) = to_le 4 (g_reserved g)" by (simp add: encode_gate_def)
  then show ?thesis by (simp add: read32_def bread_def of_le_to_le)
qed

text \<open>The reports on a table of gates, by their position.\<close>

fun idt_reports :: "symbol_env \<Rightarrow> ElfKernelLoader \<Rightarrow> u64 \<Rightarrow> nat \<Rightarrow> gate list \<Rightarrow> report list" where
  "idt_reports env k va i [] = []"
| "idt_reports env k va i (g # gs) =
     (if idt_entry_ok env k (of_nat i) (g_offset g) (g_reserved g) then []
      else [UnverifiedIdt (g_offset g) (va + of_nat i) (g_reserved g)]) @
     idt_reports env k va (i + 16) gs"

lemma idt_loop_gates:
  "skip_loop (idt_step env k va (pre @ concat (map encode_gate gs))) (length pre + 16 * length gs)
     (length pre) out = Inr (out @ idt_reports env k va (length pre) gs)"
proof (induction gs arbitrary: pre out)
  case (Cons g gs)
  let ?rest = "concat (map encode_gate gs)" and ?i = "length pre"
  obtain new where new: "new = (if idt_entry_ok env k (of_nat ?i) (g_offset g) (g_reserved g) then []
    else [UnverifiedIdt (g_offset g) (va + of_nat ?i) (g_reserved g)])" by simp
  have "idt_step env k va (pre @ encode_gate g @ ?rest) ?i out = Inr (15, out @ new)"
    by (simp add: idt_step_def idt_pointer_gate idt_reserved_gate new)
  then have "skip_loop (idt_step env k va (pre @ encode_gate g @ ?rest)) (?i + 16 * length (g # gs)) ?i out
      = skip_loop (idt_step env k va ((pre @ encode_gate g) @ ?rest)) (length (pre @ encode_gate g) + 16 * length gs)
          (length (pre @ encode_gate g)) (out @ new)"
    by (subst skip_loop_next [where k = 15]) (simp_all add: algebra_simps)
  also have "\<dots> = Inr ((out @ new) @ idt_reports env k va (length (pre @ encode_gate g)) gs)"
    by (rule Cons.IH)
  finally show ?case by (simp add: new)
qed simp

text \<open>C13: On a page of interrupt gates the check decodes every gate's handler and reports exactly the
  gates whose handler is not a known symbol (or has a non-zero reserved word) and is none of the
  stubs expected at that position; selector, stack index and type of a gate have no influence.\<close>

theorem idt_check_exact:
  assumes "unat (pg_size page) = 16 * length gs"
  shows "check_idt env k page (concat (map encode_gate gs)) = Inr (idt_reports env k (vaddr page) 0 gs)"
  using idt_loop_gates [of env k "vaddr page" "[]" gs "[]"] by (simp add: check_idt_def assms)

section \<open>Read-only data\<close>

lemma mem_eq_Inr:
  "n \<le> length a \<Longrightarrow> n \<le> length b \<Longrightarrow> mem_eq a b n = Inr (take n a = take n b)"
  by (induction a b n rule: mem_eq.induct) auto

text \<open>A difference in read-only data makes the loop read beyond the page: unless the page holds the
  pointer to the known callback or is one of the pages that may be zero, the check of a page that
  differs from the image ends with an access out of bounds.\<close>

theorem rodata_difference_overruns:
  assumes "length pm = unat (pg_size page)" and "unat (pg_size page) < length loaded"
    and "pm \<noteq> take (length pm) loaded"
    and "\<forall>i < length pm. read64 pm i \<noteq> Inr (se_functionAddress env ''kvm_guest_apic_eoi_write'')"
    and "\<forall>i < length pm. \<not> zero_page (of_nat i + vaddr page)"
  shows "check_rodata env page loaded pm = Inl OutOfBounds"
proof -
  let ?n = "unat (pg_size page)"
  have "mem_eq pm loaded ?n = Inr False"
    using mem_eq_Inr [of ?n pm loaded] assms(1-3) by simp
  moreover have "skip_loop (rodata_step env (vaddr page) ?n loaded pm) (Suc ?n) 0 s = Inl OutOfBounds" for s
  proof (rule skip_loop_reaches_failure)
    fix j out assume j: "j < ?n"
    then have b: "byte_of loaded j = Inr (loaded ! j)" "byte_of pm j = Inr (pm ! j)"
      using assms(1,2) by (simp_all add: byte_of_def)
    have r: "read64 pm j = Inl OutOfBounds \<or> (\<exists>p. read64 pm j = Inr p)"
      by (auto simp: read64_def bread_def)
    have "0 \<le> int j" "int j < int ?n" "int ?n \<le> int (length pm)" "int ?n \<le> int (length loaded)"
      using j assms(1,2) by linarith+
    from displayChange_ok [OF this] obtain d where "displayChange pm loaded (int j) (int ?n) = Inr d"
      by blast
    then have d: "displayChange pm loaded (int j) (uint (pg_size page)) = Inr d" by simp
    from b have b: "byte_of loaded j = Inr (loaded ! j)" "byte_of pm j = Inr (pm ! j)" .
    have s: "se_functionAddress env ''kvm_guest_apic_eoi_write'' \<noteq> p" if "read64 pm j = Inr p" for p
      using assms(1,4) j that by auto
    have z: "\<not> zero_page (of_nat j + vaddr page)" using assms(1,5) j by simp
    from r d s z
    show "rodata_step env (vaddr page) ?n loaded pm j out = Inl OutOfBounds \<or>
        (\<exists>s'. rodata_step env (vaddr page) ?n loaded pm j out = Inr (0, s'))"
      by (elim disjE) (auto simp: rodata_step_def b simp del: byte_of_Inr)
  next
    show "rodata_step env (vaddr page) ?n loaded pm ?n out = Inl OutOfBounds" for out
      using assms(1,2) by (simp add: rodata_step_def byte_of_def)
  qed simp_all
  ultimately show ?thesis by (simp add: check_rodata_def)
qed

section \<open>A gap of the scan\<close>

lemma of_le_ones32:
  assumes "length xs = 4"
  shows "of_le xs = (0xffffffff :: u32) \<longleftrightarrow> xs = replicate 4 0xff"
proof -
  have "replicate 4 (0xff :: u8) = [0xff, 0xff, 0xff, 0xff]" by (simp add: eval_nat_numeral)
  then have ones: "of_le (replicate 4 0xff) = (0xffffffff :: u32)" by (simp add: of_le_code)
  show ?thesis
  proof
    assume "of_le xs = (0xffffffff :: u32)"
    then have "to_le 4 (of_le xs :: u32) = to_le 4 (of_le (replicate 4 0xff) :: u32)" by (simp add: ones)
    then show "xs = replicate 4 0xff" using assms to_le_of_le [where 'a = 32] by simp
  qed (simp add: ones)
qed

lemma read32_not_ones:
  assumes "i + 4 \<le> length pm" and "i \<le> k" and "k < i + 4" and "pm ! k \<noteq> 0xff"
  shows "\<exists>w. read32 pm i = Inr w \<and> w \<noteq> 0xffffffff"
proof -
  have "take 4 (drop i pm) ! (k - i) = pm ! k" using assms by simp
  moreover have "replicate 4 (0xff :: u8) ! (k - i) = 0xff" using assms by simp
  ultimately have "take 4 (drop i pm) \<noteq> replicate 4 0xff" using assms(4) by metis
  then show ?thesis using of_le_ones32 [of "take 4 (drop i pm)"] assms(1)
    by (simp add: read32_def bread_def)
qed

text \<open>An otherwise empty page with an all-ones quad word at \<open>j\<close> and a pointer behind it.\<close>

definition hiding_page :: "nat \<Rightarrow> u64 \<Rightarrow> nat \<Rightarrow> bytes" where
  "hiding_page j p r = replicate j 0 @ replicate 8 0xff @ to_le 8 p @ replicate (Suc r) 0"

lemma length_hiding_page [simp]: "length (hiding_page j p r) = j + 17 + r"
  by (simp add: hiding_page_def)

lemma hiding_page_zero: "k < j \<or> j + 16 \<le> k \<and> k < j + 17 + r \<Longrightarrow> hiding_page j p r ! k = 0"
  by (auto simp: hiding_page_def nth_append simp del: replicate.simps)

lemma hiding_page_idle:
  assumes "i + 4 \<le> j + 17 + r" and "i < j \<or> j + 13 \<le> i"
  shows "scan_step env dis k ex va (hiding_page j p r) i s = Inr (0, s)"
proof -
  obtain c out where s: "s = (c, out)" by (cases s)
  let ?k = "if i < j then i else max i (j + 16)"
  have "hiding_page j p r ! ?k \<noteq> 0xff"
    using assms by (subst hiding_page_zero) (auto simp: max_def)
  then obtain w where "read32 (hiding_page j p r) i = Inr w" "w \<noteq> 0xffffffff"
    using read32_not_ones [of i "hiding_page j p r" ?k] assms by (auto simp: max_def split: if_splits)
  then show ?thesis by (simp add: s scan_step_def)
qed

lemma drop_hiding_page:
  assumes "m \<le> 4" and "4 \<le> j"
  shows "take 8 (drop (j + m - 4) (hiding_page j p r)) = replicate (4 - m) 0 @ replicate (4 + m) 0xff"
    and "take 4 (drop (j + m) (hiding_page j p r)) = replicate 4 0xff"
proof -
  have "replicate j (0 :: u8) = replicate (j + m - 4) 0 @ replicate (4 - m) 0"
    using assms by (simp add: replicate_add [symmetric])
  moreover have "replicate 8 (0xff :: u8) = replicate (4 + m) 0xff @ replicate (4 - m) 0xff"
    using assms by (simp add: replicate_add [symmetric])
  ultimately have "hiding_page j p r = replicate (j + m - 4) 0 @ (replicate (4 - m) 0 @ replicate (4 + m) 0xff)
      @ replicate (4 - m) 0xff @ to_le 8 p @ replicate (Suc r) 0"
    by (simp add: hiding_page_def)
  then show "take 8 (drop (j + m - 4) (hiding_page j p r)) = replicate (4 - m) 0 @ replicate (4 + m) 0xff"
    using assms by simp
  have "replicate 8 (0xff :: u8) = replicate m 0xff @ replicate 4 0xff @ replicate (4 - m) 0xff"
    using assms by (simp add: replicate_add [symmetric])
  then show "take 4 (drop (j + m) (hiding_page j p r)) = replicate 4 0xff"
    by (simp add: hiding_page_def)
qed

lemma hiding_page_ones:
  assumes "m \<le> 4" and "4 \<le> j"
  shows "read32 (hiding_page j p r) (j + m) = Inr 0xffffffff"
    and "pointer_before (hiding_page j p r) (j + m) = Inr (of_le (replicate (4 - m) 0 @ replicate (4 + m) 0xff))"
  using drop_hiding_page [OF assms, of p r] of_le_ones32 [of "replicate 4 0xff"] assms
  by (simp_all add: read32_def read64_def pointer_before_def bread_def)

lemma overlap_not_ones:
  "m < 4 \<Longrightarrow> of_le (replicate (4 - m) 0 @ replicate (4 + m) 0xff) \<noteq> (0xffffffffffffffff :: u64)"
proof
  assume "m < 4" and eq: "of_le (replicate (4 - m) 0 @ replicate (4 + m) 0xff) = (0xffffffffffffffff :: u64)"
  then obtain d where "4 - m = Suc d" by (cases "4 - m") auto
  then have "\<not> bit (of_le (replicate (4 - m) 0 @ replicate (4 + m) 0xff) :: u64) 0"
    by (simp add: bit_simps)
  moreover have "bit (0xffffffffffffffff :: u64) 0" by (simp add: bit_0)
  ultimately show False unfolding eq by blast
qed

lemma of_le_ones64: "of_le (replicate 8 0xff) = (0xffffffffffffffff :: u64)"
proof -
  have "replicate 8 (0xff :: u8) = [0xff, 0xff, 0xff, 0xff, 0xff, 0xff, 0xff, 0xff]"
    by (simp add: eval_nat_numeral)
  then show ?thesis by (simp add: of_le_code)
qed

text \<open>A pointer right behind an all-ones quad word is never examined: whatever address it holds, the
  page is accepted without a report, provided the patterns in which the ones overlap the zeros before
  them are harmless.\<close>

theorem hidden_pointer_accepted:
  assumes "findSectionWithName (elffile (kernelLoader v)) ''__ex_table'' = Inr exTable"
    and "map_of (stackAddresses v) (vaddr page AND 0xffffffffe000) = None"
    and "unat (pg_size page) = j + 17 + r" and "4 \<le> j"
    and "\<forall>m < 4. \<forall>at. examine_pointer env dis (kernelLoader v) (memindex exTable) at
      (of_le (replicate (4 - m) 0 @ replicate (4 + m) 0xff)) = Inr Harmless"
  shows "findCodePtrs env dis v page (hiding_page j p r) = Inr (0, [])"
proof -
  let ?step = "scan_step env dis (kernelLoader v) (memindex exTable) (vaddr page) (hiding_page j p r)"
  let ?s = "(0 :: u64, [] :: report list)"
  have n: "unat (pg_size page - 4) = j + 13 + r"
    using assms(3) by (subst unat_sub) (simp_all add: word_le_nat_alt)
  have overlap: "?step (j + m) ?s = Inr (0, ?s)" if "m < 4" for m
    using assms(4,5) that hiding_page_ones [of m j p r] overlap_not_ones [OF that]
    by (simp add: scan_step_def Let_def)
  have idle: "?step i ?s = Inr (0, ?s)" if "i < j + 4" for i
  proof (cases "i < j")
    case True
    then show ?thesis by (intro hiding_page_idle) auto
  next
    case False
    with that overlap [of "i - j"] show ?thesis by simp
  qed
  have "skip_loop ?step (j + 13 + r) 4 ?s = skip_loop ?step (j + 13 + r) (j + 4) ?s"
    using idle by (intro skip_loop_idle) auto
  also have "?step (j + 4) ?s = Inr (8, ?s)"
    using hiding_page_ones [of 4 j p r] assms(4) of_le_ones64
    by (simp add: scan_step_def)
  then have "skip_loop ?step (j + 13 + r) (j + 4) ?s = skip_loop ?step (j + 13 + r) (j + 4 + Suc 8) ?s"
    by (intro skip_loop_next) auto
  also have "\<dots> = skip_loop ?step (j + 13 + r) (j + 13 + r) ?s"
    by (intro skip_loop_idle hiding_page_idle) auto
  finally show ?thesis using assms(1,2) n by (simp add: findCodePtrs_def)
qed

section \<open>Example pages\<close>

text \<open>A kernel with sixteen bytes of text at 0xffffffff82000000, an exception table behind it and no
  modules; a pointer ending in 0x00 counts as a function.\<close>

definition ex_data_file :: ElfFile64 where
  "ex_data_file = \<lparr>mem = \<lparr>hbase = 0x10000, hbytes = replicate 64 0\<rparr>, shstrindex = 0,
     sections = [ex_text\<lparr>si_name := ''__ex_table'', memindex := 0xffffffff82000100\<rparr>],
     segments = [], section_ids = [0 \<mapsto> 0], section_names = [''__ex_table'' \<mapsto> 0],
     symbolCount = 0\<rparr>"

definition ex_kernel :: ElfKernelLoader where
  "ex_kernel = ElfKernelspaceLoader.extend ((ex_code_loader ex_content)\<lparr>elffile := ex_data_file\<rparr>)
     (ElfKernelLoader.fields SectionInfo_default SectionInfo_default 0 0 0xffffffff82003000 0
        0xffffffff82004000 0xffffffff82005000 ex_pv_state [])"

definition ex_symbols :: symbol_env where
  "ex_symbols = \<lparr>se_isFunction = (\<lambda>a. a AND 0xff = 0), se_isSymbol = (\<lambda>_. False),
     se_functionAddress = (\<lambda>_. 0xffffffff82000042), se_symbolAddress = (\<lambda>_. 0xffffffff83000000),
     se_containing = (\<lambda>a. a), se_name = (\<lambda>_. ''f'')\<rparr>"

definition ex_validator :: KernelValidator where
  "ex_validator = \<lparr>options = \<lparr>loopMode = False, codeValidation = True, pointerExamination = True\<rparr>,
     kernelLoader = ex_kernel, stackAddresses = [], callTargets = [], globalCodePtrs = 0,
     execData = False\<rparr>"

definition ex_data_page :: page_info where
  "ex_data_page = \<lparr>vaddr = 0xffff82001000, pg_size = 32\<rparr>"

definition ex_pointers :: bytes where
  "ex_pointers = replicate 8 0 @ to_le 8 (0xffffffff82000005 :: u64) @ to_le 8 (0xffffffff82000000 :: u64)
     @ replicate 8 0"

lemma ex_pointers_run:
  "findCodePtrs ex_symbols (\<lambda>_ _. None) ex_validator ex_data_page ex_pointers
    = Inr (1, [MaliciousPointer 0xffffffff82000005 0xffff82001008 ''kernel''])"
  by code_simp

lemma ex_data_ex_table:
  "findSectionWithName (elffile (kernelLoader ex_validator)) ''__ex_table''
    = Inr (ex_text\<lparr>si_name := ''__ex_table'', memindex := 0xffffffff82000100\<rparr>)"
  by code_simp

theorem malicious_pointers_exact_witness:
  "\<exists>i. i + 8 < 32 \<and> malicious_at ex_symbols (\<lambda>_ _. None) ex_kernel 0xffffffff82000100 0xffff82001000
     ex_pointers i 0xffffffff82000005 ''kernel''"
proof -
  have stack: "map_of (stackAddresses ex_validator) (vaddr ex_data_page AND 0xffffffffe000) = None"
    by (simp add: ex_validator_def)
  have "\<forall>j \<in> set [0..<32]. read64 ex_pointers j \<noteq> Inr 0xffffffffffffffff \<and>
      of_nat j + vaddr ex_data_page \<noteq> se_symbolAddress ex_symbols ''bp_int3_addr'' AND 0xffffffffffff"
    by code_simp
  then have skips: "no_skips ex_symbols ex_data_page ex_pointers"
    by (simp add: no_skips_def ex_data_page_def)
  show ?thesis
    using malicious_pointers_exact [OF ex_pointers_run ex_data_ex_table stack skips,
        of "0xffffffff82000005" "0xffff82001008" "''kernel''"]
    by (auto simp: ex_data_page_def ex_validator_def)
qed

text \<open>A descriptor table with a known handler and a foreign one.\<close>

definition ex_gates :: "gate list" where
  "ex_gates = [\<lparr>g_offset = 0xffffffff82000000, g_selector = 0x10, g_flags = 0x8e00, g_reserved = 0\<rparr>,
     \<lparr>g_offset = 0xffffffff82000005, g_selector = 0x10, g_flags = 0x8e00, g_reserved = 0\<rparr>]"

theorem idt_check_exact_witness:
  "check_idt ex_symbols ex_kernel (ex_data_page\<lparr>vaddr := 0xffff82003000\<rparr>) (concat (map encode_gate ex_gates))
    = Inr [UnverifiedIdt 0xffffffff82000005 0xffff82003010 0]"
proof -
  have "idt_reports ex_symbols ex_kernel 0xffff82003000 0 ex_gates
      = [UnverifiedIdt 0xffffffff82000005 0xffff82003010 0]" by code_simp
  then show ?thesis
    by (subst idt_check_exact) (simp_all add: ex_data_page_def ex_gates_def)
qed

theorem rodata_difference_overruns_witness:
  "check_rodata ex_symbols ex_data_page (replicate 64 7) (replicate 32 8) = Inl OutOfBounds"
proof (rule rodata_difference_overruns)
  have "\<forall>i \<in> set [0..<32]. read64 (replicate 32 8) i
      \<noteq> Inr (se_functionAddress ex_symbols ''kvm_guest_apic_eoi_write'')" by code_simp
  then show "\<forall>i < length (replicate 32 (8 :: u8)). read64 (replicate 32 8) i
      \<noteq> Inr (se_functionAddress ex_symbols ''kvm_guest_apic_eoi_write'')" by simp
  have "\<forall>i \<in> set [0..<32]. \<not> zero_page (of_nat i + vaddr ex_data_page)" by code_simp
  then show "\<forall>i < length (replicate 32 (8 :: u8)). \<not> zero_page (of_nat i + vaddr ex_data_page)" by simp
  have "hd (replicate 32 (8 :: u8)) \<noteq> hd (take 32 (replicate 64 7))" by simp
  then show "replicate 32 (8 :: u8) \<noteq> take (length (replicate 32 (8 :: u8))) (replicate 64 7)"
    by (metis length_replicate)
qed (simp_all add: ex_data_page_def)

theorem hidden_pointer_accepted_witness:
  "findCodePtrs ex_symbols (\<lambda>_ _. None) ex_validator ex_data_page (hiding_page 8 0xffffffff82000005 7)
    = Inr (0, [])"
proof (rule hidden_pointer_accepted [OF ex_data_ex_table])
  have "\<forall>m \<in> set [0..<4]. of_le (replicate (4 - m) 0 @ replicate (4 + m) 0xff) AND 0xff = (0 :: u64) \<and>
      of_le (replicate (4 - m) 0 @ replicate (4 + m) 0xff) \<noteq> (0xffffffff815237b0 :: u64)" by code_simp
  then show "\<forall>m < 4. \<forall>at. examine_pointer ex_symbols (\<lambda>_ _. None) (kernelLoader ex_validator)
      (memindex (ex_text\<lparr>si_name := ''__ex_table'', memindex := 0xffffffff82000100\<rparr>)) at
      (of_le (replicate (4 - m) 0 @ replicate (4 + m) 0xff)) = Inr Harmless"
    by (simp add: examine_pointer_def ex_symbols_def del: replicate.simps)
qed (simp_all add: ex_validator_def ex_data_page_def)

end
