(* ===== verification/StackValidator.thy ===== *)
theory StackValidator
  imports DataValidator GuestList
begin

text \<open>
  The stack half of \<^verbatim>\<open>src/kernelvalidator.cpp\<close>: the list of the kernel stacks, the
  search of a stack for return addresses and the check that each of them continues the call before
  it. The text the check writes goes to a string stream whose output is disabled; it is the list of
  reports here, and \<open>sw_interesting\<close> is the flag that would have printed it.
\<close>

section \<open>Return addresses on a stack\<close>

datatype stack_report =
    StackPointerBehindContent u64 u64
  | StackPointerNoCall u64 u64 string
  | StackReturn u64 u64 string u64
  | StackUnvalidated u64 u64 u64

record stack_scan =
  ss_returns :: "(u64 \<times> u64) list"
  ss_reports :: "stack_report list"
  ss_interesting :: bool

text \<open>A pointer into a loader's initialised code that is neither a function nor a symbol is kept.\<close>

definition stack_pointer ::
  "symbol_env \<Rightarrow> ElfKernelLoader \<Rightarrow> u64 \<Rightarrow> u64 \<Rightarrow> stack_scan \<Rightarrow> stack_scan res" where
  "stack_pointer env k at p s =
     bindE (getModuleForAddress k p) (\<lambda>f. case f of
         None \<Rightarrow> Inr s
       | Some m \<Rightarrow>
           let l = fl_loader m; off = p - memindex (textSegment l) in
           if \<not> ElfLoader_isCodeAddress l p then Inr s
           else if se_isFunction env p \<or> se_isSymbol env p then Inr s
           else if length (textSegmentContent l) < unat off
           then Inr (s\<lparr>ss_reports := ss_reports s @ [StackPointerBehindContent p at], ss_interesting := True\<rparr>)
           else Inr (s\<lparr>ss_returns := omap_put at p (ss_returns s)\<rparr>))"

definition stack_step ::
  "symbol_env \<Rightarrow> ElfKernelLoader \<Rightarrow> u64 \<Rightarrow> bytes \<Rightarrow> nat \<Rightarrow> stack_scan \<Rightarrow> (nat \<times> stack_scan) res" where
  "stack_step env k stackBottom memory i s =
     bindE (read32 memory i) (\<lambda>h.
       if h \<noteq> 0xffffffff then Inr (0, s)
       else bindE (pointer_before memory i) (\<lambda>p.
         if p = 0xffffffffffffffff then Inr (8, s)
         else mapE (Pair 0) (stack_pointer env k (of_nat (i - 4) + stackBottom) p s)))"

definition scan_stack ::
  "symbol_env \<Rightarrow> ElfKernelLoader \<Rightarrow> u64 \<Rightarrow> u64 \<Rightarrow> bytes \<Rightarrow> stack_scan res" where
  "scan_stack env k stackBottom stackEnd memory =
     skip_loop (stack_step env k stackBottom memory) (0x2000 - 4) (unat (stackEnd mod 0x2000))
       \<lparr>ss_returns = [], ss_reports = [], ss_interesting = False\<rparr>"

section \<open>The chain of calls\<close>

record stack_walk =
  oldRetFunc :: u64
  oldRetFuncName :: string
  sw_reports :: "stack_report list"
  sw_interesting :: bool

definition known_pair :: "string \<Rightarrow> string \<Rightarrow> bool" where
  "known_pair old new \<longleftrightarrow>
     (old = ''__schedule_kernel'' \<and> new = ''kthread_kernel'') \<or>
     (old = ''kthread_kernel'' \<and> new = ''do_exit'') \<or>
     (old = ''do_exit'' \<and> new = ''ret_from_fork'')"

text \<open>
  \<^verbatim>\<open>upper_bound(a)--\<close> leaves the iterator at the first entry behind \<open>a\<close>, which is
  read; from there the loop goes back to the last one not behind it. A missing entry on either side
  is an access outside the map.
\<close>

definition preceding_call :: "(u64 \<times> u64) list \<Rightarrow> u64 \<Rightarrow> u64 res" where
  "preceding_call targets a =
     (let behind = filter (\<lambda>t. a < fst t) targets; upto = filter (\<lambda>t. fst t \<le> a) targets in
      if behind = [] \<or> upto = [] then Inl OutOfBounds else Inr (fst (last upto)))"

definition call_recorded :: "(u64 \<times> u64) list \<Rightarrow> u64 \<Rightarrow> u64 \<Rightarrow> bool res" where
  "call_recorded targets ra old =
     (if targets = [] then Inr False
      else bindE (preceding_call targets ra) (\<lambda>a. Inr ((a, old) \<in> set targets)))"

definition link_ok ::
  "(u64 \<times> u64) list \<Rightarrow> u64 \<Rightarrow> u64 \<Rightarrow> string \<Rightarrow> stack_walk \<Rightarrow> bool res" where
  "link_ok targets ra callAddr retFuncName w =
     (if oldRetFunc w = 0 \<or> oldRetFunc w = callAddr \<or> known_pair (oldRetFuncName w) retFuncName
      then Inr True else call_recorded targets ra (oldRetFunc w))"

definition return_step ::
  "symbol_env \<Rightarrow> disasm \<Rightarrow> ElfKernelLoader \<Rightarrow> (u64 \<times> u64) list \<Rightarrow> u64 \<times> u64 \<Rightarrow> stack_walk \<Rightarrow> stack_walk res" where
  "return_step env dis k targets = (\<lambda>(at, ra) w.
     bindE (getModuleForAddress k ra) (\<lambda>f.
     bindE (deref f) (\<lambda>m.
     let l = fl_loader m in
     bindE (isReturnAddress dis (textSegmentContent l) (ucast (ra - memindex (textSegment l)))
       (memindex (textSegment l))) (\<lambda>callAddr.
     let retFunc = se_containing env ra; retFuncName = se_name env retFunc;
         nocall = (if callAddr = 0 then [StackPointerNoCall ra at (fl_name m)] else []);
         out = sw_reports w @ nocall @ [StackReturn ra at retFuncName retFunc] in
     bindE (link_ok targets ra callAddr retFuncName w) (\<lambda>ok.
       Inr \<lparr>oldRetFunc = retFunc, oldRetFuncName = retFuncName,
            sw_reports = (if ok then out else out @ [StackUnvalidated ra at callAddr]),
            sw_interesting = sw_interesting w \<or> callAddr = 0 \<or> \<not> ok\<rparr>)))))"

definition validateStackPage ::
  "symbol_env \<Rightarrow> disasm \<Rightarrow> KernelValidator \<Rightarrow> bytes \<Rightarrow> u64 \<Rightarrow> u64 \<Rightarrow> stack_walk res" where
  "validateStackPage env dis v memory stackBottom stackEnd =
     bindE (scan_stack env (kernelLoader v) stackBottom stackEnd memory) (\<lambda>s.
       foldE (return_step env dis (kernelLoader v) (callTargets v)) (ss_returns s)
         \<lparr>oldRetFunc = 0, oldRetFuncName = [], sw_reports = ss_reports s,
          sw_interesting = ss_interesting s\<rparr>)"

section \<open>What is recorded\<close>

text \<open>A recorded return address: its place on the stack holds it and it points into code.\<close>

definition recorded_ok :: "symbol_env \<Rightarrow> ElfKernelLoader \<Rightarrow> u64 \<Rightarrow> bytes \<Rightarrow> u64 \<times> u64 \<Rightarrow> bool" where
  "recorded_ok env k stackBottom memory r \<longleftrightarrow>
     (\<exists>i. fst r = of_nat i + stackBottom \<and> read64 memory i = Inr (snd r)) \<and>
     \<not> se_isFunction env (snd r) \<and> \<not> se_isSymbol env (snd r) \<and>
     (\<exists>m. getModuleForAddress k (snd r) = Inr (Some m) \<and> ElfLoader_isCodeAddress (fl_loader m) (snd r) \<and>
        unat (snd r - memindex (textSegment (fl_loader m))) \<le> length (textSegmentContent (fl_loader m)))"

lemma set_omap_put: "set (omap_put k v m) \<subseteq> insert (k, v) (set m)"
  by (induction k v m rule: omap_put.induct) auto

lemma stack_step_recorded:
  assumes "stack_step env k bottom memory i s = Inr (j, s')"
    and "\<forall>r \<in> set (ss_returns s). recorded_ok env k bottom memory r"
    and "sorted_wrt (<) (map fst (ss_returns s))"
  shows "(\<forall>r \<in> set (ss_returns s'). recorded_ok env k bottom memory r) \<and>
    sorted_wrt (<) (map fst (ss_returns s'))"
proof (cases "ss_returns s' = ss_returns s")
  case True
  with assms(2,3) show ?thesis by simp
next
  case False
  obtain at where at: "of_nat (i - 4) + bottom = at" by simp
  from assms(1) False obtain p where p: "pointer_before memory i = Inr p"
    and sp: "stack_pointer env k at p s = Inr s'"
    unfolding stack_step_def at by (auto simp: mapE_def split: if_splits)
  from p have r: "read64 memory (i - 4) = Inr p" by (auto simp: pointer_before_def split: if_splits)
  from sp False obtain m where m: "getModuleForAddress k p = Inr (Some m)"
    "ElfLoader_isCodeAddress (fl_loader m) p" "\<not> se_isFunction env p" "\<not> se_isSymbol env p"
    "unat (p - memindex (textSegment (fl_loader m))) \<le> length (textSegmentContent (fl_loader m))"
    "ss_returns s' = omap_put at p (ss_returns s)"
    by (auto simp: stack_pointer_def Let_def split: option.splits if_splits)
  have "recorded_ok env k bottom memory (at, p)"
    using r m(1-5) at by (auto simp: recorded_ok_def)
  with m(6) assms(2,3) set_omap_put [of at p "ss_returns s"] sorted_omap_put show ?thesis by fastforce
qed

text \<open>The addresses a stack scan keeps are in ascending order of their place, each is what the stack
  holds there, points into the initialised code of the kernel or of a module, and is no symbol.\<close>

theorem scan_stack_recorded:
  assumes "scan_stack env k stackBottom stackEnd memory = Inr s"
  shows "sorted_wrt (<) (map fst (ss_returns s)) \<and>
    (\<forall>r \<in> set (ss_returns s). recorded_ok env k stackBottom memory r)"
proof -
  let ?P = "\<lambda>s. (\<forall>r \<in> set (ss_returns s). recorded_ok env k stackBottom memory r) \<and>
    sorted_wrt (<) (map fst (ss_returns s))"
  have "?P s"
    using assms unfolding scan_stack_def
  proof (rule skip_loop_invariant)
    show "?P t'" if "?P t" "stack_step env k stackBottom memory j t = Inr (i, t')" for j t i t'
      using stack_step_recorded [OF that(2)] that(1) by blast
  qed simp
  then show ?thesis by blast
qed

section \<open>What a quiet stack is\<close>

text \<open>One return address continues the one below it: the call before it, a recorded call target or a fixed
  pair of the scheduler leads to the function of the address below.\<close>

definition continues ::
  "symbol_env \<Rightarrow> disasm \<Rightarrow> ElfKernelLoader \<Rightarrow> (u64 \<times> u64) list \<Rightarrow> u64 \<Rightarrow> u64 \<Rightarrow> bool" where
  "continues env dis k targets below ra \<longleftrightarrow>
     (let old = se_containing env below; new = se_containing env ra in
      known_pair (se_name env old) (se_name env new) \<or>
      call_recorded targets ra old = Inr True \<or>
      (\<exists>m. getModuleForAddress k ra = Inr (Some m) \<and>
         isReturnAddress dis (textSegmentContent (fl_loader m))
           (ucast (ra - memindex (textSegment (fl_loader m)))) (memindex (textSegment (fl_loader m))) = Inr old))"

definition after_call :: "disasm \<Rightarrow> ElfKernelLoader \<Rightarrow> u64 \<Rightarrow> bool" where
  "after_call dis k ra \<longleftrightarrow>
     (\<exists>m c. getModuleForAddress k ra = Inr (Some m) \<and> c \<noteq> 0 \<and>
        isReturnAddress dis (textSegmentContent (fl_loader m))
          (ucast (ra - memindex (textSegment (fl_loader m)))) (memindex (textSegment (fl_loader m))) = Inr c)"

lemma deref_Inr [simp]: "deref x = Inr y \<longleftrightarrow> x = Some y"
  by (auto simp: deref_def split: option.splits)

text \<open>A return address whose place below lies in no known function is accepted after anything.\<close>

definition follows ::
  "symbol_env \<Rightarrow> disasm \<Rightarrow> ElfKernelLoader \<Rightarrow> (u64 \<times> u64) list \<Rightarrow> u64 \<Rightarrow> u64 \<Rightarrow> bool" where
  "follows env dis k targets below ra \<longleftrightarrow> se_containing env below = 0 \<or> continues env dis k targets below ra"

lemma return_step_interesting:
  assumes "return_step env dis k targets (at, ra) w = Inr w'"
  shows "oldRetFunc w' = se_containing env ra" "oldRetFuncName w' = se_name env (se_containing env ra)"
    "oldRetFunc w = 0 \<Longrightarrow> sw_interesting w' \<longleftrightarrow> sw_interesting w \<or> \<not> after_call dis k ra"
    "oldRetFunc w = se_containing env below \<Longrightarrow> oldRetFuncName w = se_name env (se_containing env below) \<Longrightarrow>
       sw_interesting w' \<longleftrightarrow>
         sw_interesting w \<or> \<not> after_call dis k ra \<or> \<not> follows env dis k targets below ra"
proof -
  from assms obtain m c ok where m: "getModuleForAddress k ra = Inr (Some m)"
    and c: "isReturnAddress dis (textSegmentContent (fl_loader m))
      (ucast (ra - memindex (textSegment (fl_loader m)))) (memindex (textSegment (fl_loader m))) = Inr c"
    and ok: "link_ok targets ra c (se_name env (se_containing env ra)) w = Inr ok"
    and w': "sw_interesting w' = (sw_interesting w \<or> c = 0 \<or> \<not> ok)" "oldRetFunc w' = se_containing env ra"
      "oldRetFuncName w' = se_name env (se_containing env ra)"
    by (auto simp: return_step_def Let_def)
  have a: "after_call dis k ra \<longleftrightarrow> c \<noteq> 0" using m c by (simp add: after_call_def)
  show "oldRetFunc w' = se_containing env ra" "oldRetFuncName w' = se_name env (se_containing env ra)"
    by (rule w')+
  show "sw_interesting w' \<longleftrightarrow> sw_interesting w \<or> \<not> after_call dis k ra" if "oldRetFunc w = 0"
    using ok w'(1) a that by (simp add: link_ok_def)
  show "sw_interesting w' \<longleftrightarrow>
      sw_interesting w \<or> \<not> after_call dis k ra \<or> \<not> follows env dis k targets below ra"
    if "oldRetFunc w = se_containing env below" "oldRetFuncName w = se_name env (se_containing env below)"
  proof -
    have "ok \<longleftrightarrow> follows env dis k targets below ra"
      using ok m c that by (auto simp: link_ok_def follows_def continues_def Let_def split: if_splits)
    with w'(1) a show ?thesis by simp
  qed
qed

fun chained :: "(u64 \<Rightarrow> u64 \<Rightarrow> bool) \<Rightarrow> u64 list \<Rightarrow> bool" where
  "chained R (x # y # xs) \<longleftrightarrow> R x y \<and> chained R (y # xs)"
| "chained R xs \<longleftrightarrow> True"

lemma return_fold_interesting:
  assumes "foldE (return_step env dis k targets) rs w = Inr w'"
    and "oldRetFunc w = se_containing env below" and "oldRetFuncName w = se_name env (se_containing env below)"
  shows "sw_interesting w' \<longleftrightarrow> sw_interesting w \<or> (\<exists>r \<in> set rs. \<not> after_call dis k (snd r)) \<or>
    \<not> chained (follows env dis k targets) (below # map snd rs)"
  using assms
proof (induction rs arbitrary: w below)
  case (Cons r rs)
  obtain at ra where r: "r = (at, ra)" by (cases r)
  from Cons.prems(1) obtain w1 where st: "return_step env dis k targets (at, ra) w = Inr w1"
    and rest: "foldE (return_step env dis k targets) rs w1 = Inr w'" by (auto simp: r)
  note q = return_step_interesting [OF st]
  from Cons.IH [OF rest q(1,2)] q(4) [OF Cons.prems(2,3)] show ?case by (auto simp: r)
qed simp

text \<open>C14: A stack raises no suspicion exactly if the scan met no pointer behind the code of a loader, every
  return address lies right behind a call, and every one after the first follows the one below it: that
  call's target, the recorded call targets or the fixed pairs of the scheduler lead to the function of the
  address below, or that address lies in no function the symbols know. In this last case, of which the
  comment in the source says nothing, any return address is accepted.\<close>

theorem quiet_stack_iff:
  assumes "validateStackPage env dis v memory stackBottom stackEnd = Inr w"
    and "scan_stack env (kernelLoader v) stackBottom stackEnd memory = Inr s"
  shows "\<not> sw_interesting w \<longleftrightarrow>
    \<not> ss_interesting s \<and> (\<forall>r \<in> set (ss_returns s). after_call dis (kernelLoader v) (snd r)) \<and>
    chained (\<lambda>below ra. se_containing env below = 0 \<or>
      continues env dis (kernelLoader v) (callTargets v) below ra) (map snd (ss_returns s))"
proof -
  let ?w0 = "\<lparr>oldRetFunc = 0, oldRetFuncName = [], sw_reports = ss_reports s, sw_interesting = ss_interesting s\<rparr>"
  let ?R = "follows env dis (kernelLoader v) (callTargets v)"
  have R: "(\<lambda>below ra. se_containing env below = 0 \<or>
      continues env dis (kernelLoader v) (callTargets v) below ra) = ?R"
    by (intro ext) (simp add: follows_def)
  from assms have f: "foldE (return_step env dis (kernelLoader v) (callTargets v)) (ss_returns s) ?w0 = Inr w"
    by (simp add: validateStackPage_def)
  show ?thesis
  proof (cases "ss_returns s")
    case Nil
    with f show ?thesis by auto
  next
    case (Cons r rs)
    obtain at ra where r: "r = (at, ra)" by (cases r)
    from f Cons obtain w1 where st: "return_step env dis (kernelLoader v) (callTargets v) (at, ra) ?w0 = Inr w1"
      and rest: "foldE (return_step env dis (kernelLoader v) (callTargets v)) rs w1 = Inr w" by (auto simp: r)
    note q = return_step_interesting [OF st]
    from return_fold_interesting [OF rest q(1,2)] q(3) Cons show ?thesis unfolding R by (auto simp: r)
  qed
qed

section \<open>The list of stacks\<close>

text \<open>
  The tasks of the guest, read through libdwarfparser: \<open>te_next\<close> follows
  \<^verbatim>\<open>tasks.next\<close>, the other fields are the members of
  \<^verbatim>\<open>thread_struct\<close>.
\<close>

record task_env =
  te_init :: u64
  te_next :: "u64 \<Rightarrow> u64"
  te_sp0 :: "u64 \<Rightarrow> u64"
  te_sp :: "u64 \<Rightarrow> u64"

definition stack_bottom :: "task_env \<Rightarrow> u64 \<Rightarrow> u64" where
  "stack_bottom te task = (te_sp0 te task - 0x2000) XOR 0xffff000000000000"

definition updateStackAddresses :: "task_env \<Rightarrow> KernelValidator \<Rightarrow> KernelValidator option" where
  "updateStackAddresses te v =
     map_option (\<lambda>m. v\<lparr>stackAddresses := m\<rparr>)
       (list_walk_do (te_next te) (te_init te)
         (\<lambda>task. omap_put (stack_bottom te task) (te_sp te task)) [])"

text \<open>C15: The collection of the kernel stacks ends exactly when the guest's task list leads back to
  \<^verbatim>\<open>init_task\<close>; then it maps the bottom of every task's stack to that task's stack
  pointer, the last task's where two share a stack. On any other list it never returns.\<close>

theorem updateStackAddresses_spec:
  "case updateStackAddresses te v of
     None \<Rightarrow> \<forall>n. (te_next te ^^ Suc n) (te_init te) \<noteq> te_init te
   | Some v' \<Rightarrow> \<exists>n. closes_after (te_next te) (te_init te) (te_next te (te_init te)) n \<and>
       v' = v\<lparr>stackAddresses := stackAddresses v'\<rparr> \<and>
       map_of (stackAddresses v') = map_of (rev (map (\<lambda>t. (stack_bottom te t, te_sp te t))
         (nodes (te_next te) (te_init te) (Suc n))))"
proof (cases "updateStackAddresses te v")
  case None
  then have walk: "list_walk_do (te_next te) (te_init te)
      (\<lambda>task. omap_put (stack_bottom te task) (te_sp te task)) [] = None"
    by (simp add: updateStackAddresses_def)
  have no: "\<not> closes_after (te_next te) (te_init te) (te_next te (te_init te)) n" for n
  proof
    assume "closes_after (te_next te) (te_init te) (te_next te (te_init te)) n"
    from list_walk_closes [OF this, of "\<lambda>task. omap_put (stack_bottom te task) (te_sp te task)"] walk
    show False by (simp add: list_walk_do_def)
  qed
  have "(te_next te ^^ n) (te_next te (te_init te)) \<noteq> te_init te" for n
  proof (induction n rule: less_induct)
    case (less n)
    with no [of n] show ?case unfolding closes_after_def by blast
  qed
  then have "(te_next te ^^ Suc n) (te_init te) \<noteq> te_init te" for n
    by (simp only: funpow_Suc_right comp_apply not_False_eq_True)
  with None show ?thesis by simp
next
  case (Some v')
  let ?kvs = "\<lambda>n. map (\<lambda>t. (stack_bottom te t, te_sp te t)) (nodes (te_next te) (te_init te) (Suc n))"
  from Some obtain n where n: "closes_after (te_next te) (te_init te) (te_next te (te_init te)) n"
    and v': "v' = v\<lparr>stackAddresses := ordered_map.store_all (?kvs n) []\<rparr>"
    by (auto simp: updateStackAddresses_def list_walk_do_iff ordered_map.store_all_fold)
  have "map_of (stackAddresses v') = map_of (rev (?kvs n))"
    unfolding v' by (rule ext) (simp add: ordered_map.look_store_all split: option.split del: nodes.simps)
  with Some n v' show ?thesis by auto
qed

section \<open>An example\<close>

text \<open>A scan that starts behind a block the stack does not use.\<close>

lemma scan_stack_tail:
  assumes "length pad + n = 0x2000 - 4" and "unat (stackEnd mod 0x2000) = length pad"
    and "\<forall>i < 4. \<exists>w. read32 tail i = Inr w \<and> w \<noteq> 0xffffffff"
  shows "scan_stack env k bottom stackEnd (pad @ tail)
    = skip_loop (stack_step env k (bottom + of_nat (length pad)) tail) n 0
        \<lparr>ss_returns = [], ss_reports = [], ss_interesting = False\<rparr>"
proof -
  have step: "stack_step env k bottom (pad @ tail) (length pad + i) s
      = stack_step env k (bottom + of_nat (length pad)) tail i s" for i s
  proof (cases "i < 4")
    case True
    with assms(3) obtain w where "read32 tail i = Inr w" "w \<noteq> 0xffffffff" by blast
    moreover have "read32 (pad @ tail) (length pad + i) = read32 tail i"
      by (simp add: read32_def bread_def)
    ultimately show ?thesis by (simp add: stack_step_def)
  next
    case False
    then obtain j where "i = 4 + j" using le_Suc_ex not_less by blast
    then show ?thesis
      by (simp add: stack_step_def read32_def read64_def bread_def pointer_before_def algebra_simps)
  qed
  show ?thesis
    unfolding scan_stack_def assms(2) assms(1) [symmetric]
    using skip_loop_shift [of 0 n "stack_step env k bottom (pad @ tail)" "length pad"
        "stack_step env k (bottom + of_nat (length pad)) tail"] step by simp
qed

text \<open>Two return addresses behind the same call, whose target is the function they lie in.\<close>

definition ex_stack_tail :: bytes where
  "ex_stack_tail = replicate 8 0 @ to_le 8 (0xffffffff82000005 :: u64) @ to_le 8 (0xffffffff82000005 :: u64) @
     replicate 8 0"

definition ex_stack :: bytes where
  "ex_stack = replicate 0x1fe0 0 @ ex_stack_tail"

definition ex_call :: disasm where
  "ex_call bs a =
     (if a = 0xffffffff82000000 then Some \<lparr>insn_size = 5, mnemonic = ''call'', op_str = ''0x1234''\<rparr>
      else if a = 0xffffffff82000005 then Some \<lparr>insn_size = 1, mnemonic = ''nop'', op_str = []\<rparr> else None)"

definition ex_stack_symbols :: symbol_env where
  "ex_stack_symbols = ex_symbols\<lparr>se_containing := (\<lambda>_. 0x1234)\<rparr>"

definition ex_stack_validator :: KernelValidator where
  "ex_stack_validator = ex_validator\<lparr>kernelLoader := ex_kernel\<lparr>textSegmentContent := replicate 32 0x90\<rparr>\<rparr>"

definition ex_stack_scan :: stack_scan where
  "ex_stack_scan = \<lparr>ss_returns = [(0xffff880000003fe8, 0xffffffff82000005), (0xffff880000003ff0, 0xffffffff82000005)],
     ss_reports = [], ss_interesting = False\<rparr>"

lemma ex_stack_tail_run:
  "skip_loop (stack_step ex_stack_symbols (kernelLoader ex_stack_validator) 0xffff880000003fe0 ex_stack_tail) 28 0
     \<lparr>ss_returns = [], ss_reports = [], ss_interesting = False\<rparr> = Inr ex_stack_scan"
  by code_simp

lemma ex_stack_run:
  "scan_stack ex_stack_symbols (kernelLoader ex_stack_validator) 0xffff880000002000 0x1fe0 ex_stack = Inr ex_stack_scan"
proof -
  have "\<forall>i \<in> set [0..<4]. case read32 ex_stack_tail i of Inr w \<Rightarrow> w \<noteq> 0xffffffff | Inl _ \<Rightarrow> False" by code_simp
  then have c: "case read32 ex_stack_tail i of Inr w \<Rightarrow> w \<noteq> 0xffffffff | Inl _ \<Rightarrow> False" if "i < 4" for i
    using that by fastforce
  have "\<exists>w. read32 ex_stack_tail i = Inr w \<and> w \<noteq> 0xffffffff" if "i < 4" for i
    using c [OF that] by (cases "read32 ex_stack_tail i") auto
  then have tl: "\<forall>i < 4. \<exists>w. read32 ex_stack_tail i = Inr w \<and> w \<noteq> 0xffffffff" by blast
  have pad: "length (replicate 0x1fe0 (0 :: u8)) + 28 = 0x2000 - 4" by (simp only: length_replicate)
  have at: "unat ((0x1fe0 :: u64) mod 0x2000) = length (replicate 0x1fe0 (0 :: u8))"
    by (simp only: length_replicate) simp
  have bottom: "0xffff880000002000 + of_nat (length (replicate 0x1fe0 (0 :: u8))) = (0xffff880000003fe0 :: u64)"
    by (simp only: length_replicate) simp
  show ?thesis
    unfolding ex_stack_def scan_stack_tail [OF pad at tl] bottom by (rule ex_stack_tail_run)
qed

lemma ex_stack_walk_run:
  "mapE sw_interesting (foldE (return_step ex_stack_symbols ex_call (kernelLoader ex_stack_validator) [])
     (ss_returns ex_stack_scan)
     \<lparr>oldRetFunc = 0, oldRetFuncName = [], sw_reports = [], sw_interesting = False\<rparr>) = Inr False"
  by code_simp

theorem scan_stack_recorded_witness:
  "recorded_ok ex_stack_symbols (kernelLoader ex_stack_validator) 0xffff880000002000 ex_stack
     (0xffff880000003fe8, 0xffffffff82000005)"
  using scan_stack_recorded [OF ex_stack_run] by (simp add: ex_stack_scan_def)

theorem quiet_stack_iff_witness:
  "continues ex_stack_symbols ex_call (kernelLoader ex_stack_validator) [] 0xffffffff82000005 0xffffffff82000005"
proof -
  have "mapE sw_interesting (validateStackPage ex_stack_symbols ex_call ex_stack_validator ex_stack
      0xffff880000002000 0x1fe0) = Inr False"
    using ex_stack_walk_run
    by (simp add: validateStackPage_def ex_stack_run)
      (simp add: ex_stack_scan_def ex_stack_validator_def ex_validator_def)
  then obtain w where w: "validateStackPage ex_stack_symbols ex_call ex_stack_validator ex_stack
      0xffff880000002000 0x1fe0 = Inr w" and quiet: "\<not> sw_interesting w" by (auto simp: mapE_def)
  have "se_containing ex_stack_symbols a = 0x1234" for a by (simp add: ex_stack_symbols_def)
  with quiet_stack_iff [OF w ex_stack_run] quiet show ?thesis
    by (simp add: ex_stack_scan_def ex_stack_validator_def ex_validator_def)
qed

end
