(* ===== verification/KernelValidator.thy ===== *)
theory KernelValidator
  imports StackValidator "HOL-Library.Multiset"
begin

text \<open>
  The rest of \<^verbatim>\<open>src/kernelvalidator.cpp\<close>: which check a page gets, the rounds over all
  pages and the file of recorded call targets. The guest at the time of a round is
  \<open>vm_env\<close>, what libvmiwrapper answers.
\<close>

section \<open>One page\<close>

record vm_env =
  vm_read :: "u64 \<Rightarrow> nat \<Rightarrow> bytes"
  vm_pages :: "page_info list"
  vm_executable :: "page_info \<Rightarrow> bool"
  vm_tasks :: task_env

text \<open>The virtual \<^verbatim>\<open>isDataAddress\<close> of the loader that was found.\<close>

definition found_isDataAddress :: "found_loader \<Rightarrow> u64 \<Rightarrow> bool res" where
  "found_isDataAddress f a =
     (case fl_kind f of
        KernelLoader \<Rightarrow> ElfFile64_isDataAddress (elffile (fl_loader f)) (kernel_half a)
      | ModuleLoader \<Rightarrow> Inr (ElfModuleLoader_isDataAddress (fl_loader f) a))"

definition page_content :: "vm_env \<Rightarrow> page_info \<Rightarrow> bytes" where
  "page_content vm page = vm_read vm (vaddr page) (unat (pg_size page))"

text \<open>The warning about executable data is given once.\<close>

definition warn_executable ::
  "vm_env \<Rightarrow> page_info \<Rightarrow> KernelValidator \<Rightarrow> KernelValidator \<times> report list" where
  "warn_executable vm page v =
     (if vm_executable vm page \<and> \<not> execData v then (v\<lparr>execData := True\<rparr>, [ExecutableData]) else (v, []))"

definition is_c9_page :: "page_info \<Rightarrow> bool" where
  "is_c9_page page \<longleftrightarrow> vaddr page AND 0xff0000000000 = 0xc900000000000"

definition is_identity_page :: "page_info \<Rightarrow> bool" where
  "is_identity_page page \<longleftrightarrow> vaddr page AND 0xff0000000000 = 0x8800000000000"

definition validatePage ::
  "symbol_env \<Rightarrow> disasm \<Rightarrow> vm_env \<Rightarrow> page_info \<Rightarrow> KernelValidator \<Rightarrow> (KernelValidator \<times> report list) res" where
  "validatePage env dis vm page v =
     (if is_c9_page page then Inr (v, [])
      else let k = kernelLoader v in
       bindE (getModuleForAddress k (vaddr page)) (\<lambda>f. case f of
           None \<Rightarrow> Inr (v, if vm_executable vm page then [NoModuleFound (vaddr page)] else [])
         | Some m \<Rightarrow>
             if codeValidation (options v) \<and> ElfLoader_isCodeAddress (fl_loader m) (vaddr page)
             then mapE (\<lambda>c. (v, [CodeVerdict c]))
               (validateCodePage (paravirt k) (genericUnrolledAddress k) page m (page_content vm page))
             else bindE (andE (Inr (pointerExamination (options v))) (found_isDataAddress m (vaddr page)))
               (\<lambda>d. if \<not> d then Inr (v, [])
                  else let (v1, warn) = warn_executable vm page v in
                    mapE (\<lambda>(v2, out). (v2, warn @ out))
                      (validateDataPage env dis v1 page m (page_content vm page)))))"

section \<open>Rounds\<close>

definition validate_stacks ::
  "symbol_env \<Rightarrow> disasm \<Rightarrow> vm_env \<Rightarrow> KernelValidator \<Rightarrow> KernelValidator res" where
  "validate_stacks env dis vm v =
     (if \<not> pointerExamination (options v) then Inr v
      else bindE (returnsE (updateStackAddresses (vm_tasks vm) v)) (\<lambda>v1.
        foldE (\<lambda>(bottom, sp) u. mapE (\<lambda>_. u)
            (validateStackPage env dis u (vm_read vm bottom 0x2000) bottom sp))
          (stackAddresses v1) v1))"

definition page_step ::
  "symbol_env \<Rightarrow> disasm \<Rightarrow> vm_env \<Rightarrow> page_info \<Rightarrow> KernelValidator \<times> report list \<Rightarrow>
   (KernelValidator \<times> report list) res" where
  "page_step env dis vm page = (\<lambda>(v, out).
     if is_identity_page page then Inr (v, out)
     else mapE (\<lambda>(v', out'). (v', out @ out')) (validatePage env dis vm page v))"

definition validate_round ::
  "symbol_env \<Rightarrow> disasm \<Rightarrow> vm_env \<Rightarrow> KernelValidator \<Rightarrow> (KernelValidator \<times> report list) res" where
  "validate_round env dis vm v =
     bindE (validate_stacks env dis vm (v\<lparr>globalCodePtrs := 0\<rparr>)) (\<lambda>v1.
       foldE (page_step env dis vm) (vm_pages vm) (v1, []))"

text \<open>
  \<^verbatim>\<open>validatePages\<close>: a round, and again while the loop mode is on. The guest changes from
  round to round; \<open>None\<close> is a loop that never returns.
\<close>

partial_function (option) validate_loop ::
  "(nat \<Rightarrow> KernelValidator \<Rightarrow> (KernelValidator \<times> report list) res) \<Rightarrow> nat \<Rightarrow> KernelValidator \<Rightarrow> report list \<Rightarrow>
   (nat \<times> KernelValidator \<times> report list) res option" where
  "validate_loop round iterations v out =
     (case round iterations v of
        Inl e \<Rightarrow> Some (Inl e)
      | Inr r \<Rightarrow>
          if loopMode (options (fst r)) then validate_loop round (Suc iterations) (fst r) (out @ snd r)
          else Some (Inr (Suc iterations, fst r, out @ snd r)))"

definition validatePages ::
  "symbol_env \<Rightarrow> disasm \<Rightarrow> (nat \<Rightarrow> vm_env) \<Rightarrow> KernelValidator \<Rightarrow>
   (nat \<times> KernelValidator \<times> report list) res option" where
  "validatePages env dis vms v = validate_loop (\<lambda>n. validate_round env dis (vms n)) 0 v []"

section \<open>The file of call targets\<close>

text \<open>
  A \<^verbatim>\<open>std::ifstream\<close>: what is left to read, \<^verbatim>\<open>failbit\<close> and \<^verbatim>\<open>eofbit\<close>. Opening a file that is not
  there sets \<^verbatim>\<open>failbit\<close> alone. A \<^verbatim>\<open>read\<close> from a stream that is not \<^verbatim>\<open>good()\<close> transfers nothing and sets
  \<^verbatim>\<open>failbit\<close>; one that gets fewer bytes than asked for sets both bits and overwrites only the bytes
  it got, so that the variable read into keeps the rest of its value \<open>old\<close>.
\<close>

record ifstream =
  in_left :: bytes
  in_fail :: bool
  in_eof :: bool

definition open_stream :: "bytes option \<Rightarrow> ifstream" where
  "open_stream f =
     (case f of None \<Rightarrow> \<lparr>in_left = [], in_fail = True, in_eof = False\<rparr>
      | Some bs \<Rightarrow> \<lparr>in_left = bs, in_fail = False, in_eof = False\<rparr>)"

definition read_word :: "ifstream \<Rightarrow> u64 \<Rightarrow> ifstream \<times> u64" where
  "read_word s old =
     (if in_fail s \<or> in_eof s then (s\<lparr>in_fail := True\<rparr>, old)
      else let got = take 8 (in_left s); short = length got < 8 in
        (\<lparr>in_left = drop 8 (in_left s), in_fail = short, in_eof = short\<rparr>,
         of_le (got @ drop (length got) (to_le 8 old))))"

text \<open>
  The variables of the loop over the file. A pass is \<open>None\<close> when the loop is left, by its condition or
  by the \<^verbatim>\<open>break\<close>. The second \<^verbatim>\<open>read\<close> of a record is not checked.
\<close>

record target_state =
  infile :: ifstream
  callAddr :: u64
  callDest :: u64
  read_pairs :: "(u64 \<times> u64) list"

definition target_pass :: "target_state \<Rightarrow> target_state option" where
  "target_pass s =
     (if in_eof (infile s) then None
      else let (i, a) = read_word (infile s) (callAddr s) in
        if in_eof i then None
        else let (j, d) = read_word i (callDest s) in
          Some \<lparr>infile = j, callAddr = a, callDest = d, read_pairs = mmap_insert a d (read_pairs s)\<rparr>)"

text \<open>Whether the loop ends is not decided here: \<open>None\<close> is a loop that goes on forever.\<close>

partial_function (option) target_loop :: "target_state \<Rightarrow> (u64 \<times> u64) list option" where
  "target_loop s =
     (case target_pass s of None \<Rightarrow> Some (read_pairs s) | Some s' \<Rightarrow> target_loop s')"

text \<open>The variables at the start; \<open>garbage\<close> is what \<^verbatim>\<open>callAddr\<close> and \<^verbatim>\<open>callDest\<close> hold uninitialised.\<close>

definition target_start :: "u64 \<times> u64 \<Rightarrow> bytes option \<Rightarrow> target_state" where
  "target_start garbage f =
     \<lparr>infile = open_stream f, callAddr = fst garbage, callDest = snd garbage, read_pairs = []\<rparr>"

definition load_targets ::
  "u64 \<times> u64 \<Rightarrow> (string \<Rightarrow> bytes option) \<Rightarrow> string \<Rightarrow> (u64 \<times> u64) list res" where
  "load_targets garbage files targetsFile =
     (if targetsFile = [] then Inr []
      else case target_loop (target_start garbage (files targetsFile)) of
          None \<Rightarrow> Inl DoesNotReturn
        | Some m \<Rightarrow> Inr m)"

definition setOptions :: "bool \<Rightarrow> bool \<Rightarrow> bool \<Rightarrow> KernelValidator \<Rightarrow> KernelValidator" where
  "setOptions lm cv pe v =
     v\<lparr>options := \<lparr>loopMode = lm, codeValidation = cv, pointerExamination = pe\<rparr>\<rparr>"

text \<open>The constructor; \<open>loadAll\<close> is \<^verbatim>\<open>loadAllModules\<close>.\<close>

definition KernelValidator_new ::
  "(ElfKernelLoader \<Rightarrow> ElfKernelLoader res) \<Rightarrow> u64 \<times> u64 \<Rightarrow> (string \<Rightarrow> bytes option) \<Rightarrow> ElfKernelLoader \<Rightarrow>
   string \<Rightarrow> KernelValidator res" where
  "KernelValidator_new loadAll garbage files k targetsFile =
     bindE (loadAll k) (\<lambda>k'.
     bindE (load_targets garbage files targetsFile) (\<lambda>ts.
       Inr (setOptions False True True
         \<lparr>options = \<lparr>loopMode = False, codeValidation = True, pointerExamination = True\<rparr>,
          kernelLoader = k', stackAddresses = [], callTargets = ts, globalCodePtrs = 0,
          execData = False\<rparr>)))"

section \<open>Every code page is checked\<close>

text \<open>The masks of the two page filters leave no address for them: bits above the mask are compared.\<close>

lemma page_filters_dead [simp]: "is_identity_page page \<longleftrightarrow> False" "is_c9_page page \<longleftrightarrow> False"
proof -
  have no: "vaddr page AND 0xff0000000000 \<noteq> c" if "\<not> bit (0xff0000000000 :: u64) n" "bit c n" for c :: u64 and n
    using that by (metis bit_and_iff)
  have "\<not> bit (0xff0000000000 :: u64) 51" "bit (0x8800000000000 :: u64) 51" "bit (0xc900000000000 :: u64) 51"
    by code_simp+
  with no show "is_identity_page page \<longleftrightarrow> False" "is_c9_page page \<longleftrightarrow> False"
    using no [of 51 "0x8800000000000"] no [of 51 "0xc900000000000"]
    by (simp_all only: is_identity_page_def is_c9_page_def not_False_eq_True)
qed

definition same_kernel :: "KernelValidator \<Rightarrow> KernelValidator \<Rightarrow> bool" where
  "same_kernel v v' \<longleftrightarrow> kernelLoader v' = kernelLoader v \<and> options v' = options v"

lemma validateDataPage_same:
  "validateDataPage env dis v page f pm = Inr (v', out) \<Longrightarrow> same_kernel v v'"
  by (auto simp: validateDataPage_def check_pointers_def mapE_def same_kernel_def Let_def split: if_splits)

lemma validatePage_same:
  assumes "validatePage env dis vm page v = Inr (v', out)"
  shows "same_kernel v v'"
proof -
  obtain v1 warn where w: "warn_executable vm page v = (v1, warn)" by (cases "warn_executable vm page v")
  then have "same_kernel v v1" by (auto simp: warn_executable_def same_kernel_def split: if_splits)
  moreover have "v' = v \<or> (\<exists>m pm out'. validateDataPage env dis v1 page m pm = Inr (v', out'))"
    using assms by (auto simp: validatePage_def mapE_def Let_def w split: option.splits if_splits)
  ultimately show ?thesis using validateDataPage_same by (fastforce simp: same_kernel_def)
qed

lemma updateStackAddresses_same: "updateStackAddresses te v = Some v' \<Longrightarrow> same_kernel v v'"
  by (auto simp: updateStackAddresses_def same_kernel_def)

lemma validate_stacks_same:
  assumes "validate_stacks env dis vm v = Inr v'"
  shows "same_kernel v v'"
proof (cases "pointerExamination (options v)")
  case True
  with assms obtain v1 where v1: "updateStackAddresses (vm_tasks vm) v = Some v1"
    and f: "foldE (\<lambda>(bottom, sp) u. mapE (\<lambda>_. u)
      (validateStackPage env dis u (vm_read vm bottom 0x2000) bottom sp)) (stackAddresses v1) v1 = Inr v'"
    by (auto simp: validate_stacks_def)
  from f have "v' = v1"
    by (rule foldE_invariant) (auto simp: mapE_def)
  with updateStackAddresses_same [OF v1] show ?thesis by simp
next
  case False
  with assms show ?thesis by (simp add: validate_stacks_def same_kernel_def)
qed

text \<open>The verdict on a code page.\<close>

definition page_verdict ::
  "ElfKernelLoader \<Rightarrow> vm_env \<Rightarrow> page_info \<Rightarrow> found_loader \<Rightarrow> code_verdict res" where
  "page_verdict k vm page m =
     validateCodePage (paravirt k) (genericUnrolledAddress k) page m (page_content vm page)"

lemma page_steps_verdicts:
  assumes "foldE (page_step env dis vm) ps (v, out) = Inr (v', out')"
    and "codeValidation (options v)"
  shows "set out \<subseteq> set out' \<and>
    (\<forall>page \<in> set ps. \<forall>m. getModuleForAddress (kernelLoader v) (vaddr page) = Inr (Some m) \<longrightarrow>
       ElfLoader_isCodeAddress (fl_loader m) (vaddr page) \<longrightarrow>
       (\<exists>c. page_verdict (kernelLoader v) vm page m = Inr c \<and> CodeVerdict c \<in> set out'))"
  using assms
proof (induction ps arbitrary: v out)
  case Nil
  then show ?case by simp
next
  case (Cons page ps)
  from Cons.prems(1) obtain v1 o1 where st: "validatePage env dis vm page v = Inr (v1, o1)"
    and rest: "foldE (page_step env dis vm) ps (v1, out @ o1) = Inr (v', out')"
  proof -
    from Cons.prems(1) obtain r where r: "page_step env dis vm page (v, out) = Inr r"
      and rest: "foldE (page_step env dis vm) ps r = Inr (v', out')" by auto
    from r obtain v1 o1 where "validatePage env dis vm page v = Inr (v1, o1)" "r = (v1, out @ o1)"
      by (auto simp: page_step_def mapE_def)
    with rest show ?thesis using that by blast
  qed
  have same: "kernelLoader v1 = kernelLoader v" "codeValidation (options v1)"
    using validatePage_same [OF st] Cons.prems(2) by (simp_all add: same_kernel_def)
  have "\<exists>c. page_verdict (kernelLoader v) vm page m = Inr c \<and> CodeVerdict c \<in> set o1"
    if "getModuleForAddress (kernelLoader v) (vaddr page) = Inr (Some m)"
      "ElfLoader_isCodeAddress (fl_loader m) (vaddr page)" for m
    using st that Cons.prems(2) by (auto simp: validatePage_def page_verdict_def mapE_def Let_def)
  with Cons.IH [OF rest same(2)] same(1) show ?case by (auto simp: subset_eq)
qed

text \<open>C16: A round that completes has compared every page that lies in the text of the kernel or of a
  module with the loaded image, and its verdict is among the reports; no page is filtered out.\<close>

theorem round_checks_every_code_page:
  assumes "validate_round env dis vm v = Inr (v', out)" and "codeValidation (options v)"
    and "page \<in> set (vm_pages vm)"
    and "getModuleForAddress (kernelLoader v) (vaddr page) = Inr (Some m)"
    and "ElfLoader_isCodeAddress (fl_loader m) (vaddr page)"
  shows "\<exists>c. page_verdict (kernelLoader v) vm page m = Inr c \<and> CodeVerdict c \<in> set out"
proof -
  from assms(1) obtain v1 where st: "validate_stacks env dis vm (v\<lparr>globalCodePtrs := 0\<rparr>) = Inr v1"
    and ps: "foldE (page_step env dis vm) (vm_pages vm) (v1, []) = Inr (v', out)"
    by (auto simp: validate_round_def)
  from validate_stacks_same [OF st] assms(2)
  have "kernelLoader v1 = kernelLoader v" "codeValidation (options v1)"
    by (simp_all add: same_kernel_def)
  with page_steps_verdicts [OF ps] assms(3-5) show ?thesis by fastforce
qed

section \<open>Loop mode\<close>

lemma page_steps_options:
  assumes "foldE (page_step env dis vm) ps (v, out) = Inr (v', out')"
  shows "options v' = options v"
proof -
  have "options (fst (v', out')) = options v"
    using assms
  proof (rule foldE_invariant)
    show "options (fst t') = options v"
      if "options (fst t) = options v" "page_step env dis vm p t = Inr t'" for p t t'
      using that validatePage_same by (fastforce simp: page_step_def mapE_def same_kernel_def split: prod.splits)
  qed simp
  then show ?thesis by simp
qed

lemma validate_round_options:
  assumes "validate_round env dis vm v = Inr (v', out)"
  shows "options v' = options v"
proof -
  from assms obtain v1 where st: "validate_stacks env dis vm (v\<lparr>globalCodePtrs := 0\<rparr>) = Inr v1"
    and ps: "foldE (page_step env dis vm) (vm_pages vm) (v1, []) = Inr (v', out)"
    by (auto simp: validate_round_def)
  from page_steps_options [OF ps] validate_stacks_same [OF st] show ?thesis by (simp add: same_kernel_def)
qed

lemmas validate_loop_induct = validate_loop.raw_induct [rotated, consumes 1, case_names step]



text \<open>The first \<open>n\<close> rounds, one after the other.\<close>

definition run_rounds ::
  "(nat \<Rightarrow> KernelValidator \<Rightarrow> (KernelValidator \<times> report list) res) \<Rightarrow> nat \<Rightarrow> KernelValidator \<Rightarrow>
   (KernelValidator \<times> report list) res" where
  "run_rounds round n v =
     foldE (\<lambda>k (u, out). mapE (\<lambda>(u', o1). (u', out @ o1)) (round k u)) [0..<n] (v, [])"

lemma run_rounds_0 [simp]: "run_rounds round 0 v = Inr (v, [])"
  by (simp add: run_rounds_def)

lemma run_rounds_Suc:
  "run_rounds round (Suc n) v =
     bindE (run_rounds round n v) (\<lambda>(u, out). mapE (\<lambda>(u', o1). (u', out @ o1)) (round n u))"
  by (simp add: run_rounds_def foldE_append bindE_def split: sum.splits)

text \<open>No round changes the options.\<close>

definition keeps_options :: "(nat \<Rightarrow> KernelValidator \<Rightarrow> (KernelValidator \<times> report list) res) \<Rightarrow> bool" where
  "keeps_options round \<longleftrightarrow> (\<forall>n u u' out. round n u = Inr (u', out) \<longrightarrow> options u' = options u)"

lemma run_rounds_loopMode:
  "keeps_options round \<Longrightarrow> loopMode (options v0) \<Longrightarrow> run_rounds round n v0 = Inr (u, out) \<Longrightarrow>
   loopMode (options u)"
proof (induction n arbitrary: u out)
  case (Suc n)
  then obtain w o1 o2 where "run_rounds round n v0 = Inr (w, o1)" "round n w = Inr (u, o2)"
    by (auto simp: run_rounds_Suc mapE_def bindE_Inr_iff split: prod.splits)
  with Suc.IH Suc.prems(1,2) show ?case by (metis keeps_options_def)
qed simp

lemma validate_loop_resumes:
  "keeps_options round \<Longrightarrow> loopMode (options v0) \<Longrightarrow> run_rounds round n v0 = Inr (u, out) \<Longrightarrow> validate_loop round 0 v0 [] = validate_loop round n u out"
proof (induction n arbitrary: u out)
  case (Suc n)
  then obtain w o1 o2 where w: "run_rounds round n v0 = Inr (w, o1)" "round n w = Inr (u, o2)" "out = o1 @ o2"
    by (auto simp: run_rounds_Suc mapE_def bindE_Inr_iff split: prod.splits)
  have "validate_loop round n w o1 = validate_loop round (Suc n) u out"
    using w(2,3) run_rounds_loopMode [OF Suc.prems] by (subst validate_loop.simps) simp
  with Suc.IH [OF Suc.prems(1,2) w(1)] show ?case by simp
qed simp

lemma validate_loop_fails:
  "keeps_options round \<Longrightarrow> loopMode (options v0) \<Longrightarrow> run_rounds round n v0 = Inl e \<Longrightarrow> validate_loop round 0 v0 [] = Some (Inl e)"
proof (induction n)
  case (Suc n)
  show ?case
  proof (cases "run_rounds round n v0")
    case (Inr r)
    obtain u out where r: "r = (u, out)" by (cases r)
    with Suc.prems(3) Inr have "round n u = Inl e" by (auto simp: run_rounds_Suc mapE_def bindE_def split: sum.splits)
    then have "validate_loop round n u out = Some (Inl e)" by (subst validate_loop.simps) simp
    with validate_loop_resumes [OF Suc.prems(1,2)] Inr r show ?thesis by simp
  qed (use Suc in \<open>simp add: run_rounds_Suc\<close>)
qed simp

lemma validate_loop_forever:
  assumes opts: "keeps_options round" "loopMode (options v0)"
    and all: "\<And>n. \<exists>r. run_rounds round n v0 = Inr r"
  shows "validate_loop round 0 v0 [] = None"
proof -
  have "False" if "validate_loop rd n u out = Some r" "rd = round" "run_rounds round n v0 = Inr (u, out)"
    for rd n u out r
    using that
  proof (induction rd n u out r rule: validate_loop_induct)
    case (step walk rd n u out r)
    from all [of "Suc n"] step(4) obtain u' o1 where q: "round n u = Inr (u', o1)"
      "run_rounds round (Suc n) v0 = Inr (u', out @ o1)"
      by (auto simp: run_rounds_Suc mapE_def bindE_def split: sum.splits)
    with step(2,3) run_rounds_loopMode [OF opts] have "walk round (Suc n) u' (out @ o1) = Some r" by auto
    with step(1) q(2) show ?case by blast
  qed
  from this [of round 0 v0 "[]"] show ?thesis by (cases "validate_loop round 0 v0 []") auto
qed

lemma validate_loop_rounds:
  assumes "keeps_options round" and "loopMode (options v0)"
  shows "case validate_loop round 0 v0 [] of
     None \<Rightarrow> \<forall>n. \<exists>r. run_rounds round n v0 = Inr r
   | Some (Inl e) \<Rightarrow> \<exists>n. run_rounds round n v0 = Inl e
   | Some (Inr r) \<Rightarrow> False"
proof (cases "\<exists>n e. run_rounds round n v0 = Inl e")
  case True
  then obtain n e where "run_rounds round n v0 = Inl e" by blast
  with validate_loop_fails [OF assms] show ?thesis by auto
next
  case False
  then have "\<exists>r. run_rounds round n v0 = Inr r" for n by (cases "run_rounds round n v0") auto
  with validate_loop_forever [OF assms] show ?thesis by simp
qed


section \<open>Recorded call targets\<close>

definition encode_targets :: "(u64 \<times> u64) list \<Rightarrow> bytes" where
  "encode_targets ts = concat (map (\<lambda>(a, d). to_le 8 a @ to_le 8 d) ts)"

definition in_stream :: "bytes \<Rightarrow> ifstream" where
  "in_stream bs = \<lparr>in_left = bs, in_fail = False, in_eof = False\<rparr>"

lemma in_stream_simps [simp]:
  "in_left (in_stream bs) = bs" "\<not> in_fail (in_stream bs)" "\<not> in_eof (in_stream bs)"
  by (simp_all add: in_stream_def)

lemma read_word_full:
  "read_word (in_stream (to_le 8 (w :: u64) @ rest)) old = (in_stream rest, w)"
  by (simp add: read_word_def in_stream_def of_le_to_le)

lemma read_word_short:
  "length rest < 8 \<Longrightarrow> read_word (in_stream rest) old =
     (\<lparr>in_left = [], in_fail = True, in_eof = True\<rparr>, of_le (rest @ drop (length rest) (to_le 8 old)))"
  by (simp add: read_word_def in_stream_def)

text \<open>What the records \<open>ts\<close> of a file, followed by fewer than sixteen bytes \<open>rest\<close>, say: eight bytes or
  more are the address of one more call, whose destination keeps the bytes of the last one that the
  file no longer has.\<close>

definition last_record :: "u64 \<Rightarrow> (u64 \<times> u64) list \<Rightarrow> bytes \<Rightarrow> (u64 \<times> u64) list" where
  "last_record old ts rest =
     (if length rest < 8 then []
      else [(of_le (take 8 rest),
        of_le (drop 8 rest @ drop (length rest - 8) (to_le 8 (if ts = [] then old else snd (last ts)))))])"

lemma target_loop_rest:
  assumes "length rest < 16"
  shows "target_loop \<lparr>infile = in_stream rest, callAddr = a, callDest = d, read_pairs = m\<rparr>
    = Some (fold (\<lambda>(a, d). mmap_insert a d) (last_record d [] rest) m)"
proof (cases "length rest < 8")
  case True
  then show ?thesis
    by (subst target_loop.simps) (simp add: target_pass_def read_word_short last_record_def)
next
  case False
  have "rest = to_le 8 (of_le (take 8 rest) :: u64) @ drop 8 rest"
    using False by (simp add: to_le_of_le)
  then have w: "read_word (in_stream rest) a = (in_stream (drop 8 rest), of_le (take 8 rest))"
    using read_word_full [of "of_le (take 8 rest)" "drop 8 rest" a] by simp
  have "read_word (in_stream (drop 8 rest)) d = (\<lparr>in_left = [], in_fail = True, in_eof = True\<rparr>,
      of_le (drop 8 rest @ drop (length rest - 8) (to_le 8 d)))"
    using read_word_short [of "drop 8 rest" d] assms by simp
  with w have "target_pass \<lparr>infile = in_stream rest, callAddr = a, callDest = d, read_pairs = m\<rparr>
      = Some \<lparr>infile = \<lparr>in_left = [], in_fail = True, in_eof = True\<rparr>, callAddr = of_le (take 8 rest),
          callDest = of_le (drop 8 rest @ drop (length rest - 8) (to_le 8 d)),
          read_pairs = mmap_insert (of_le (take 8 rest))
            (of_le (drop 8 rest @ drop (length rest - 8) (to_le 8 d))) m\<rparr>"
    by (simp add: target_pass_def)
  moreover have "target_loop \<lparr>infile = \<lparr>in_left = [], in_fail = True, in_eof = True\<rparr>, callAddr = b,
      callDest = c, read_pairs = p\<rparr> = Some p" for b c p
    by (subst target_loop.simps) (simp add: target_pass_def)
  ultimately show ?thesis using False
    by (subst target_loop.simps) (simp add: last_record_def)
qed

lemma target_loop_records:
  assumes "length rest < 16"
  shows "target_loop \<lparr>infile = in_stream (encode_targets ts @ rest), callAddr = a, callDest = d,
      read_pairs = m\<rparr> = Some (fold (\<lambda>(a, d). mmap_insert a d) (ts @ last_record d ts rest) m)"
proof (induction ts arbitrary: a d m)
  case Nil
  then show ?case using target_loop_rest [OF assms] by (simp add: encode_targets_def)
next
  case (Cons t ts)
  obtain b e where t: "t = (b, e)" by (cases t)
  have f: "encode_targets (t # ts) @ rest = to_le 8 b @ to_le 8 e @ encode_targets ts @ rest"
    by (simp add: encode_targets_def t)
  have "target_pass \<lparr>infile = in_stream (encode_targets (t # ts) @ rest), callAddr = a, callDest = d,
        read_pairs = m\<rparr>
      = Some \<lparr>infile = in_stream (encode_targets ts @ rest), callAddr = b, callDest = e,
          read_pairs = mmap_insert b e m\<rparr>"
    unfolding f by (simp add: target_pass_def read_word_full)
  moreover have "last_record d (t # ts) rest = last_record e ts rest"
    by (simp add: last_record_def t)
  ultimately show ?case using Cons.IH by (subst target_loop.simps) (simp add: t)
qed

text \<open>Every file is of this form.\<close>

lemma targets_parse: "\<exists>ts rest. bs = encode_targets ts @ rest \<and> length rest < 16"
proof (induction "length bs" arbitrary: bs rule: less_induct)
  case less
  show ?case
  proof (cases "length bs < 16")
    case True
    then show ?thesis by (intro exI [of _ "[]"] exI [of _ bs]) (simp add: encode_targets_def)
  next
    case False
    then have "length (drop 16 bs) < length bs" by simp
    from less [OF this] obtain ts rest where r: "drop 16 bs = encode_targets ts @ rest" "length rest < 16"
      by blast
    have d: "drop 8 (drop 8 bs) = encode_targets ts @ rest" using r(1) by simp
    have "encode_targets ((of_le (take 8 bs), of_le (take 8 (drop 8 bs))) # ts) @ rest
        = take 8 bs @ take 8 (drop 8 bs) @ encode_targets ts @ rest"
      using False by (simp add: encode_targets_def to_le_of_le)
    also have "\<dots> = bs" by (simp only: d [symmetric] append_take_drop_id)
    finally have "bs = encode_targets ((of_le (take 8 bs), of_le (take 8 (drop 8 bs))) # ts) @ rest" by (rule sym)
    with r(2) show ?thesis by (intro exI conjI)
  qed
qed

text \<open>Inserting into a multimap one after the other is a stable sort.\<close>

lemma filter_mmap_insert:
  "sorted (map fst m) \<Longrightarrow>
   filter (\<lambda>x. k = fst x) (mmap_insert a d m) = filter (\<lambda>x. k = fst x) m @ (if k = a then [(a, d)] else [])"
proof (induction a d m rule: mmap_insert.induct)
  case (2 a d a' d' m)
  have "filter (\<lambda>x. k = fst x) ((a', d') # m) = []" if "a < a'" "k = a"
    using that 2(2) by (auto simp: filter_empty_conv)
  with 2 show ?case by auto
qed simp

lemma mset_mmap_insert: "mset (mmap_insert a d m) = add_mset (a, d) (mset m)"
  by (induction a d m rule: mmap_insert.induct) auto

lemma fold_mmap_insert_mset: "mset (fold (\<lambda>(a, d). mmap_insert a d) ts m) = mset ts + mset m"
  by (induction ts arbitrary: m) (auto simp: mset_mmap_insert)

lemma fold_mmap_insert_sorted:
  "sorted (map fst m) \<Longrightarrow> sorted (map fst (fold (\<lambda>(a, d). mmap_insert a d) ts m))"
  by (induction ts arbitrary: m) (auto simp: sorted_mmap_insert)

lemma fold_mmap_insert_filter:
  "sorted (map fst m) \<Longrightarrow> filter (\<lambda>x. k = fst x) (fold (\<lambda>(a, d). mmap_insert a d) ts m)
     = filter (\<lambda>x. k = fst x) m @ filter (\<lambda>x. k = fst x) ts"
  by (induction ts arbitrary: m) (auto simp: sorted_mmap_insert filter_mmap_insert)

lemma fold_mmap_insert_sort: "fold (\<lambda>(a, d). mmap_insert a d) ts [] = sort_key fst ts"
proof (rule sym, rule properties_for_sort_key)
  show "sorted (map fst (fold (\<lambda>(a, d). mmap_insert a d) ts []))"
    by (rule fold_mmap_insert_sorted) simp
qed (simp_all add: fold_mmap_insert_mset fold_mmap_insert_filter)

text \<open>The passes of the loop one by one, and a stream in which nothing can be read.\<close>

primrec target_passes :: "nat \<Rightarrow> target_state \<Rightarrow> target_state option" where
  "target_passes 0 s = Some s"
| "target_passes (Suc n) s = (case target_pass s of None \<Rightarrow> None | Some s' \<Rightarrow> target_passes n s')"

lemma target_pass_failed:
  assumes "in_fail (infile s)" and "\<not> in_eof (infile s)"
  shows "target_pass s =
    Some (s\<lparr>read_pairs := mmap_insert (callAddr s) (callDest s) (read_pairs s)\<rparr>)"
  using assms by (simp add: target_pass_def read_word_def)

lemma target_loop_failed:
  "target_loop s = Some m \<Longrightarrow> in_fail (infile s) \<Longrightarrow> \<not> in_eof (infile s) \<Longrightarrow> False"
proof (induction rule: target_loop.raw_induct [rotated, consumes 1, case_names step])
  case (step f s m)
  from target_pass_failed [OF step(3,4)] step(2)
  have "f (s\<lparr>read_pairs := mmap_insert (callAddr s) (callDest s) (read_pairs s)\<rparr>) = Some m" by simp
  from step(1) [OF this] step(3,4) show ?case by simp
qed

lemma mmap_insert_replicate: "mmap_insert k v (replicate n (k, v)) = replicate (Suc n) (k, v)"
  by (induction n) simp_all

lemma target_passes_failed:
  "in_fail (infile s) \<Longrightarrow> \<not> in_eof (infile s) \<Longrightarrow>
   read_pairs s = replicate k (callAddr s, callDest s) \<Longrightarrow>
   target_passes n s = Some (s\<lparr>read_pairs := replicate (n + k) (callAddr s, callDest s)\<rparr>)"
proof (induction n arbitrary: s k)
  case (Suc n)
  show ?case
    using Suc.prems Suc.IH [of "s\<lparr>read_pairs := replicate (Suc k) (callAddr s, callDest s)\<rparr>" "Suc k"]
    by (simp add: target_pass_failed mmap_insert_replicate del: replicate_Suc)
qed simp

text \<open>When the file of call targets cannot be opened the constructor does not return: every pass of its
  loop is followed by another, and each puts the uninitialised pair into the map once more.\<close>

lemma missing_targets_diverge:
  "load_targets g (\<lambda>_. None) (c # nm) = Inl DoesNotReturn \<and>
   (\<forall>n. \<exists>s. target_passes n (target_start g None) = Some s \<and> read_pairs s = replicate n g)"
proof -
  have f: "in_fail (infile (target_start g None))" "\<not> in_eof (infile (target_start g None))"
    by (simp_all add: target_start_def open_stream_def)
  then have "target_loop (target_start g None) = None"
    using target_loop_failed by (cases "target_loop (target_start g None)") blast+
  moreover have "\<exists>s. target_passes n (target_start g None) = Some s \<and> read_pairs s = replicate n g" for n
    using target_passes_failed [OF f, of 0 n] by (simp add: target_start_def)
  ultimately show ?thesis by (simp add: load_targets_def)
qed

lemma load_targets_decodes:
  assumes "length rest < 16"
  shows "load_targets g (\<lambda>_. Some (encode_targets ts @ rest)) (c # nm)
    = Inr (sort_key fst (ts @ last_record (snd g) ts rest))"
  using target_loop_records [OF assms, of ts "fst g" "snd g" "[]"]
  unfolding fold_mmap_insert_sort
  by (simp add: load_targets_def target_start_def open_stream_def in_stream_def)

text \<open>C19: Reading back a file of call records ends and gives exactly its records, as often as they are in
  the file, sorted by call address and in the order of the file where that is the same. Fewer than
  eight bytes behind the last record are ignored; from eight bytes on they are one more record, whose
  destination ends in bytes of the destination before it. A file that cannot be opened is not an error: the
  constructor does not return, for every pass of its loop is followed by another, and each puts the
  uninitialised pair \<open>g\<close> into the map once more.\<close>

theorem load_targets_records:
  assumes "length rest < 16"
  shows "load_targets g (\<lambda>_. Some (encode_targets ts @ rest)) (c # nm)
      = Inr (sort_key fst (ts @ last_record (snd g) ts rest)) \<and>
    load_targets g (\<lambda>_. None) (c # nm) = Inl DoesNotReturn \<and>
    (\<forall>n. \<exists>s. target_passes n (target_start g None) = Some s \<and> read_pairs s = replicate n g)"
  using load_targets_decodes [OF assms] missing_targets_diverge by blast

lemma load_targets_records_witness:
  "load_targets (5, 6)
     (\<lambda>_. Some (encode_targets [(0x30, 0x99), (0x20, 0x1122334455667788), (0x30, 1)] @
       [0x28, 0, 0, 0, 0, 0, 0, 0, 0xAA, 0xBB])) ''calls''
   = Inr [(0x20, 0x1122334455667788), (0x28, 0xBBAA), (0x30, 0x99), (0x30, 1)]"
proof -
  have "length [0x28, 0, 0, 0, 0, 0, 0, 0, 0xAA, 0xBB :: 8 word] < 16" by simp
  from load_targets_records [OF this, of "(5, 6)" "[(0x30, 0x99), (0x20, 0x1122334455667788), (0x30, 1)]"
      "CHR ''c''" "''alls''", THEN conjunct1]
  moreover have "sort_key fst ([(0x30, 0x99), (0x20, 0x1122334455667788), (0x30, 1)] @
      last_record (snd (5, 6)) [(0x30, 0x99), (0x20, 0x1122334455667788), (0x30, 1)]
        [0x28, 0, 0, 0, 0, 0, 0, 0, 0xAA, 0xBB]) =
    [(0x20, 0x1122334455667788), (0x28, 0xBBAA), (0x30, 0x99), (0x30, 1)]"
    by code_simp
  ultimately show ?thesis by simp
qed

text \<open>Among sorted records the call taken for a return address is the nearest at or below it.\<close>

lemma preceding_call_nearest:
  assumes "preceding_call targets ra = Inr a" and "sorted (map fst targets)"
  shows "a \<le> ra" and "\<exists>d. (a, d) \<in> set targets" and "\<forall>t \<in> set targets. fst t \<le> ra \<longrightarrow> fst t \<le> a"
proof -
  let ?f = "filter (\<lambda>t. fst t \<le> ra) targets"
  from assms(1) have a: "?f \<noteq> []" "a = fst (last ?f)"
    by (auto simp: preceding_call_def Let_def split: if_splits)
  then have "last ?f \<in> set ?f" using last_in_set by blast
  with a(2) show "a \<le> ra" "\<exists>d. (a, d) \<in> set targets" by (cases "last ?f"; auto)+
  have "sorted (map fst ?f)" using assms(2) sorted_filter by blast
  moreover obtain us u where u: "?f = us @ [u]" using a(1) by (metis rev_exhaust)
  moreover have "t \<in> set (us @ [u])" if "t \<in> set targets" "fst t \<le> ra" for t
    using that set_filter [of "\<lambda>t. fst t \<le> ra" targets] unfolding u by blast
  ultimately show "\<forall>t \<in> set targets. fst t \<le> ra \<longrightarrow> fst t \<le> a"
    using a(2) by (fastforce simp: sorted_append)
qed

section \<open>An example round\<close>

definition ex_vm :: vm_env where
  "ex_vm = \<lparr>vm_read = (\<lambda>_ _. ex_guest), vm_pages = [ex_page], vm_executable = (\<lambda>_. True),
     vm_tasks = \<lparr>te_init = 0, te_next = id, te_sp0 = id, te_sp = id\<rparr>\<rparr>"

lemma ex_round_found:
  "getModuleForAddress ex_kernel (vaddr ex_page) = Inr (Some (kernel_found ex_kernel))"
  "ElfLoader_isCodeAddress (fl_loader (kernel_found ex_kernel)) (vaddr ex_page)"
proof -
  have "ElfLoader_isCodeAddress ex_kernel (vaddr ex_page)" by code_simp
  then show "getModuleForAddress ex_kernel (vaddr ex_page) = Inr (Some (kernel_found ex_kernel))"
    by (simp add: getModuleForAddress_def)
  show "ElfLoader_isCodeAddress (fl_loader (kernel_found ex_kernel)) (vaddr ex_page)" by code_simp
qed

lemma ex_round_verdict:
  "validateCodePage (paravirt ex_kernel) (genericUnrolledAddress ex_kernel) ex_page (kernel_found ex_kernel)
     ex_guest = Inr CodeIntact"
  by code_simp

lemma ex_round_run:
  "validate_round ex_symbols ex_call ex_vm (setOptions False True False ex_validator)
    = Inr (setOptions False True False ex_validator, [CodeVerdict CodeIntact])"
  using ex_round_found ex_round_verdict
  by (simp add: validate_round_def validate_stacks_def setOptions_def ex_vm_def page_step_def
      validatePage_def ex_validator_def page_content_def mapE_def)

theorem round_checks_every_code_page_witness:
  "page_verdict ex_kernel ex_vm ex_page (kernel_found ex_kernel) = Inr CodeIntact"
proof -
  let ?v = "setOptions False True False ex_validator"
  have k: "kernelLoader ?v = ex_kernel" by (simp add: setOptions_def ex_validator_def)
  have "\<exists>c. page_verdict (kernelLoader ?v) ex_vm ex_page (kernel_found ex_kernel) = Inr c \<and>
      CodeVerdict c \<in> set [CodeVerdict CodeIntact]"
  proof (rule round_checks_every_code_page [OF ex_round_run])
    show "getModuleForAddress (kernelLoader ?v) (vaddr ex_page) = Inr (Some (kernel_found ex_kernel))"
      unfolding k by (rule ex_round_found)
  qed (simp_all add: setOptions_def ex_vm_def ex_round_found)
  with k show ?thesis by auto
qed

end
