(* ===== verification/Returns.thy ===== *)
theory Returns
  imports Loader
begin

text \<open>
  Which computations come to an end. A computation of the model that does not return is the error
  \<open>DoesNotReturn\<close>: fuel used up, a list of the guest that never closes, an instruction without length.
  \<open>returns\<close> says that a computation is not of this kind; its rules follow the structure of the
  definitions. Reading and parsing an ELF file (\<^verbatim>\<open>src/elffile64.cpp\<close>) always returns.
\<close>

section \<open>Computations that return\<close>

definition returns :: "'a res \<Rightarrow> bool" where
  "returns r \<longleftrightarrow> r \<noteq> Inl DoesNotReturn"

lemma returns_Inr [simp]: "returns (Inr x)"
  by (simp add: returns_def)

lemma returns_Inl [simp]: "returns (Inl e) \<longleftrightarrow> e \<noteq> DoesNotReturn"
  by (simp add: returns_def)

lemma returns_bindE [simp]: "returns (bindE m f) \<longleftrightarrow> returns m \<and> (\<forall>x. m = Inr x \<longrightarrow> returns (f x))"
  by (cases m) simp_all

lemma returns_mapE [simp]: "returns (mapE f m) \<longleftrightarrow> returns m"
  by (simp add: mapE_def)

lemma returns_checks [simp]:
  "returns (assertE b)" "returns (guardE e b) \<longleftrightarrow> b \<or> e \<noteq> DoesNotReturn"
  by (simp_all add: assertE_def guardE_def)

lemma returns_andE [simp]: "returns (andE a b) \<longleftrightarrow> returns a \<and> (a = Inr True \<longrightarrow> returns b)"
  by (auto simp: andE_def)

lemma returns_orE [simp]: "returns (orE a b) \<longleftrightarrow> returns a \<and> (a = Inr False \<longrightarrow> returns b)"
  by (auto simp: orE_def)

lemma returns_foldE: "(\<And>x s. x \<in> set xs \<Longrightarrow> returns (f x s)) \<Longrightarrow> returns (foldE f xs s)"
  by (induction xs arbitrary: s) auto

lemma returns_skip_loop: "(\<And>i s. returns (step i s)) \<Longrightarrow> returns (skip_loop step n i s)"
proof (induction step n i s rule: skip_loop.induct)
  case (1 step n i s)
  then show ?case by (subst skip_loop.simps) (auto split: prod.split)
qed

section \<open>Buffers and files\<close>

lemma returns_bread [simp]: "returns (bread b i n)"
  by (simp add: bread_def)

lemma returns_hread [simp]: "returns (hread m p n)"
  by (simp add: hread_def)

lemma returns_c_string [simp]: "returns (c_string b)"
  by (induction b) simp_all

lemma returns_headers [simp]:
  "returns (ehdr m)" "returns (shdr m i)" "returns (phdr m i)" "returns (getNrOfSections f)"
  "returns (findSectionWithName f nm)" "returns (host_string m p)" "returns (host8 m p)"
  by (simp_all add: ehdr_def shdr_def phdr_def getNrOfSections_def findSectionWithName_def host_string_def host8_def
      split: option.split)

lemma returns_first_section [simp]: "returns (first_section f answer a is)"
  by (induction f answer a "is" rule: first_section.induct) simp_all

lemma returns_loadElfFile [simp]: "returns (loadElfFile content base)"
  by (auto simp: loadElfFile_def ElfFile64_new_def load_section_def load_segment_def host_sectionName_def Let_def
      intro!: returns_foldE split: option.split)

lemma returns_dyn_entries [simp]: "returns (dyn_entries b)"
proof (induction b rule: dyn_entries.induct)
  case (1 b)
  then show ?case by (subst dyn_entries.simps) simp
qed

lemma returns_needed_names [simp]: "returns (needed_names m strtab es)"
  by (induction m strtab es rule: needed_names.induct) simp_all

lemma returns_getDependencies [simp]: "returns (getDependencies f)"
  by (simp add: getDependencies_def is_static_def isDynamic_def isExecutable_def)

end
