(* ===== verification/KernelReturns.thy ===== *)
theory KernelReturns
  imports KernelValidator Returns
begin

text \<open>
  \<open>returns\<close> followed through everything a round of the kernel's validation calls
  (\<^verbatim>\<open>src/kernelvalidator.cpp\<close>), down to the walk over the guest's task list, which is where a round
  can be caught.
\<close>

section \<open>Buffers and instructions\<close>

lemma returns_returnsE [simp]: "returns (returnsE r) \<longleftrightarrow> r \<noteq> None"
  by (simp add: returnsE_def split: option.split)

lemma returns_access [simp]:
  "returns (byte_of b i)" "returns (byte_at b k)"
  "returns (deref x)" "returns (nop_read t j n)" "returns (read32 b i)" "returns (read64 b i)"
  "returns (pointer_before b i)"
  by (simp_all add: byte_of_def byte_at_def deref_def nop_read_def read32_def read64_def pointer_before_def
      split: option.split)

lemma returns_mem_eq [simp]: "returns (mem_eq a b n)"
  by (induction a b n rule: mem_eq.induct) simp_all

lemma returns_collect_bytes [simp]: "returns (collect_bytes b ks)"
  by (induction ks) simp_all

lemma returns_displayChange [simp]: "returns (displayChange memory reference off sz)"
  by (simp add: displayChange_def)

lemma returns_call_before [simp]: "returns (call_before dis data offset index is)"
  by (induction "is") (simp_all add: disasm_at_def split: option.split)

lemma returns_isReturnAddress [simp]: "returns (isReturnAddress dis data offset index)"
  by (simp add: isReturnAddress_def isValidInstruction_def disasm_at_def)

section \<open>The loader of an address\<close>

lemma returns_find_module [simp]: "returns (find_module P ms)"
  by (induction P ms rule: find_module.induct) (simp_all split: option.split)

lemma returns_getModuleForAddress [simp]: "returns (getModuleForAddress l a)"
  by (simp add: getModuleForAddress_def ElfKernelLoader_isDataAddress_def ElfFile64_isDataAddress_def)

lemma returns_found_isDataAddress [simp]: "returns (found_isDataAddress f a)"
  by (simp add: found_isDataAddress_def ElfFile64_isDataAddress_def split: loader_kind.split)

section \<open>The pages\<close>

lemma returns_excuse [simp]: "returns (excuse c i l m)"
  by (simp add: excuse_def else_try_def skip_if_def atomic_nop_def ftrace_nop_def isValidJmpLabel_def
      generic_call_def empty_jump_def nop_at_def Let_def split: option.split loader_kind.split)

lemma returns_code_loop: "(\<And>i. returns (step i)) \<Longrightarrow> returns (code_loop step n i)"
proof (induction step n i rule: code_loop.induct)
  case (1 step n i)
  then show ?case by (subst code_loop.simps) (auto split: code_outcome.split)
qed

lemma returns_validateCodePage [simp]: "returns (validateCodePage st generic page f pm)"
  by (auto simp: validateCodePage_def code_step_def intro!: returns_code_loop split: option.split)

lemma returns_examine_pointer [simp]: "returns (examine_pointer env dis k ex at p)"
  by (simp add: examine_pointer_def Let_def split: option.split)

lemma returns_validateDataPage [simp]: "returns (validateDataPage env dis v page f pm)"
  by (auto simp: validateDataPage_def check_idt_def idt_step_def idt_pointer_def check_rodata_def
      rodata_step_def check_pointers_def findCodePtrs_def scan_step_def Let_def
      intro!: returns_skip_loop split: prod.split)

lemma returns_validatePage [simp]: "returns (validatePage env dis vm page v)"
  by (simp add: validatePage_def Let_def split: option.split prod.split)

section \<open>The stacks\<close>

lemma returns_stack_pointer [simp]: "returns (stack_pointer env k at p s)"
  by (simp add: stack_pointer_def Let_def split: option.split)

lemma returns_call_recorded [simp]: "returns (call_recorded targets ra old)"
  by (simp add: call_recorded_def preceding_call_def Let_def)

lemma returns_validateStackPage [simp]: "returns (validateStackPage env dis v memory bottom sp)"
  by (auto simp: validateStackPage_def scan_stack_def stack_step_def return_step_def link_ok_def Let_def
      intro!: returns_skip_loop returns_foldE)

section \<open>A round\<close>

text \<open>The guest's task list leads back to \<^verbatim>\<open>init_task\<close>.\<close>

definition tasks_close :: "vm_env \<Rightarrow> bool" where
  "tasks_close vm \<longleftrightarrow> (\<exists>n. (te_next (vm_tasks vm) ^^ Suc n) (te_init (vm_tasks vm)) = te_init (vm_tasks vm))"

lemma updateStackAddresses_iff: "updateStackAddresses (vm_tasks vm) v \<noteq> None \<longleftrightarrow> tasks_close vm"
proof -
  let ?nxt = "te_next (vm_tasks vm)" and ?x = "te_init (vm_tasks vm)"
  have "(\<exists>n. closes_after ?nxt ?x (?nxt ?x) n) \<longleftrightarrow> (\<exists>n. (?nxt ^^ n) (?nxt ?x) = ?x)" (is "?l \<longleftrightarrow> ?r")
  proof
    assume ?r
    then obtain n where "(?nxt ^^ n) (?nxt ?x) = ?x" "\<forall>m < n. (?nxt ^^ m) (?nxt ?x) \<noteq> ?x"
      using exists_least_iff [of "\<lambda>n. (?nxt ^^ n) (?nxt ?x) = ?x"] by blast
    then show ?l unfolding closes_after_def by blast
  qed (auto simp: closes_after_def)
  then show ?thesis
    by (auto simp: updateStackAddresses_def list_walk_do_iff tasks_close_def funpow_swap1)
qed

lemma returns_validate_stacks:
  "returns (validate_stacks env dis vm v) \<longleftrightarrow> (pointerExamination (options v) \<longrightarrow> tasks_close vm)"
  using updateStackAddresses_iff [of vm v]
  by (cases "updateStackAddresses (vm_tasks vm) v")
    (auto simp: validate_stacks_def returnsE_def intro!: returns_foldE)

text \<open>A round returns, with its reports or an error, exactly if the pointers are not examined or the
  guest's task list closes.\<close>

lemma returns_validate_round:
  "returns (validate_round env dis vm v) \<longleftrightarrow> (pointerExamination (options v) \<longrightarrow> tasks_close vm)"
  by (auto simp: validate_round_def returns_validate_stacks page_step_def intro!: returns_foldE)

end
