(* ===== verification/UserspaceLoader.thy ===== *)
theory UserspaceLoader
  imports Relocation Loader
begin

text \<open>
  \<^verbatim>\<open>src/elfuserspaceloader.h\<close>, \<^verbatim>\<open>src/elfuserspaceloader.cpp\<close> and
  \<^verbatim>\<open>src/elfuserspaceloader64.cpp\<close>: the image of an executable or shared library of a
  process. The libraries a loader depends on are named by their paths, under which the task manager
  keeps the loaders. A process' own copy of the data section and segment of a library is an argument.
\<close>

section \<open>State\<close>

definition SegmentInfo_default :: SegmentInfo where
  "SegmentInfo_default = \<lparr>sg_type = 0, sg_flags = 0, sg_offset = 0, sg_vaddr = 0, sg_paddr = 0,
     sg_filesz = 0, sg_memsz = 0, sg_align = 0\<rparr>"

record ElfUserspaceLoader = ElfLoader +
  us_name :: string
  us_baseName :: string
  us_dependencies :: "string list"
  textSegmentInfo :: SegmentInfo
  dataSegmentInfo :: SegmentInfo
  heapSection :: SectionInfo
  bindLazy :: bool

definition ElfUserspaceLoader_new :: "ElfFile64 \<Rightarrow> string \<Rightarrow> ElfUserspaceLoader" where
  "ElfUserspaceLoader_new f nm =
     \<lparr>elffile = f, textSegment = SectionInfo_default, dataSection = SectionInfo_default,
      bssSection = SectionInfo_default, roDataSection = SectionInfo_default, jumpTable = [],
      roData = [], textSegmentContent = [], dataSegmentContent = [],
      us_name = nm, us_baseName = getNameFromPath nm, us_dependencies = [],
      textSegmentInfo = SegmentInfo_default, dataSegmentInfo = SegmentInfo_default,
      heapSection = SectionInfo_default, bindLazy = True\<rparr>"

section \<open>Loading\<close>

definition PAGESIZE :: u64 where
  "PAGESIZE = 0x1000"

text \<open>Whole pages from the start of the segment; a segment of whole pages gets one more.\<close>

definition text_pages :: "SegmentInfo \<Rightarrow> u64" where
  "text_pages g = (sg_filesz g + PAGESIZE) div PAGESIZE"

definition ElfUserspaceLoader_initText :: "ElfUserspaceLoader \<Rightarrow> ElfUserspaceLoader res" where
  "ElfUserspaceLoader_initText l =
     bindE (findCodeSegment (elffile l)) (\<lambda>g.
     mapE (\<lambda>bs. l\<lparr>textSegmentInfo := g, textSegmentContent := textSegmentContent l @ bs\<rparr>)
       (hread (loader_mem l) (hbase (loader_mem l) + sg_offset g) (unat (text_pages g * PAGESIZE))))"

definition ElfUserspaceLoader_initImage :: "ElfUserspaceLoader \<Rightarrow> ElfUserspaceLoader res" where
  "ElfUserspaceLoader_initImage l = ElfUserspaceLoader_initText l"

text \<open>
  \<^verbatim>\<open>vector::insert\<close> in the middle: what is behind the position moves up. A position
  outside the vector is undefined.
\<close>

definition vec_insert :: "bytes \<Rightarrow> u64 \<Rightarrow> bytes \<Rightarrow> bytes res" where
  "vec_insert v pos bs =
     (if unat pos \<le> length v then Inr (take (unat pos) v @ bs @ drop (unat pos) v) else Inl OutOfBounds)"

text \<open>The bytes of a section: for \<^verbatim>\<open>.bss\<close> the character zero, not the byte.\<close>

definition data_section_bytes :: "hostmem \<Rightarrow> SectionInfo \<Rightarrow> bytes res" where
  "data_section_bytes m s =
     (if si_name s = ''.bss'' then Inr (replicate (unat (si_size s)) (u8_of_char (CHR ''0'')))
      else hread m (hbase m + si_offset s) (unat (si_size s)))"

definition data_section_step :: "nat \<Rightarrow> ElfUserspaceLoader \<Rightarrow> ElfUserspaceLoader res" where
  "data_section_step i l =
     bindE (findSectionByID (elffile l) (of_nat i)) (\<lambda>s.
       if isWritable s \<and> isAlloc s
       then bindE (data_section_bytes (loader_mem l) s) (\<lambda>bs.
         mapE (\<lambda>v. l\<lparr>dataSegmentContent := v\<rparr>)
           (vec_insert (dataSegmentContent l) (memindex s - sg_vaddr (dataSegmentInfo l)) bs))
       else Inr l)"

definition ElfUserspaceLoader_initData :: "ElfUserspaceLoader \<Rightarrow> ElfUserspaceLoader res" where
  "ElfUserspaceLoader_initData l0 =
     (if us_name l0 = ''[vdso]'' then Inr l0
      else bindE (findDataSegment (elffile l0)) (\<lambda>g.
        let l1 = l0\<lparr>dataSegmentInfo := g\<rparr> in
        if sg_vaddr g = 0 then Inr l1
        else bindE (guardE LengthError (unat (sg_memsz g) + length (dataSegmentContent l1) \<le> max_vector)) (\<lambda>_.
        bindE (getNrOfSections (elffile l1)) (\<lambda>n.
          foldE data_section_step [0..<n]
            (l1\<lparr>dataSegmentContent := replicate (unat (sg_memsz g)) 0 @ dataSegmentContent l1\<rparr>)))))"

section \<open>Dependencies\<close>

text \<open>
  The level at which a library is found in the tree of dependencies, 1 for the loader itself and 0 if
  it is nowhere; the first dependency that has it counts. The recursion is as deep as the tree, the
  fuel; an exhausted one is \<open>None\<close>.
\<close>

fun isDependency :: "nat \<Rightarrow> (string \<Rightarrow> string list) \<Rightarrow> string \<Rightarrow> string \<Rightarrow> nat option"
and first_level :: "nat \<Rightarrow> (string \<Rightarrow> string list) \<Rightarrow> string list \<Rightarrow> string \<Rightarrow> nat option" where
  "isDependency 0 deps nm lib = None"
| "isDependency (Suc k) deps nm lib =
     (if nm = lib then Some 1 else first_level k deps (deps nm) lib)"
| "first_level k deps [] lib = Some 0"
| "first_level k deps (d # ds) lib =
     (case isDependency k deps d lib of
        None \<Rightarrow> None
      | Some level \<Rightarrow> if level \<noteq> 0 then Some (level + 1) else first_level k deps ds lib)"

section \<open>Addresses\<close>

text \<open>The end of an area that starts at a guest address, rounded up to a page; a whole page more
  when it ends on one.\<close>

definition area_end :: "u64 \<Rightarrow> SegmentInfo \<Rightarrow> u64" where
  "area_end start g =
     (let endAddr = start + (sg_offset g AND 0xfff) + sg_memsz g in
      endAddr + (0x1000 - (endAddr AND 0xfff)))"

definition ElfUserspaceLoader_isCodeAddress :: "ElfUserspaceLoader \<Rightarrow> u64 \<Rightarrow> bool" where
  "ElfUserspaceLoader_isCodeAddress l addr \<longleftrightarrow>
     memindex (textSegment l) \<le> addr \<and> addr < area_end (memindex (textSegment l)) (textSegmentInfo l)"

definition ElfUserspaceLoader_isDataAddress ::
  "SectionInfo res \<Rightarrow> SegmentInfo res \<Rightarrow> u64 \<Rightarrow> bool res" where
  "ElfUserspaceLoader_isDataAddress dataSec dataSeg addr =
     bindE dataSec (\<lambda>s. bindE dataSeg (\<lambda>g.
       Inr (memindex s \<le> addr \<and> addr < area_end (memindex s) g)))"

definition isTextOffset :: "ElfUserspaceLoader \<Rightarrow> u64 \<Rightarrow> bool" where
  "isTextOffset l off \<longleftrightarrow>
     sg_offset (textSegmentInfo l) \<le> off \<and> off \<le> sg_filesz (textSegmentInfo l)"

definition isDataOffset :: "SegmentInfo res \<Rightarrow> u64 \<Rightarrow> bool res" where
  "isDataOffset dataSeg off = mapE (\<lambda>g. sg_offset g \<le> off \<and> off \<le> sg_filesz g) dataSeg"

definition loader_getSegmentForAddress :: "ElfUserspaceLoader \<Rightarrow> u64 \<Rightarrow> SectionInfo option" where
  "loader_getSegmentForAddress l addr =
     (if CONTAINS (memindex (textSegment l)) (si_size (textSegment l)) addr then Some (textSegment l)
      else if CONTAINS (memindex (dataSection l)) (si_size (dataSection l)) addr then Some (dataSection l)
      else if CONTAINS (memindex (heapSection l)) (si_size (heapSection l)) addr then Some (heapSection l)
      else None)"

section \<open>The data image\<close>

text \<open>When no section of the file is writable and executable at once, which is what the exchanged flag
  test of \<^verbatim>\<open>isAlloc\<close> asks for, the data image of a program or library is zeros for the
  size of the segment: no section, \<^verbatim>\<open>.data\<close> included, is copied into it.\<close>

theorem userspace_data_zero:
  assumes "us_name l0 \<noteq> ''[vdso]''" and "findDataSegment (elffile l0) = Inr g" and "sg_vaddr g \<noteq> 0"
    and "unat (sg_memsz g) + length (dataSegmentContent l0) \<le> max_vector"
    and "getNrOfSections (elffile l0) = Inr n"
    and "\<forall>i < n. \<exists>s. findSectionByID (elffile l0) (of_nat i) = Inr s \<and>
      si_flags s AND (SHF_WRITE OR SHF_EXECINSTR) \<noteq> SHF_WRITE OR SHF_EXECINSTR"
  shows "ElfUserspaceLoader_initData l0 = Inr (l0\<lparr>dataSegmentInfo := g,
    dataSegmentContent := replicate (unat (sg_memsz g)) 0 @ dataSegmentContent l0\<rparr>)"
proof -
  let ?v = "replicate (unat (sg_memsz g)) 0 @ dataSegmentContent l0"
  let ?l = "l0\<lparr>dataSegmentInfo := g, dataSegmentContent := ?v\<rparr>"
  have "foldE data_section_step [0..<n] ?l = Inr ?l"
  proof (rule foldE_idle)
    fix i assume "i \<in> set [0..<n]"
    with assms(6) obtain s where s: "findSectionByID (elffile l0) (of_nat i) = Inr s"
      and n: "\<not> CHECKFLAGS (si_flags s) (SHF_WRITE OR SHF_EXECINSTR)" by (auto simp: CHECKFLAGS_def)
    from n have "\<not> (isWritable s \<and> isAlloc s)"
      by (auto simp: isWritable_def isAlloc_def CHECKFLAGS_iff_bits bit_simps)
    with s show "data_section_step i ?l = Inr ?l" by (auto simp: data_section_step_def)
  qed
  with assms(1-5) show ?thesis by (simp add: ElfUserspaceLoader_initData_def Let_def)
qed

section \<open>Levels of dependency\<close>

text \<open>A path of the dependency graph to a library: the list of the libraries below the start.\<close>

fun dep_path :: "(string \<Rightarrow> string list) \<Rightarrow> string \<Rightarrow> string \<Rightarrow> string list \<Rightarrow> bool" where
  "dep_path deps lib nm [] = (nm = lib)"
| "dep_path deps lib nm (d # ds) = (d \<in> set (deps nm) \<and> dep_path deps lib d ds)"

lemma isDependency_path:
  "isDependency k deps nm lib = Some (Suc v) \<Longrightarrow> \<exists>p. dep_path deps lib nm p \<and> v = length p"
  "first_level k deps ds lib = Some (Suc v) \<Longrightarrow>
     \<exists>d p. d \<in> set ds \<and> dep_path deps lib d p \<and> v = Suc (length p)"
proof (induction k deps nm lib and k deps ds lib arbitrary: v and v
    rule: isDependency_first_level.induct)
  case (2 k deps nm lib)
  show ?case
  proof (cases "nm = lib")
    case True
    with 2(2) show ?thesis by (intro exI [of _ "[]"]) simp
  next
    case False
    with 2 obtain d p where d: "d \<in> set (deps nm)" "dep_path deps lib d p" "v = Suc (length p)" by auto
    then show ?thesis by (intro exI [of _ "d # p"]) simp
  qed
next
  case (4 k deps d ds lib)
  from 4(3) obtain w where w: "isDependency k deps d lib = Some w"
    by (cases "isDependency k deps d lib") auto
  show ?case
  proof (cases w)
    case 0
    with 4(3) w have "first_level k deps ds lib = Some (Suc v)" by simp
    with 4(2) [OF w] 0 obtain d' p where "d' \<in> set ds" "dep_path deps lib d' p" "v = Suc (length p)" by auto
    then show ?thesis by (intro exI [of _ d'] exI [of _ p]) simp
  next
    case (Suc u)
    with 4(1) w obtain p where "dep_path deps lib d p" "u = length p" by auto
    moreover from 4(3) w Suc have "v = Suc u" by simp
    ultimately show ?thesis by (intro exI [of _ d] exI [of _ p]) simp
  qed
qed auto

lemma isDependency_absent:
  "isDependency k deps nm lib = Some 0 \<Longrightarrow> \<not> dep_path deps lib nm p"
  "first_level k deps ds lib = Some 0 \<Longrightarrow> d \<in> set ds \<Longrightarrow> \<not> dep_path deps lib d p"
proof (induction k deps nm lib and k deps ds lib arbitrary: p and d p
    rule: isDependency_first_level.induct)
  case (2 k deps nm lib)
  then show ?case by (cases p) (auto split: if_splits)
next
  case (4 k deps e ds lib)
  from 4(3) have "isDependency k deps e lib = Some 0" "first_level k deps ds lib = Some 0"
    by (auto split: option.splits if_splits)
  with 4(1,2,4) show ?case by auto
qed auto

lemma isDependency_fuel:
  "(\<And>n d. d \<in> set (deps n) \<Longrightarrow> rank d < (rank n :: nat)) \<Longrightarrow> rank nm < k \<Longrightarrow>
     isDependency k deps nm lib \<noteq> None"
  "(\<And>n d. d \<in> set (deps n) \<Longrightarrow> rank d < (rank n :: nat)) \<Longrightarrow> (\<And>d. d \<in> set ds \<Longrightarrow> rank d < k) \<Longrightarrow>
     first_level k deps ds lib \<noteq> None"
proof (induction k deps nm lib and k deps ds lib rule: isDependency_first_level.induct)
  case (2 k deps nm lib)
  have "rank d < k" if "d \<in> set (deps nm)" for d using 2(2) [OF that] 2(3) by simp
  with 2(1) [OF _ 2(2)] show ?case by simp
next
  case (4 k deps d ds lib)
  from 4(1) [OF 4(3)] 4(4) obtain v where v: "isDependency k deps d lib = Some v" by auto
  with 4(2) [OF v _ 4(3)] 4(4) show ?case by auto
qed auto

text \<open>In an acyclic dependency graph the question whether a library is a dependency returns, and the
  answer is 0 exactly when no path leads to it; otherwise it is one more than the length of a path to it.\<close>

theorem isDependency_level:
  assumes "\<forall>n d. d \<in> set (deps n) \<longrightarrow> rank d < (rank n :: nat)" and "rank nm < k"
  shows "\<exists>level. isDependency k deps nm lib = Some level \<and>
    (if \<exists>p. dep_path deps lib nm p then \<exists>p. dep_path deps lib nm p \<and> level = Suc (length p)
     else level = 0)"
proof -
  from assms isDependency_fuel(1) [of deps rank nm k lib] obtain level where
    l: "isDependency k deps nm lib = Some level" by auto
  show ?thesis
  proof (cases level)
    case 0
    with isDependency_absent(1) [of k deps nm lib] l show ?thesis by auto
  next
    case (Suc v)
    with isDependency_path(1) [of k deps nm lib v] l show ?thesis by auto
  qed
qed

section \<open>Examples\<close>

theorem isDependency_level_witness:
  "isDependency 3 (\<lambda>n. if n = ''bash'' then [''libc'', ''libtinfo''] else if n = ''libtinfo'' then [''ld''] else [])
     ''bash'' ''ld'' = Some 3 \<and>
   (\<exists>p. dep_path (\<lambda>n. if n = ''bash'' then [''libc'', ''libtinfo''] else if n = ''libtinfo'' then [''ld''] else [])
     ''ld'' ''bash'' p \<and> 3 = Suc (length p))"
proof -
  let ?deps = "\<lambda>n. if n = ''bash'' then [''libc'', ''libtinfo''] else if n = ''libtinfo'' then [''ld''] else []"
  let ?rank = "\<lambda>n. if n = ''bash'' then 2 else if n = ''libtinfo'' then 1 else (0 :: nat)"
  have r: "\<forall>n d. d \<in> set (?deps n) \<longrightarrow> ?rank d < ?rank n" by auto
  have k: "?rank ''bash'' < 3" by simp
  have v: "isDependency 3 ?deps ''bash'' ''ld'' = Some 3" by code_simp
  have p: "\<exists>p. dep_path ?deps ''ld'' ''bash'' p" by (rule exI [of _ "[''libtinfo'', ''ld'']"]) simp
  from isDependency_level [OF r k, of "''ld''"] p v show ?thesis by auto
qed

definition ex_user_segment :: SegmentInfo where
  "ex_user_segment = \<lparr>sg_type = PT_LOAD, sg_flags = PF_R OR PF_W, sg_offset = 0x40, sg_vaddr = 0x601000,
     sg_paddr = 0x601000, sg_filesz = 2, sg_memsz = 3, sg_align = 0x1000\<rparr>"

text \<open>A data section of two bytes and a \<^verbatim>\<open>.bss\<close> of one, both writable and allocated.\<close>

definition ex_user_file :: ElfFile64 where
  "ex_user_file = \<lparr>mem = \<lparr>hbase = 0x10000, hbytes = replicate 60 0 @ [2, 0, 0, 0, 0xab, 0xcd]\<rparr>,
     shstrindex = 0,
     sections = [\<lparr>si_name = ''.data'', secID = 0, si_offset = 0x40, si_index = 0x10040, memindex = 0x601000,
         si_size = 2, si_flags = 3\<rparr>,
       \<lparr>si_name = ''.bss'', secID = 1, si_offset = 0x42, si_index = 0x10042, memindex = 0x601002,
         si_size = 1, si_flags = 3\<rparr>],
     segments = [ex_user_segment], section_ids = [0 \<mapsto> 0, 1 \<mapsto> 1], section_names = Map.empty,
     symbolCount = 0\<rparr>"

theorem userspace_data_zero_witness:
  "\<exists>l. ElfUserspaceLoader_initData (ElfUserspaceLoader_new ex_user_file ''/bin/true'') = Inr l \<and>
     dataSegmentContent l = [0, 0, 0]"
proof -
  let ?l = "ElfUserspaceLoader_new ex_user_file ''/bin/true''"
  have f: "elffile ?l = ex_user_file" and c: "dataSegmentContent ?l = []"
    by (simp_all add: ElfUserspaceLoader_new_def)
  have v: "us_name ?l \<noteq> ''[vdso]''" "findDataSegment (elffile ?l) = Inr ex_user_segment"
    "sg_vaddr ex_user_segment \<noteq> 0" by code_simp+
  have m: "unat (sg_memsz ex_user_segment) = 3" by code_simp
  have b: "unat (sg_memsz ex_user_segment) + length (dataSegmentContent ?l) \<le> max_vector"
    unfolding m c by (simp add: max_vector_def)
  have n: "getNrOfSections (elffile ?l) = Inr 2" by code_simp
  have "(3 :: u64) AND (SHF_WRITE OR SHF_EXECINSTR) \<noteq> SHF_WRITE OR SHF_EXECINSTR" by code_simp
  then have s: "\<forall>i < 2. \<exists>s. findSectionByID (elffile ?l) (of_nat i) = Inr s \<and>
      si_flags s AND (SHF_WRITE OR SHF_EXECINSTR) \<noteq> SHF_WRITE OR SHF_EXECINSTR"
    unfolding f by (auto simp: less_2_cases_iff findSectionByID_def ex_user_file_def)
  from userspace_data_zero [OF v b n s] m c show ?thesis by (simp add: numeral_eq_Suc)
qed

end
