(* ===== verification/TaskManager.thy ===== *)
theory TaskManager
  imports KernelModules UserspaceLoader
begin

text \<open>
  \<^verbatim>\<open>src/taskmanager.h\<close> and the half of \<^verbatim>\<open>src/taskmanager.cpp\<close> that reads
  the guest: its task list, the memory mappings of a task, paths of files, arguments and environment.
  What libdwarfparser and libvmiwrapper read from the guest are the records \<open>guest_tasks\<close>,
  \<open>guest_dentry\<close> and \<open>guest_mm\<close>. The other half, the libraries, is theory
  \<open>Libraries\<close>.
\<close>

section \<open>The task list\<close>

record guest_tasks =
  gt_init :: u64
  gt_next :: "u64 \<Rightarrow> u64"
  gt_pid :: "u64 \<Rightarrow> int"
  gt_pgid :: "u64 \<Rightarrow> int"

text \<open>\<^verbatim>\<open>TaskManager::init\<close> keeps the successor of \<^verbatim>\<open>init_task\<close>.\<close>

definition init_tasks :: "guest_tasks \<Rightarrow> u64" where
  "init_tasks g = gt_next g (gt_init g)"

partial_function (option) task_search ::
  "guest_tasks \<Rightarrow> int \<Rightarrow> u64 \<Rightarrow> u64 \<Rightarrow> u64 option" where
  "task_search g pid start it =
     (if it = start then Some 0
      else if gt_pid g it = pid then Some it
      else task_search g pid start (gt_next g it))"

declare task_search.simps [code]

text \<open>The task of a process number; address 0 when there is none. \<open>t0\<close> is the kept task.\<close>

definition getTaskForPID :: "guest_tasks \<Rightarrow> u64 \<Rightarrow> int \<Rightarrow> u64 option" where
  "getTaskForPID g t0 pid =
     (let taskStruct = gt_next g t0 in task_search g pid taskStruct (gt_next g taskStruct))"

definition getTasks :: "guest_tasks \<Rightarrow> u64 \<Rightarrow> (int \<times> u64) list option" where
  "getTasks g t0 = list_walk_do (gt_next g) t0 (\<lambda>it tasks. tasks @ [(gt_pid g it, it)]) []"

definition terminated :: "guest_tasks \<Rightarrow> u64 \<Rightarrow> int \<Rightarrow> bool option" where
  "terminated g t0 pid = map_option (\<lambda>t. t = 0) (getTaskForPID g t0 pid)"

text \<open>The process group of the group leader.\<close>

definition isKernelTask :: "guest_tasks \<Rightarrow> u64 \<Rightarrow> bool" where
  "isKernelTask g task \<longleftrightarrow> gt_pgid g task = 0"

definition isKernelTask_pid :: "guest_tasks \<Rightarrow> u64 \<Rightarrow> int \<Rightarrow> bool option" where
  "isKernelTask_pid g t0 pid = map_option (isKernelTask g) (getTaskForPID g t0 pid)"

section \<open>Paths\<close>

record guest_dentry =
  gd_name :: "u64 \<Rightarrow> string"
  gd_parent :: "u64 \<Rightarrow> u64"

partial_function (option) path_loop :: "guest_dentry \<Rightarrow> u64 \<Rightarrow> string \<Rightarrow> string option" where
  "path_loop g dentry path =
     (if gd_name g dentry = ''/'' then Some path
      else path_loop g (gd_parent g dentry) (CHR ''/'' # gd_name g dentry @ path))"

declare path_loop.simps [code]

definition getPathFromDentry :: "guest_dentry \<Rightarrow> u64 \<Rightarrow> string option" where
  "getPathFromDentry g dentry =
     (let name = gd_name g dentry in
      if take 1 name = ''['' then Some name
      else if name = ''dev/zero'' then Some ''/dev/zero''
      else path_loop g dentry [])"

section \<open>Memory mappings\<close>

record VMAInfo =
  vma_start :: u64
  vma_end :: u64
  vma_ino :: u64
  vma_off :: u64
  vma_flags :: u64
  vma_name :: string

definition VM_READ :: u64 where "VM_READ = 1"
definition VM_WRITE :: u64 where "VM_WRITE = 2"
definition VM_EXEC :: u64 where "VM_EXEC = 4"

text \<open>One \<^verbatim>\<open>vm_area_struct\<close>; \<open>va_file\<close>: page offset, inode and dentry.\<close>

record guest_vma =
  va_start :: u64
  va_end :: u64
  va_flags :: u64
  va_file :: "(u64 \<times> u64 \<times> u64) option"

text \<open>An \<^verbatim>\<open>mm_struct\<close> and the chain of its areas.\<close>

record guest_mm =
  mm_map_count :: int
  mm_area :: "nat \<Rightarrow> guest_vma"
  mm_vdso :: u64
  mm_brk :: u64
  mm_start_brk :: u64
  mm_start_stack :: u64

definition anonymous_name :: "u64 \<Rightarrow> guest_mm \<Rightarrow> VMAInfo list \<Rightarrow> u64 \<Rightarrow> u64 \<Rightarrow> u64 \<Rightarrow> string" where
  "anonymous_name vvarOffset mm vec curStart curEnd ino =
     (if curStart = mm_vdso mm then ''[vdso]''
      else if curStart = mm_vdso mm + vvarOffset then ''[vvar]''
      else if curStart \<le> mm_brk mm \<and> mm_start_brk mm \<le> curEnd then ''[heap]''
      else if curStart \<le> mm_start_stack mm \<and> mm_start_stack mm \<le> curEnd then ''[stack]''
      else if ino = 0 \<and> vec \<noteq> [] \<and> curStart = vma_end (last vec) then vma_name (last vec)
      else ''<unknown>'')"

definition file_of :: "guest_dentry \<Rightarrow> guest_vma \<Rightarrow> (u64 \<times> u64 \<times> string) res" where
  "file_of g va =
     (case va_file va of
        None \<Rightarrow> Inr (0, 0, '''')
      | Some (pgoff, ino, dentry) \<Rightarrow>
          bindE (returnsE (getPathFromDentry g dentry)) (\<lambda>name. Inr (pgoff, ino, name)))"

definition vma_step ::
  "guest_dentry \<Rightarrow> u64 \<Rightarrow> guest_mm \<Rightarrow> nat \<Rightarrow> VMAInfo list \<Rightarrow> VMAInfo list res" where
  "vma_step g vvarOffset mm i vec =
     (let cur = mm_area mm i in
      bindE (file_of g cur) (\<lambda>(fileOff, ino, name).
        Inr (vec @ [\<lparr>vma_start = va_start cur, vma_end = va_end cur, vma_ino = ino, vma_off = fileOff,
          vma_flags = va_flags cur,
          vma_name = (if name = '''' then anonymous_name vvarOffset mm vec (va_start cur) (va_end cur) ino
                      else name)\<rparr>])))"

text \<open>A kernel thread has no \<^verbatim>\<open>mm_struct\<close>.\<close>

definition getVMAInfo :: "guest_dentry \<Rightarrow> u64 \<Rightarrow> guest_mm option \<Rightarrow> VMAInfo list res" where
  "getVMAInfo g vvarOffset m =
     (case m of
        None \<Rightarrow> Inr []
      | Some mm \<Rightarrow> foldE (vma_step g vvarOffset mm) [0..<nat (mm_map_count mm)] [])"

section \<open>Arguments and environment\<close>

text \<open>The strings of a range of the process' memory, one behind the other; \<open>rd\<close> is
  \<^verbatim>\<open>readStrFromVA\<close>.\<close>

partial_function (option) strings_loop ::
  "(u64 \<Rightarrow> string) \<Rightarrow> u64 \<Rightarrow> (string \<Rightarrow> 's \<Rightarrow> 's) \<Rightarrow> u64 \<Rightarrow> 's \<Rightarrow> 's option" where
  "strings_loop rd stop visit i s =
     (if i < stop
      then strings_loop rd stop visit (i + of_nat (length (rd i)) + 1) (visit (rd i) s)
      else Some s)"

declare strings_loop.simps [code]

definition getArgForTask :: "(u64 \<Rightarrow> string) \<Rightarrow> u64 \<Rightarrow> u64 \<Rightarrow> string list option" where
  "getArgForTask rd arg_start arg_end =
     strings_loop rd arg_end (\<lambda>str arguments. arguments @ [str]) arg_start []"

text \<open>Without an equals sign the whole string is key and value: \<^verbatim>\<open>npos + 1\<close> is 0.\<close>

definition env_key :: "string \<Rightarrow> string" where
  "env_key str = takeWhile (\<lambda>c. c \<noteq> CHR ''='') str"

definition env_value :: "string \<Rightarrow> string" where
  "env_value str =
     (if CHR ''='' \<in> set str then drop 1 (dropWhile (\<lambda>c. c \<noteq> CHR ''='') str) else str)"

definition getEnvForTask :: "(u64 \<Rightarrow> string) \<Rightarrow> u64 \<Rightarrow> u64 \<Rightarrow> (string \<times> string) list option" where
  "getEnvForTask rd env_start env_end =
     strings_loop rd env_end (\<lambda>str. umap_put (env_key str) (env_value str)) env_start []"

section \<open>What the search finds\<close>

lemma task_search_closes:
  "closes_after (gt_next g) start x n \<Longrightarrow>
     task_search g pid start x =
       Some (case find (\<lambda>t. gt_pid g t = pid) (nodes (gt_next g) x n) of None \<Rightarrow> 0 | Some t \<Rightarrow> t)"
proof (induction n arbitrary: x)
  case 0
  then show ?case by (subst task_search.simps) (simp add: closes_after_0)
next
  case (Suc n)
  then show ?case by (subst task_search.simps) (simp add: closes_after_Suc)
qed

text \<open>On a task list that leads back to where the search started, the search returns the first task
  with the process number behind its start, and address 0 when there is none; the task the search
  starts from is never looked at, so that its process counts as terminated.\<close>

theorem getTaskForPID_skips_start:
  assumes "closes_after (gt_next g) start (gt_next g start) n" and "start = gt_next g t0"
    and "start \<noteq> 0" and "\<forall>t \<in> set (nodes (gt_next g) (gt_next g start) n). gt_pid g t \<noteq> gt_pid g start"
  shows "getTaskForPID g t0 pid = Some (case find (\<lambda>t. gt_pid g t = pid)
      (nodes (gt_next g) (gt_next g start) n) of None \<Rightarrow> 0 | Some t \<Rightarrow> t) \<and>
    terminated g t0 (gt_pid g start) = Some True"
proof -
  have s: "getTaskForPID g t0 p = Some (case find (\<lambda>t. gt_pid g t = p)
      (nodes (gt_next g) (gt_next g start) n) of None \<Rightarrow> 0 | Some t \<Rightarrow> t)" for p
    using task_search_closes [OF assms(1), of p] assms(2) by (simp add: getTaskForPID_def)
  have "find (\<lambda>t. gt_pid g t = gt_pid g start) (nodes (gt_next g) (gt_next g start) n) = None"
    using assms(4) by (auto simp: find_None_iff)
  with s show ?thesis by (simp add: terminated_def)
qed

section \<open>What a path is\<close>

definition root_path :: "guest_dentry \<Rightarrow> u64 \<Rightarrow> nat \<Rightarrow> string" where
  "root_path g d n = concat (map (\<lambda>k. CHR ''/'' # gd_name g ((gd_parent g ^^ k) d)) (rev [0..<n]))"

definition root_after :: "guest_dentry \<Rightarrow> u64 \<Rightarrow> nat \<Rightarrow> bool" where
  "root_after g d n \<longleftrightarrow>
     gd_name g ((gd_parent g ^^ n) d) = ''/'' \<and> (\<forall>m < n. gd_name g ((gd_parent g ^^ m) d) \<noteq> ''/'')"

lemma root_after_0: "root_after g d 0 \<longleftrightarrow> gd_name g d = ''/''"
  by (simp add: root_after_def)

lemma root_after_Suc:
  "root_after g d (Suc n) \<longleftrightarrow> gd_name g d \<noteq> ''/'' \<and> root_after g (gd_parent g d) n"
  by (auto simp: root_after_def less_Suc_eq_0_disj funpow_swap1)

lemma root_path_Suc:
  "root_path g d (Suc n) = root_path g (gd_parent g d) n @ CHR ''/'' # gd_name g d"
proof -
  have up: "rev [0..<Suc n] = map Suc (rev [0..<n]) @ [0]"
    by (simp add: rev_map [symmetric] map_Suc_upt upt_conv_Cons del: upt_Suc)
  show ?thesis unfolding root_path_def up by (simp add: funpow_swap1 comp_def)
qed

lemma path_loop_root: "root_after g d n \<Longrightarrow> path_loop g d path = Some (root_path g d n @ path)"
proof (induction n arbitrary: d path)
  case 0
  then show ?case by (subst path_loop.simps) (simp add: root_after_0 root_path_def)
next
  case (Suc n)
  then show ?case by (subst path_loop.simps) (simp add: root_after_Suc root_path_Suc)
qed

lemmas path_loop_induct = path_loop.raw_induct [rotated, consumes 1, case_names step]

lemma path_loop_returns: "path_loop g d path = Some r \<Longrightarrow> \<exists>n. root_after g d n"
proof (induction g d path r rule: path_loop_induct)
  case (step loop g d path r)
  show ?case
  proof (cases "gd_name g d = ''/''")
    case True
    then have "root_after g d 0" by (simp add: root_after_0)
    then show ?thesis ..
  next
    case False
    with step(2) have "loop g (gd_parent g d) (CHR ''/'' # gd_name g d @ path) = Some r" by simp
    from step(1) [OF this] obtain n where "root_after g (gd_parent g d) n" ..
    with False have "root_after g d (Suc n)" by (simp add: root_after_Suc)
    then show ?thesis ..
  qed
qed

text \<open>The path of a file whose own name is no special one is returned exactly when an ancestor is the
  root; then it is the names from below the root down to the file, each behind a slash.\<close>

theorem getPathFromDentry_root:
  assumes "take 1 (gd_name g d) \<noteq> ''[''" and "gd_name g d \<noteq> ''dev/zero''"
  shows "getPathFromDentry g d = Some p \<longleftrightarrow> (\<exists>n. root_after g d n \<and> p = root_path g d n)"
proof -
  have "getPathFromDentry g d = path_loop g d []"
    using assms by (simp add: getPathFromDentry_def Let_def)
  with path_loop_root [of g d _ "[]"] path_loop_returns [of g d "[]"] show ?thesis by force
qed

section \<open>What the mappings are\<close>

definition area_of :: "guest_vma \<Rightarrow> VMAInfo \<Rightarrow> bool" where
  "area_of va v \<longleftrightarrow>
     vma_start v = va_start va \<and> vma_end v = va_end va \<and> vma_flags v = va_flags va \<and> vma_name v \<noteq> '''' \<and>
     (case va_file va of None \<Rightarrow> vma_ino v = 0 \<and> vma_off v = 0
      | Some (pgoff, ino, dentry) \<Rightarrow> vma_ino v = ino \<and> vma_off v = pgoff)"

lemma vma_step_area:
  assumes "vma_step g vo mm i vec = Inr vec'" and "\<forall>v \<in> set vec. vma_name v \<noteq> ''''"
  obtains v where "vec' = vec @ [v]" and "area_of (mm_area mm i) v"
proof -
  have "anonymous_name vo mm vec a b c \<noteq> ''''" for a b c
    using assms(2) by (simp add: anonymous_name_def)
  with assms(1) that show thesis
    by (auto simp: vma_step_def file_of_def area_of_def Let_def split: option.splits)
qed

lemma vma_fold_areas:
  "foldE (vma_step g vo mm) [0..<n] [] = Inr vec \<Longrightarrow>
     length vec = n \<and> (\<forall>i < n. area_of (mm_area mm i) (vec ! i))"
proof (induction n arbitrary: vec)
  case (Suc n)
  from Suc.prems obtain u where u: "foldE (vma_step g vo mm) [0..<n] [] = Inr u"
    "vma_step g vo mm n u = Inr vec" by (auto simp: foldE_append)
  from Suc.IH [OF u(1)] have IH: "length u = n" "\<forall>i < n. area_of (mm_area mm i) (u ! i)" by auto
  then have "\<forall>v \<in> set u. vma_name v \<noteq> ''''" by (auto simp: in_set_conv_nth area_of_def)
  from vma_step_area [OF u(2) this] obtain v where "vec = u @ [v]" "area_of (mm_area mm n) v" .
  with IH show ?case by (auto simp: nth_append less_Suc_eq)
qed simp

text \<open>C30: The mappings of a task are those of the guest, one for each of its areas in their order with its
  range, flags, inode and offset, and every one of them has a name.\<close>

theorem getVMAInfo_areas:
  assumes "getVMAInfo g vo (Some mm) = Inr vec"
  shows "length vec = nat (mm_map_count mm) \<and> (\<forall>i < length vec. area_of (mm_area mm i) (vec ! i))"
  using vma_fold_areas [of g vo mm "nat (mm_map_count mm)" vec] assms by (simp add: getVMAInfo_def)

section \<open>Strings of a process\<close>

text \<open>The bytes of the process' memory from an address on; reading a string there gives what stands
  before the first zero byte.\<close>

definition reads_strings :: "(u64 \<Rightarrow> string) \<Rightarrow> u64 \<Rightarrow> bytes \<Rightarrow> bool" where
  "reads_strings rd start bs \<longleftrightarrow>
     (\<forall>k s. k < length bs \<longrightarrow> c_string (drop k bs) = Inr s \<longrightarrow> rd (start + of_nat k) = s)"

lemma strings_loop_c_bytes:
  assumes "reads_strings rd start (pre @ concat (map c_bytes strs))" and "list_all no_nul strs"
    and "unat start + length (pre @ concat (map c_bytes strs)) < 2 ^ 64"
  shows "strings_loop rd (start + of_nat (length (pre @ concat (map c_bytes strs)))) visit
      (start + of_nat (length pre)) s = Some (fold visit strs s)"
  using assms
proof (induction strs arbitrary: pre s)
  case Nil
  then show ?case by (subst strings_loop.simps) simp
next
  case (Cons x strs)
  let ?rest = "concat (map c_bytes strs)" and ?all = "pre @ concat (map c_bytes (x # strs))"
  have len: "length ?all = length (pre @ c_bytes x) + length ?rest" by simp
  have x: "length (c_bytes x) = Suc (length x)" by (simp add: c_bytes_def)
  have small: "unat (start + of_nat k) = unat start + k" if "k \<le> length ?all" for k
  proof -
    have "unat start + k < 2 ^ 64" using that Cons.prems(3) by linarith
    then show ?thesis by (simp add: unat_word_ariths unat_of_nat)
  qed
  have pre: "length pre \<le> length ?all" by simp
  have lt: "start + of_nat (length pre) < start + of_nat (length ?all)"
    unfolding word_less_nat_alt small [OF order_refl] small [of "length pre", OF pre] by (simp add: x)
  have "c_string (drop (length pre) ?all) = Inr x" using Cons.prems(2) by simp
  with Cons.prems(1) have rd: "rd (start + of_nat (length pre)) = x"
    unfolding reads_strings_def by (metis append_Nil2 len length_append less_add_same_cancel1 trans_less_add1 x zero_less_Suc)
  have e: "start + of_nat (length pre) + of_nat (length x) + 1 = start + of_nat (length (pre @ c_bytes x))"
    by (simp add: x)
  have all: "(pre @ c_bytes x) @ concat (map c_bytes strs) = ?all" by simp
  from Cons.IH [of "pre @ c_bytes x" "visit x s", unfolded all] Cons.prems
  have "strings_loop rd (start + of_nat (length ?all)) visit (start + of_nat (length (pre @ c_bytes x))) (visit x s)
      = Some (fold visit strs (visit x s))" by simp
  with lt show ?case
    by (subst strings_loop.simps) (simp only: rd e if_True fold_simps)
qed

text \<open>C31: Reading back the arguments of a task gives the strings its memory was filled with, the empty ones
  included; and each variable of its environment gets the value of its last definition.\<close>

theorem task_strings_roundtrip:
  assumes "reads_strings rd start (concat (map c_bytes strs))" and "list_all no_nul strs"
    and "unat start + length (concat (map c_bytes strs)) < 2 ^ 64"
    and "stop = start + of_nat (length (concat (map c_bytes strs)))"
  shows "getArgForTask rd start stop = Some strs \<and>
    (\<exists>env. getEnvForTask rd start stop = Some env \<and>
      map_of env = map_of (rev (map (\<lambda>x. (env_key x, env_value x)) strs)))"
proof -
  have "fold (\<lambda>str arguments. arguments @ [str]) strs acc = acc @ strs" for acc
    by (induction strs arbitrary: acc) auto
  with strings_loop_c_bytes [of rd start "[]" strs "\<lambda>str arguments. arguments @ [str]" "[]"] assms
  have args: "getArgForTask rd start stop = Some strs" by (simp add: getArgForTask_def)
  let ?kvs = "map (\<lambda>x. (env_key x, env_value x)) strs"
  from strings_loop_c_bytes [of rd start "[]" strs "\<lambda>str. umap_put (env_key str) (env_value str)" "[]"] assms
  have env: "getEnvForTask rd start stop = Some (unordered_map.store_all ?kvs [])"
    by (simp add: getEnvForTask_def unordered_map.store_all_fold)
  have "map_of (unordered_map.store_all ?kvs []) = map_of (rev ?kvs)"
    by (rule ext) (simp add: unordered_map.look_store_all split: option.split)
  with args env show ?thesis by blast
qed

section \<open>Examples\<close>

text \<open>Three tasks; the search starts from the one at \<open>0x20\<close>, whose process number is 7.\<close>

definition ex_guest_tasks :: guest_tasks where
  "ex_guest_tasks = \<lparr>gt_init = 0, gt_next = (\<lambda>t. if t = 0x30 then 0x10 else t + 0x10),
     gt_pid = (\<lambda>t. if t = 0x20 then 7 else 1), gt_pgid = (\<lambda>_. 0)\<rparr>"

theorem getTaskForPID_skips_start_witness:
  "getTaskForPID ex_guest_tasks 0x10 1 = Some 0x30 \<and> terminated ex_guest_tasks 0x10 7 = Some True"
proof -
  let ?g = ex_guest_tasks
  let ?n = "Suc (Suc 0)"
  have c: "closes_after (gt_next ?g) 0x20 (gt_next ?g 0x20) ?n"
    by (simp add: closes_after_Suc closes_after_0 ex_guest_tasks_def)
  have n: "nodes (gt_next ?g) (gt_next ?g 0x20) ?n = [0x30, 0x10]"
    by (simp add: ex_guest_tasks_def)
  have s: "0x20 = gt_next ?g 0x10" "(0x20 :: u64) \<noteq> 0" by (simp_all add: ex_guest_tasks_def)
  have p: "\<forall>t \<in> set (nodes (gt_next ?g) (gt_next ?g 0x20) ?n). gt_pid ?g t \<noteq> gt_pid ?g 0x20"
    unfolding n by (simp add: ex_guest_tasks_def)
  have "find (\<lambda>t. gt_pid ?g t = 1) [0x30, 0x10] = Some 0x30" "gt_pid ?g 0x20 = 7"
    by (simp_all add: ex_guest_tasks_def)
  with getTaskForPID_skips_start [OF c s p, of 1, unfolded n] show ?thesis by (simp only: option.case)
qed

definition ex_dentry :: guest_dentry where
  "ex_dentry = \<lparr>gd_name = (\<lambda>d. if d = 1 then ''/'' else if d = 2 then ''lib'' else ''libc.so.6''),
     gd_parent = (\<lambda>d. d - 1)\<rparr>"

theorem getPathFromDentry_root_witness:
  "getPathFromDentry ex_dentry 3 = Some ''/lib/libc.so.6''"
proof -
  have "take 1 (gd_name ex_dentry 3) \<noteq> ''[''" "gd_name ex_dentry 3 \<noteq> ''dev/zero''" by code_simp+
  moreover have "root_after ex_dentry 3 2"
    by (simp add: numeral_2_eq_2 root_after_Suc root_after_0 ex_dentry_def)
  moreover have "root_path ex_dentry 3 2 = ''/lib/libc.so.6''" by code_simp
  ultimately show ?thesis using getPathFromDentry_root [of ex_dentry 3] by metis
qed

definition ex_mm :: guest_mm where
  "ex_mm = \<lparr>mm_map_count = 2, mm_area = (\<lambda>i. \<lparr>va_start = 0x400000 + 0x1000 * of_nat i,
       va_end = 0x401000 + 0x1000 * of_nat i, va_flags = 5, va_file = (if i = 0 then Some (0, 9, 3) else None)\<rparr>),
     mm_vdso = 0x7fff0000, mm_brk = 0, mm_start_brk = 0, mm_start_stack = 0\<rparr>"

theorem getVMAInfo_areas_witness:
  "\<exists>vec. getVMAInfo ex_dentry 0 (Some ex_mm) = Inr vec \<and> map vma_name vec = [''/lib/libc.so.6'', ''/lib/libc.so.6''] \<and>
     area_of (mm_area ex_mm 1) (vec ! 1)"
proof -
  have f: "file_of ex_dentry (mm_area ex_mm 0) = Inr (0, 9, ''/lib/libc.so.6'')"
    "file_of ex_dentry (mm_area ex_mm 1) = Inr (0, 0, '''')" by code_simp+
  have n: "[0..<nat (mm_map_count ex_mm)] = [0, 1]" by (simp add: ex_mm_def upt_rec)
  have a: "anonymous_name 0 ex_mm [\<lparr>vma_start = va_start (mm_area ex_mm 0), vma_end = va_end (mm_area ex_mm 0),
      vma_ino = 9, vma_off = 0, vma_flags = va_flags (mm_area ex_mm 0), vma_name = ''/lib/libc.so.6''\<rparr>]
      (va_start (mm_area ex_mm 1)) (va_end (mm_area ex_mm 1)) 0 = ''/lib/libc.so.6''" by code_simp
  obtain vec where v: "getVMAInfo ex_dentry 0 (Some ex_mm) = Inr vec"
    "map vma_name vec = [''/lib/libc.so.6'', ''/lib/libc.so.6'']"
    unfolding getVMAInfo_def option.case n foldE.simps vma_step_def f Let_def bindE_simps prod.case append_Nil
    by (simp only: a bindE_simps foldE.simps prod.case append.simps list.map VMAInfo.simps list.distinct if_False
        if_True sum.inject refl simp_thms)
  from arg_cong [OF v(2), of length] have "1 < length vec" by simp
  with getVMAInfo_areas [OF v(1)] have "area_of (mm_area ex_mm 1) (vec ! 1)" by simp
  with v show ?thesis by (intro exI conjI)
qed

definition ex_area :: bytes where
  "ex_area = concat (map c_bytes [''A=1'', '''', ''A=2''])"

definition ex_read :: "u64 \<Rightarrow> string" where
  "ex_read a = (case c_string (drop (unat (a - 0x7000)) ex_area) of Inl e \<Rightarrow> '''' | Inr s \<Rightarrow> s)"

theorem task_strings_roundtrip_witness:
  "getArgForTask ex_read 0x7000 0x7009 = Some [''A=1'', '''', ''A=2''] \<and>
   (\<exists>env. getEnvForTask ex_read 0x7000 0x7009 = Some env \<and> map_of env ''A'' = Some ''2'')"
proof -
  have len: "length ex_area = 9" by (simp add: ex_area_def c_bytes_def)
  have "ex_read (0x7000 + of_nat k) = s" if "k < 9" and "c_string (drop k ex_area) = Inr s" for k s
  proof -
    have "unat (0x7000 + of_nat k - 0x7000 :: u64) = k" using that(1) by (simp add: unat_of_nat)
    with that(2) show ?thesis by (simp only: ex_read_def sum.case)
  qed
  then have r: "reads_strings ex_read 0x7000 (concat (map c_bytes [''A=1'', '''', ''A=2'']))"
    unfolding ex_area_def [symmetric] reads_strings_def len by blast
  have n: "list_all no_nul [''A=1'', '''', ''A=2'']" by (simp add: no_nul_def u8_of_char_def)
  have b: "unat (0x7000 :: u64) + length (concat (map c_bytes [''A=1'', '''', ''A=2''])) < 2 ^ 64"
    by (simp add: c_bytes_def)
  have e: "0x7009 = (0x7000 :: u64) + of_nat (length (concat (map c_bytes [''A=1'', '''', ''A=2''])))"
    by (simp add: c_bytes_def)
  have m: "map_of (rev (map (\<lambda>x. (env_key x, env_value x)) [''A=1'', '''', ''A=2''])) ''A'' = Some ''2''"
    by (simp add: env_key_def env_value_def)
  from task_strings_roundtrip [OF r n b e] obtain env where
    "getArgForTask ex_read 0x7000 0x7009 = Some [''A=1'', '''', ''A=2'']"
    "getEnvForTask ex_read 0x7000 0x7009 = Some env"
    "map_of env = map_of (rev (map (\<lambda>x. (env_key x, env_value x)) [''A=1'', '''', ''A=2'']))" by blast
  with m show ?thesis by simp
qed

end
