(* ===== verification/Libraries.thy ===== *)
theory Libraries
  imports TaskManager Returns
begin

text \<open>
  The other half of \<^verbatim>\<open>src/taskmanager.cpp\<close>: the loaders of executables and shared
  libraries and \<^verbatim>\<open>ElfUserspaceLoader::loadDependencies\<close>, which calls back into it. A
  library is entered into the map after its dependencies were loaded, so the recursion ends exactly
  on acyclic dependencies; the definitions take fuel, and an exhausted one is \<open>DoesNotReturn\<close>.

  The file system of the machine that runs the program is \<open>host_files\<close>: the entries below a directory,
  files and directories, in the order of a recursive walk, the canonical form of a path, its form relative
  to the root directory, and the content of a file with the address it is mapped to. The walk for a library
  takes a directory of its name as well as a file (the source does not ask which it is).
\<close>

section \<open>State\<close>

record TaskManager =
  libraryMap :: "(string \<times> ElfUserspaceLoader) list"
  ldLibraryPaths :: "string list"
  rootPath :: string
  vdsoData :: bytes
  vdsoVvarPageOffset :: u64

record host_files =
  hf_walk :: "string \<Rightarrow> string list res"
  hf_canonical :: "string \<Rightarrow> string res"
  hf_relative :: "string \<Rightarrow> string \<Rightarrow> string"
  hf_content :: "string \<Rightarrow> bytes option"
  hf_base :: "string \<Rightarrow> u64"

section \<open>Search paths\<close>

text \<open>\<^verbatim>\<open>find_first_not_of\<close> and \<^verbatim>\<open>find_first_of\<close> a colon; \<open>None\<close>
  is \<^verbatim>\<open>npos\<close>, from which both find nothing.\<close>

definition find_from :: "(char \<Rightarrow> bool) \<Rightarrow> string \<Rightarrow> nat option \<Rightarrow> nat option" where
  "find_from P s pos = (case pos of None \<Rightarrow> None | Some i \<Rightarrow> List.find (\<lambda>k. P (s ! k)) [i..<length s])"

definition not_colon :: "string \<Rightarrow> nat option \<Rightarrow> nat option" where
  "not_colon s pos = find_from (\<lambda>c. c \<noteq> CHR '':'') s pos"

definition colon :: "string \<Rightarrow> nat option \<Rightarrow> nat option" where
  "colon s pos = find_from (\<lambda>c. c = CHR '':'') s pos"

lemma find_from_bounds:
  "find_from P s (Some i) = Some k \<Longrightarrow> i \<le> k \<and> k < length s \<and> P (s ! k)"
  using find_Some_iff [of "\<lambda>k. P (s ! k)" "[i..<length s]" k] by (auto simp: find_from_def)

text \<open>
  \<^verbatim>\<open>pos\<close> is always the first colon from \<^verbatim>\<open>lastPos\<close> on, so the loop runs
  while \<^verbatim>\<open>lastPos\<close> is a position. \<^verbatim>\<open>substr(lastPos, pos - lastPos)\<close> takes the
  rest when \<^verbatim>\<open>pos\<close> is \<^verbatim>\<open>npos\<close>.
\<close>

function dir_loop :: "string \<Rightarrow> nat option \<Rightarrow> string list" where
  "dir_loop s lastPos =
     (case lastPos of
        None \<Rightarrow> []
      | Some l \<Rightarrow>
          let pos = colon s lastPos in
          (case pos of None \<Rightarrow> drop l s | Some p \<Rightarrow> take (p - l) (drop l s)) # dir_loop s (not_colon s pos))"
  by pat_completeness auto
termination
proof (relation "measure (\<lambda>(s, l). case l of None \<Rightarrow> 0 | Some l \<Rightarrow> Suc (Suc (length s) - l))")
  fix s :: string and lastPos pos :: "nat option" and l
  assume a: "lastPos = Some l" "pos = colon s lastPos"
  have "(case not_colon s pos of None \<Rightarrow> 0 | Some k \<Rightarrow> Suc (Suc (length s) - k)) < Suc (Suc (length s) - l)"
    if l: "l \<le> length s"
  proof (cases "not_colon s pos")
    case None
    with l show ?thesis by simp
  next
    case (Some k)
    then obtain p where p: "pos = Some p" by (cases pos) (auto simp: not_colon_def find_from_def)
    with a have "l \<le> p" "s ! p = CHR '':''"
      using find_from_bounds [of "\<lambda>c. c = CHR '':''" s l p] by (auto simp: colon_def)
    moreover from Some p have "p \<le> k" "k < length s" "s ! k \<noteq> CHR '':''"
      using find_from_bounds [of "\<lambda>c. c \<noteq> CHR '':''" s p k] by (auto simp: not_colon_def)
    ultimately have "l < k" by (cases "p = k") auto
    with Some \<open>k < length s\<close> show ?thesis by simp
  qed
  moreover have "not_colon s pos = None" if "length s < l"
  proof -
    from that a have "pos = None" by (simp add: colon_def find_from_def)
    then show ?thesis by (simp add: not_colon_def find_from_def)
  qed
  ultimately show "((s, not_colon s pos), s, lastPos)
    \<in> measure (\<lambda>(s, l). case l of None \<Rightarrow> 0 | Some l \<Rightarrow> Suc (Suc (length s) - l))"
    using a(1) by (cases "l \<le> length s") auto
qed simp

declare dir_loop.simps [simp del]

definition setLibraryDir :: "string \<Rightarrow> TaskManager \<Rightarrow> TaskManager" where
  "setLibraryDir dirName tm =
     tm\<lparr>ldLibraryPaths := ldLibraryPaths tm @
       map (\<lambda>dir. rootPath tm @ dir) (dir_loop dirName (not_colon dirName (Some 0)))\<rparr>"

definition setRootDir :: "string \<Rightarrow> TaskManager \<Rightarrow> TaskManager" where
  "setRootDir dirName tm = tm\<lparr>rootPath := dirName\<rparr>"

section \<open>Finding libraries\<close>

text \<open>
  The name is matched as a regular expression in which the special characters are escaped; on a name
  without backslash and closing bracket that is equality.
\<close>

fun findLibraryFile :: "host_files \<Rightarrow> string list \<Rightarrow> string \<Rightarrow> string res" where
  "findLibraryFile fs [] libName = Inr ''''"
| "findLibraryFile fs (directory # dirs) libName =
     bindE (hf_walk fs directory) (\<lambda>paths.
       case List.find (\<lambda>p. getNameFromPath p = libName) paths of
         Some p \<Rightarrow> Inr p
       | None \<Rightarrow> findLibraryFile fs dirs libName)"

definition findLibByName :: "TaskManager \<Rightarrow> string \<Rightarrow> ElfUserspaceLoader option" where
  "findLibByName tm name = map_of (libraryMap tm) name"

definition register_library :: "string \<Rightarrow> ElfUserspaceLoader \<Rightarrow> TaskManager \<Rightarrow> TaskManager" where
  "register_library name l tm = tm\<lparr>libraryMap := umap_put name l (libraryMap tm)\<rparr>"

definition cleanupLibraries :: "TaskManager \<Rightarrow> TaskManager" where
  "cleanupLibraries tm = tm\<lparr>libraryMap := []\<rparr>"

section \<open>Loading libraries\<close>

text \<open>The new loader of a file with its text; \<open>None\<close> when the file is not ELF.\<close>

definition parse_library :: "host_files \<Rightarrow> string \<Rightarrow> string \<Rightarrow> ElfUserspaceLoader option res" where
  "parse_library fs file name =
     bindE (loadElfFile (hf_content fs file) (hf_base fs file)) (\<lambda>f. case f of
         None \<Rightarrow> Inr None
       | Some elf \<Rightarrow> mapE Some (ElfUserspaceLoader_initImage (ElfUserspaceLoader_new elf name)))"

text \<open>
  \<^verbatim>\<open>loadDependencies\<close>: \<open>load\<close> is \<^verbatim>\<open>loadLibrary\<close>, which gives the name
  under which the library is registered; a missing library ends the program.
\<close>

definition load_dependency ::
  "(string \<Rightarrow> TaskManager \<Rightarrow> (string option \<times> TaskManager) res) \<Rightarrow> string \<Rightarrow>
   string list \<times> TaskManager \<Rightarrow> (string list \<times> TaskManager) res" where
  "load_dependency load dep =
     (\<lambda>(ret, tm). bindE (load dep tm) (\<lambda>(lib, tm'). case lib of
         None \<Rightarrow> Inl AssertFailed
       | Some usLib \<Rightarrow> Inr (ret @ [usLib], tm')))"

definition user_loadDependencies ::
  "(string \<Rightarrow> TaskManager \<Rightarrow> (string option \<times> TaskManager) res) \<Rightarrow> ElfUserspaceLoader \<Rightarrow>
   TaskManager \<Rightarrow> (ElfUserspaceLoader \<times> TaskManager) res" where
  "user_loadDependencies load l tm =
     bindE (getDependencies (elffile l)) (\<lambda>deps.
     bindE (foldE (load_dependency load) deps ([], tm)) (\<lambda>(ret, tm').
       Inr (l\<lparr>us_dependencies := us_dependencies l @ ret\<rparr>, tm')))"

text \<open>Where a library is on disk and under which name it is registered; \<open>None\<close> when there is
  no such file.\<close>

definition locate_library :: "host_files \<Rightarrow> string list \<Rightarrow> string \<Rightarrow> string \<Rightarrow> (string \<times> string) option res" where
  "locate_library fs paths root libName =
     bindE (findLibraryFile fs paths libName) (\<lambda>filename.
       if filename = '''' then Inr None
       else bindE (hf_canonical fs filename) (\<lambda>file.
         Inr (Some (file, CHR ''/'' # hf_relative fs file root))))"

fun loadLibrary ::
  "nat \<Rightarrow> host_files \<Rightarrow> string \<Rightarrow> TaskManager \<Rightarrow> (string option \<times> TaskManager) res" where
  "loadLibrary 0 fs libName tm = Inl DoesNotReturn"
| "loadLibrary (Suc k) fs libName tm =
     bindE (locate_library fs (ldLibraryPaths tm) (rootPath tm) libName) (\<lambda>loc. case loc of
         None \<Rightarrow> Inr (None, tm)
       | Some (file, filename) \<Rightarrow>
           if findLibByName tm filename \<noteq> None then Inr (Some filename, tm)
           else bindE (parse_library fs file filename) (\<lambda>lib. case lib of
               None \<Rightarrow> Inr (None, tm)
             | Some l \<Rightarrow>
                 bindE (user_loadDependencies (loadLibrary k fs) l tm) (\<lambda>(l', tm').
                   Inr (Some filename, register_library filename l' tm'))))"

text \<open>The executable; a file that is not ELF is a null pointer that is used.\<close>

definition loadExec ::
  "nat \<Rightarrow> host_files \<Rightarrow> string \<Rightarrow> TaskManager \<Rightarrow> (ElfUserspaceLoader \<times> TaskManager) res" where
  "loadExec k fs exe tm =
     bindE (hf_canonical fs (rootPath tm @ exe)) (\<lambda>file.
     bindE (parse_library fs file exe) (\<lambda>lib. case lib of
         None \<Rightarrow> Inl NullDeref
       | Some l \<Rightarrow>
           bindE (user_loadDependencies (loadLibrary k fs) l tm) (\<lambda>(l', tm').
             Inr (l', register_library exe l' tm'))))"

text \<open>
  The vdso is read from the guest: its bytes and the offset of the page before it, \<open>None\<close> when
  the kernel's debug information has no \<^verbatim>\<open>vdso_image_64\<close>. Only the class byte of the
  buffer is looked at; another class than 64 bit is a null pointer that is used.
\<close>

definition vdso_file :: "u64 \<Rightarrow> bytes \<Rightarrow> ElfFile64 res" where
  "vdso_file base data =
     bindE (host8 \<lparr>hbase = base, hbytes = data\<rparr> (base + 4)) (\<lambda>cls.
       if cls = ELFCLASS64 then ElfFile64_new \<lparr>hbase = base, hbytes = data\<rparr> else Inl NullDeref)"

definition loadVDSO ::
  "(bytes \<times> u64) option \<Rightarrow> u64 \<Rightarrow> TaskManager \<Rightarrow> (ElfUserspaceLoader \<times> TaskManager) res" where
  "loadVDSO guest base tm =
     (case findLibByName tm ''[vdso]'' of
        Some l \<Rightarrow> Inr (l, tm)
      | None \<Rightarrow>
          (case guest of
             None \<Rightarrow> Inl AssertFailed
           | Some (data, vvar) \<Rightarrow>
               bindE (vdso_file base data) (\<lambda>f.
               bindE (ElfUserspaceLoader_initImage (ElfUserspaceLoader_new f ''[vdso]'')) (\<lambda>l.
                 Inr (l, register_library ''[vdso]'' l
                   (tm\<lparr>vdsoData := data, vdsoVvarPageOffset := vvar\<rparr>))))))"

section \<open>The search paths are the pieces of the argument\<close>

lemma find_from_prefix:
  "find_from P (a @ b) (Some (length a)) =
     (if \<exists>c \<in> set b. P c then Some (length a + length (takeWhile (\<lambda>c. \<not> P c) b)) else None)"
proof (induction b arbitrary: a)
  case Nil
  then show ?case by (simp add: find_from_def)
next
  case (Cons x b)
  have up: "[length a..<length (a @ x # b)] = length a # [Suc (length a)..<length (a @ x # b)]"
    by (rule upt_conv_Cons) simp
  show ?case
  proof (cases "P x")
    case True
    then show ?thesis unfolding find_from_def option.case up by simp
  next
    case False
    have "find_from P (a @ x # b) (Some (length a)) = find_from P ((a @ [x]) @ b) (Some (length (a @ [x])))"
      using False unfolding find_from_def option.case up by (simp del: upt_Suc)
    with Cons.IH [of "a @ [x]"] False show ?thesis by simp
  qed
qed

lemma split_string_leading:
  "filter (\<lambda>d. d \<noteq> []) (split_string (dropWhile (\<lambda>c. c = x) b) x) = filter (\<lambda>d. d \<noteq> []) (split_string b x)"
proof (induction b)
  case (Cons c b)
  then show ?case by (cases "c = x") (simp_all add: split_string.simps [of "x # b"])
qed simp

lemma dir_loop_piece:
  assumes u: "\<forall>c \<in> set u. c = CHR '':''" and t: "t \<noteq> []" "\<forall>c \<in> set t. c \<noteq> CHR '':''"
    and w: "w = [] \<or> hd w = CHR '':''" and s: "s = a @ u @ t @ w"
  shows "dir_loop s (not_colon s (Some (length a))) =
    t # (if w = [] then [] else dir_loop s (not_colon s (Some (length (a @ u @ t)))))"
proof -
  let ?l = "length a + length u"
  have tw: "takeWhile (\<lambda>c. \<not> c \<noteq> CHR '':'') (u @ t @ w) = u"
    using u t by (cases t) (simp_all add: takeWhile_append2)
  have "\<exists>c \<in> set (u @ t @ w). c \<noteq> CHR '':''" using t by (cases t) auto
  then have start: "not_colon s (Some (length a)) = Some ?l"
    unfolding s not_colon_def find_from_prefix tw by simp
  have tt: "takeWhile (\<lambda>c. \<not> c = CHR '':'') (t @ w) = t"
    using w t(2) by (cases w) (simp_all add: takeWhile_append2)
  have 1: "colon s (Some ?l) = colon ((a @ u) @ t @ w) (Some (length (a @ u)))" by (simp add: s)
  have 2: "colon ((a @ u) @ t @ w) (Some (length (a @ u))) = (if w = [] then None else Some (?l + length t))"
    unfolding colon_def find_from_prefix tt using w t(2) by (cases w) auto
  from 1 2 have col: "colon s (Some ?l) = (if w = [] then None else Some (?l + length t))" by (rule trans)
  have drop: "drop ?l s = t @ w" by (simp add: s)
  have none: "dir_loop s (not_colon s None) = []"
    by (simp add: not_colon_def find_from_def dir_loop.simps)
  have last: "dir_loop s (Some ?l) = [t]" if "w = []"
    using that by (subst dir_loop.simps) (simp add: col drop none Let_def)
  have more: "dir_loop s (Some ?l) = t # dir_loop s (not_colon s (Some (length (a @ u @ t))))" if "w \<noteq> []"
    using that by (subst dir_loop.simps) (simp add: col drop Let_def add.assoc)
  show ?thesis unfolding start
  proof (cases "w = []")
    case True
    then show "dir_loop s (Some ?l) = t # (if w = [] then [] else dir_loop s (not_colon s (Some (length (a @ u @ t)))))"
      unfolding last [OF True] by simp
  next
    case False
    then show "dir_loop s (Some ?l) = t # (if w = [] then [] else dir_loop s (not_colon s (Some (length (a @ u @ t)))))"
      unfolding more [OF False] by simp
  qed
qed

lemma split_string_piece:
  assumes "t \<noteq> []" and "\<forall>c \<in> set t. c \<noteq> x" and "w = [] \<or> hd w = x"
  shows "split_string (t @ w) x = t # split_string (drop 1 w) x"
proof -
  have "takeWhile (\<lambda>c. c \<noteq> x) (t @ w) = t" "dropWhile (\<lambda>c. c \<noteq> x) (t @ w) = w"
    using assms(2,3) by (cases w; simp add: takeWhile_append2 dropWhile_append2)+
  with assms(1) show ?thesis by (subst split_string.simps) simp
qed

lemma dir_loop_pieces:
  "dir_loop (a @ b) (not_colon (a @ b) (Some (length a))) = filter (\<lambda>d. d \<noteq> []) (split_string b (CHR '':''))"
proof (induction "length b" arbitrary: a b rule: less_induct)
  case less
  define u where "u = takeWhile (\<lambda>c. c = CHR '':'') b"
  define r where "r = dropWhile (\<lambda>c. c = CHR '':'') b"
  have b: "b = u @ r" by (simp add: u_def r_def)
  have u: "\<forall>c \<in> set u. c = CHR '':''" by (auto simp: u_def dest: set_takeWhileD)
  have split: "filter (\<lambda>d. d \<noteq> []) (split_string b (CHR '':'')) = filter (\<lambda>d. d \<noteq> []) (split_string r (CHR '':''))"
    unfolding r_def by (rule split_string_leading [symmetric])
  show ?case
  proof (cases "r = []")
    case True
    then have "not_colon (a @ b) (Some (length a)) = None" using u by (auto simp: b not_colon_def find_from_prefix)
    then show ?thesis unfolding split True by (simp add: dir_loop.simps split_string.simps)
  next
    case False
    define t where "t = takeWhile (\<lambda>c. c \<noteq> CHR '':'') r"
    define w where "w = dropWhile (\<lambda>c. c \<noteq> CHR '':'') r"
    have r: "r = t @ w" by (simp add: t_def w_def)
    have t2: "\<forall>c \<in> set t. c \<noteq> CHR '':''" by (auto simp: t_def dest: set_takeWhileD)
    have "hd r \<noteq> CHR '':''" using False hd_dropWhile unfolding r_def by blast
    then have t1: "t \<noteq> []" using False by (cases r) (auto simp: t_def)
    have w: "w = [] \<or> hd w = CHR '':''" using hd_dropWhile unfolding w_def by blast
    have ab: "a @ b = a @ u @ t @ w" by (simp add: b r)
    show ?thesis
    proof (cases "w = []")
      case True
      then show ?thesis
        unfolding split dir_loop_piece [OF u t1 t2 w ab] r split_string_piece [OF t1 t2 w]
        using t1 by (simp add: split_string.simps)
    next
      case False
      then obtain w' where w': "w = CHR '':'' # w'" using w by (cases w) auto
      have lt: "length w < length b" using t1 by (simp add: b r)
      have "dir_loop (a @ b) (not_colon (a @ b) (Some (length (a @ u @ t))))
        = filter (\<lambda>d. d \<noteq> []) (split_string w (CHR '':''))"
        using less [OF lt, of "a @ u @ t"] by (simp add: ab)
      moreover have "filter (\<lambda>d. d \<noteq> []) (split_string w (CHR '':'')) = filter (\<lambda>d. d \<noteq> []) (split_string (drop 1 w) (CHR '':''))"
        unfolding w' by (subst split_string.simps) simp
      ultimately show ?thesis
        unfolding split dir_loop_piece [OF u t1 t2 w ab] r split_string_piece [OF t1 t2 w]
        using t1 False by simp
    qed
  qed
qed

text \<open>Setting the library directories appends, below the root directory and in order, the pieces of the
  argument between colons that are not empty.\<close>

theorem setLibraryDir_pieces:
  "ldLibraryPaths (setLibraryDir dirName tm) = ldLibraryPaths tm @
     map (\<lambda>d. rootPath tm @ d) (filter (\<lambda>d. d \<noteq> []) (split_string dirName (CHR '':'')))"
  using dir_loop_pieces [of "[]" dirName] by (simp add: setLibraryDir_def)

section \<open>What loading leaves unchanged\<close>

definition same_paths :: "TaskManager \<Rightarrow> TaskManager \<Rightarrow> bool" where
  "same_paths tm tm' \<longleftrightarrow> ldLibraryPaths tm' = ldLibraryPaths tm \<and> rootPath tm' = rootPath tm"

lemma same_paths_register [simp]: "same_paths tm (register_library n l tm') = same_paths tm tm'"
  by (simp add: same_paths_def register_library_def)

lemma same_paths_refl [simp]: "same_paths tm tm"
  by (simp add: same_paths_def)

lemma same_paths_trans: "same_paths a b \<Longrightarrow> same_paths b c \<Longrightarrow> same_paths a c"
  by (simp add: same_paths_def)

text \<open>The step of a dependency.\<close>

lemma load_dependency_Inr:
  "load_dependency load dep st = Inr st' \<Longrightarrow>
     \<exists>lib. load dep (snd st) = Inr (Some lib, snd st') \<and> fst st' = fst st @ [lib]"
  by (cases st) (auto simp: load_dependency_def split: option.splits)

lemma user_loadDependencies_Inr:
  assumes "user_loadDependencies load l tm = Inr (l', tm')"
  obtains deps ret where "getDependencies (elffile l) = Inr deps"
    and "foldE (load_dependency load) deps ([], tm) = Inr (ret, tm')"
    and "l' = l\<lparr>us_dependencies := us_dependencies l @ ret\<rparr>"
  using assms by (auto simp: user_loadDependencies_def)

lemma loadLibrary_Inr:
  assumes "loadLibrary (Suc k) fs nm tm = Inr (r, tm')"
  obtains (Same) "tm' = tm" and "\<And>f. r = Some f \<Longrightarrow> findLibByName tm f \<noteq> None"
    | (Loaded) disk filename l l' tm1 where "r = Some filename"
      and "parse_library fs disk filename = Inr (Some l)"
      and "user_loadDependencies (loadLibrary k fs) l tm = Inr (l', tm1)"
      and "tm' = register_library filename l' tm1"
proof -
  from assms obtain loc where
    loc: "locate_library fs (ldLibraryPaths tm) (rootPath tm) nm = Inr loc" by auto
  show thesis
  proof (cases loc)
    case None
    with loc assms show thesis by (intro Same) auto
  next
    case (Some p)
    obtain disk filename where p: "p = (disk, filename)" by (cases p) auto
    show thesis
    proof (cases "findLibByName tm filename = None")
      case False
      with loc Some p assms show thesis by (intro Same) auto
    next
      case True
      with loc Some p assms obtain lib where lib: "parse_library fs disk filename = Inr lib" by auto
      show thesis
      proof (cases lib)
        case None
        with loc Some p True lib assms show thesis by (intro Same) auto
      next
        case (Some l)
        with loc \<open>loc = Some p\<close> p True lib assms obtain l' tm1 where
          "user_loadDependencies (loadLibrary k fs) l tm = Inr (l', tm1)"
          "r = Some filename" "tm' = register_library filename l' tm1" by auto
        with lib Some show thesis by (intro Loaded) auto
      qed
    qed
  qed
qed

lemma loadLibrary_same_paths: "loadLibrary k fs nm tm = Inr (r, tm') \<Longrightarrow> same_paths tm tm'"
proof (induction k arbitrary: nm tm r tm')
  case (Suc k)
  from Suc.prems show ?case
  proof (cases rule: loadLibrary_Inr)
    case (Loaded disk filename l l' tm1)
    from Loaded(3) obtain deps ret where
      f: "foldE (load_dependency (loadLibrary k fs)) deps ([], tm) = Inr (ret, tm1)"
      by (rule user_loadDependencies_Inr)
    have "same_paths tm (snd (ret, tm1))"
      using f
    proof (rule foldE_invariant)
      fix dep st st' assume st: "same_paths tm (snd st)"
        and "load_dependency (loadLibrary k fs) dep st = Inr st'"
      with load_dependency_Inr Suc.IH show "same_paths tm (snd st')" by (metis same_paths_trans)
    qed simp
    with Loaded(4) show ?thesis by simp
  qed simp
qed simp

section \<open>The library map is closed\<close>

definition libs_closed :: "TaskManager \<Rightarrow> bool" where
  "libs_closed tm \<longleftrightarrow>
     (\<forall>n l. findLibByName tm n = Some l \<longrightarrow> us_name l = n \<and>
        (\<forall>d \<in> set (us_dependencies l). findLibByName tm d \<noteq> None))"

definition knows_more :: "TaskManager \<Rightarrow> TaskManager \<Rightarrow> bool" where
  "knows_more tm tm' \<longleftrightarrow> (\<forall>n. findLibByName tm n \<noteq> None \<longrightarrow> findLibByName tm' n \<noteq> None)"

lemma find_register [simp]:
  "findLibByName (register_library n l tm) m = (if m = n then Some l else findLibByName tm m)"
  using unordered_map.look_store [of n l "libraryMap tm" m] by (simp add: findLibByName_def register_library_def)

lemma libs_closed_register:
  assumes "libs_closed tm" and "us_name l = n" and "\<forall>d \<in> set (us_dependencies l). findLibByName tm d \<noteq> None"
  shows "libs_closed (register_library n l tm)"
  using assms by (auto simp: libs_closed_def)

lemma parse_library_new:
  "parse_library fs disk nm = Inr (Some l) \<Longrightarrow> us_name l = nm \<and> us_dependencies l = []"
  by (auto simp: parse_library_def mapE_def ElfUserspaceLoader_initImage_def ElfUserspaceLoader_initText_def
      ElfUserspaceLoader_new_def split: option.splits)

lemma dependencies_closed:
  assumes load: "\<And>nm tm r tm'. load nm tm = Inr (r, tm') \<Longrightarrow> libs_closed tm \<Longrightarrow>
      libs_closed tm' \<and> knows_more tm tm' \<and> (\<forall>f. r = Some f \<longrightarrow> findLibByName tm' f \<noteq> None)"
    and f: "foldE (load_dependency load) deps ([], tm) = Inr (ret, tm')" and c: "libs_closed tm"
  shows "libs_closed tm' \<and> knows_more tm tm' \<and> (\<forall>d \<in> set ret. findLibByName tm' d \<noteq> None)"
proof -
  let ?P = "\<lambda>st. libs_closed (snd st) \<and> knows_more tm (snd st) \<and> (\<forall>d \<in> set (fst st). findLibByName (snd st) d \<noteq> None)"
  have "?P (ret, tm')"
    using f
  proof (rule foldE_invariant)
    show "?P ([], tm)" using c by (simp add: knows_more_def)
  next
    fix dep st st' assume P: "?P st" and "load_dependency load dep st = Inr st'"
    then obtain lib where l: "load dep (snd st) = Inr (Some lib, snd st')" "fst st' = fst st @ [lib]"
      using load_dependency_Inr by blast
    from load [OF l(1)] P have "libs_closed (snd st')" "knows_more (snd st) (snd st')"
      "findLibByName (snd st') lib \<noteq> None" by auto
    with P l(2) show "?P st'" by (auto simp: knows_more_def)
  qed
  then show ?thesis by simp
qed

text \<open>C25: Loading a library keeps every loader registered under its own name and every dependency of a
  registered loader registered; no library is forgotten, and the one that was asked for is there.\<close>

theorem loadLibrary_closed:
  assumes "loadLibrary k fs nm tm = Inr (r, tm')" and "libs_closed tm"
  shows "libs_closed tm' \<and> knows_more tm tm' \<and> (\<forall>f. r = Some f \<longrightarrow> findLibByName tm' f \<noteq> None)"
  using assms
proof (induction k arbitrary: nm tm r tm')
  case (Suc k)
  from Suc.prems(1) show ?case
  proof (cases rule: loadLibrary_Inr)
    case Same
    with Suc.prems(2) show ?thesis by (auto simp: knows_more_def)
  next
    case (Loaded disk filename l l' tm1)
    from Loaded(3) obtain deps ret where
      f: "foldE (load_dependency (loadLibrary k fs)) deps ([], tm) = Inr (ret, tm1)"
      and l': "l' = l\<lparr>us_dependencies := us_dependencies l @ ret\<rparr>" by (rule user_loadDependencies_Inr)
    from dependencies_closed [OF Suc.IH f Suc.prems(2)] have c: "libs_closed tm1" "knows_more tm tm1"
      "\<forall>d \<in> set ret. findLibByName tm1 d \<noteq> None" by auto
    from parse_library_new [OF Loaded(2)] l' have "us_name l' = filename" "us_dependencies l' = ret" by auto
    with c Loaded(1,4) libs_closed_register [of tm1 l' filename] show ?thesis by (auto simp: knows_more_def)
  qed
qed simp

section \<open>When loading returns\<close>

text \<open>What a library file needs: its dependencies, if there is an ELF file for the name.\<close>

definition requires :: "host_files \<Rightarrow> TaskManager \<Rightarrow> string \<Rightarrow> string list" where
  "requires fs tm nm =
     (case locate_library fs (ldLibraryPaths tm) (rootPath tm) nm of
        Inr (Some (disk, filename)) \<Rightarrow>
          (case parse_library fs disk filename of
             Inr (Some l) \<Rightarrow> (case getDependencies (elffile l) of Inr ds \<Rightarrow> ds | Inl e \<Rightarrow> [])
           | _ \<Rightarrow> [])
      | _ \<Rightarrow> [])"

lemma requires_same_paths: "same_paths tm tm' \<Longrightarrow> requires fs tm' = requires fs tm"
  by (rule ext) (simp add: requires_def same_paths_def)

lemma foldE_cong_invariant:
  assumes "\<And>x s. x \<in> set xs \<Longrightarrow> P s \<Longrightarrow> f x s = g x s"
    and "\<And>x s s'. x \<in> set xs \<Longrightarrow> P s \<Longrightarrow> f x s = Inr s' \<Longrightarrow> P s'" and "P s"
  shows "foldE f xs s = foldE g xs s"
  using assms
proof (induction xs arbitrary: s)
  case (Cons x xs)
  from Cons.prems(1) [of x s] Cons.prems(3) have eq: "f x s = g x s" by simp
  have rest: "foldE f xs t = foldE g xs t" if t: "f x s = Inr t" for t
  proof (rule Cons.IH)
    show "P t" using Cons.prems(2) [of x s t] Cons.prems(3) t by simp
    show "f y u = g y u" if "y \<in> set xs" and "P u" for y u using Cons.prems(1) [of y u] that by simp
    show "P u'" if "y \<in> set xs" and "P u" and "f y u = Inr u'" for y u u'
      using Cons.prems(2) [OF list.set_intros(2) [OF that(1)] that(2,3)] .
  qed
  show ?case unfolding foldE.simps by (rule bindE_cong [OF eq]) (simp add: rest eq)
qed simp

lemma loadLibrary_fuel_step:
  assumes "\<And>dep tm1. dep \<in> set (requires fs tm nm) \<Longrightarrow> same_paths tm tm1 \<Longrightarrow>
      loadLibrary k fs dep tm1 = loadLibrary k' fs dep tm1"
  shows "loadLibrary (Suc k) fs nm tm = loadLibrary (Suc k') fs nm tm"
proof -
  have "user_loadDependencies (loadLibrary k fs) l tm = user_loadDependencies (loadLibrary k' fs) l tm"
    if "locate_library fs (ldLibraryPaths tm) (rootPath tm) nm = Inr (Some (disk, filename))"
      and "parse_library fs disk filename = Inr (Some l)" for disk filename l
  proof (cases "getDependencies (elffile l)")
    case (Inr deps)
    with that have r: "requires fs tm nm = deps" by (simp add: requires_def)
    have "foldE (load_dependency (loadLibrary k fs)) deps ([], tm)
        = foldE (load_dependency (loadLibrary k' fs)) deps ([], tm)"
    proof (rule foldE_cong_invariant [where P = "\<lambda>st. same_paths tm (snd st)"])
      fix dep and st :: "string list \<times> TaskManager"
      assume "dep \<in> set deps" "same_paths tm (snd st)"
      with assms r show "load_dependency (loadLibrary k fs) dep st = load_dependency (loadLibrary k' fs) dep st"
        by (cases st) (simp add: load_dependency_def)
    next
      fix dep st st' assume "same_paths tm (snd st)" "load_dependency (loadLibrary k fs) dep st = Inr st'"
      with load_dependency_Inr loadLibrary_same_paths show "same_paths tm (snd st')"
        by (metis same_paths_trans)
    qed simp
    with Inr show ?thesis by (simp add: user_loadDependencies_def)
  qed (simp add: user_loadDependencies_def)
  then show ?thesis
    by (auto intro!: bindE_cong split: option.split prod.split)
qed

lemma loadLibrary_fuel:
  assumes "\<forall>n d. d \<in> set (requires fs tm n) \<longrightarrow> rank d < (rank n :: nat)" and "rank nm < k" and "k \<le> k'"
  shows "loadLibrary k' fs nm tm = loadLibrary k fs nm tm"
proof -
  have "loadLibrary k' fs nm tm1 = loadLibrary k fs nm tm1" if "same_paths tm tm1" for tm1
    using assms(2,3) that
  proof (induction k arbitrary: nm k' tm1)
    case (Suc k)
    then obtain j where k': "k' = Suc j" "k \<le> j" by (cases k') auto
    have "loadLibrary (Suc k) fs nm tm1 = loadLibrary (Suc j) fs nm tm1"
    proof (rule loadLibrary_fuel_step)
      fix dep tm2 assume dep: "dep \<in> set (requires fs tm1 nm)" and p: "same_paths tm1 tm2"
      from dep Suc.prems(3) have "dep \<in> set (requires fs tm nm)" by (simp add: requires_same_paths)
      with assms(1) have "rank dep < rank nm" by blast
      with Suc.prems(1) have "rank dep < k" by simp
      with Suc.IH [of dep j tm2] k'(2) same_paths_trans [OF Suc.prems(3) p]
      show "loadLibrary k fs dep tm2 = loadLibrary j fs dep tm2" by simp
    qed
    with k'(1) show ?case by simp
  qed simp
  then show ?thesis by simp
qed

text \<open>The host's file system answers.\<close>

definition files_answer :: "host_files \<Rightarrow> bool" where
  "files_answer fs \<longleftrightarrow> (\<forall>d. returns (hf_walk fs d)) \<and> (\<forall>p. returns (hf_canonical fs p))"

lemma returns_find_res [simp]: "returns (find_res msg r)"
  by (cases r) simp_all

lemma returns_parse_library [simp]: "returns (parse_library fs file nm)"
  by (auto simp: parse_library_def ElfUserspaceLoader_initImage_def ElfUserspaceLoader_initText_def
      findCodeSegment_def split: option.split)

lemma returns_locate_library: "files_answer fs \<Longrightarrow> returns (locate_library fs paths root nm)"
proof -
  assume a: "files_answer fs"
  then have "returns (findLibraryFile fs paths nm)"
    by (induction fs paths nm rule: findLibraryFile.induct) (auto simp: files_answer_def split: option.split)
  with a show ?thesis by (simp add: locate_library_def files_answer_def)
qed

lemma returns_foldE_invariant:
  assumes "P s" and "\<And>x s. x \<in> set xs \<Longrightarrow> P s \<Longrightarrow> returns (f x s)"
    and "\<And>x s s'. x \<in> set xs \<Longrightarrow> P s \<Longrightarrow> f x s = Inr s' \<Longrightarrow> P s'"
  shows "returns (foldE f xs s)"
  using assms
proof (induction xs arbitrary: s)
  case (Cons x xs)
  have "returns (foldE f xs t)" if t: "f x s = Inr t" for t
  proof (rule Cons.IH)
    show "P t" using Cons.prems(1,3) t by auto
    show "returns (f y u)" if "y \<in> set xs" "P u" for y u using Cons.prems(2) that by auto
    show "P u'" if "y \<in> set xs" "P u" "f y u = Inr u'" for y u u'
      using Cons.prems(3) [OF list.set_intros(2) [OF that(1)] that(2,3)] .
  qed
  with Cons.prems(1,2) show ?case by auto
qed simp

lemma loadLibrary_returns:
  assumes "files_answer fs" and acyclic: "\<forall>n d. d \<in> set (requires fs tm n) \<longrightarrow> rank d < (rank n :: nat)"
  shows "rank nm < k \<Longrightarrow> same_paths tm tm1 \<Longrightarrow> returns (loadLibrary k fs nm tm1)"
proof (induction k arbitrary: nm tm1)
  case (Suc k)
  have deps: "returns (user_loadDependencies (loadLibrary k fs) l tm1)"
    if "locate_library fs (ldLibraryPaths tm1) (rootPath tm1) nm = Inr (Some (disk, filename))"
      and "parse_library fs disk filename = Inr (Some l)" for disk filename l
  proof -
    have "returns (foldE (load_dependency (loadLibrary k fs)) ds ([], tm1))"
      if "getDependencies (elffile l) = Inr ds" for ds
    proof (rule returns_foldE_invariant [where P = "\<lambda>st. same_paths tm (snd st)"])
      fix d and st :: "string list \<times> TaskManager"
      assume d: "d \<in> set ds" and st: "same_paths tm (snd st)"
      have "requires fs tm1 nm = ds"
        using \<open>locate_library _ _ _ _ = _\<close> \<open>parse_library _ _ _ = _\<close> that by (simp add: requires_def)
      with d acyclic Suc.prems(2) have "rank d < rank nm" by (metis requires_same_paths)
      with Suc.IH [of d "snd st"] Suc.prems(1) st show "returns (load_dependency (loadLibrary k fs) d st)"
        by (cases st) (auto simp: load_dependency_def split: option.split)
    next
      fix d st st' assume "same_paths tm (snd st)" "load_dependency (loadLibrary k fs) d st = Inr st'"
      with load_dependency_Inr loadLibrary_same_paths show "same_paths tm (snd st')"
        by (metis same_paths_trans)
    qed (simp add: Suc.prems(2))
    then show ?thesis by (auto simp: user_loadDependencies_def)
  qed
  show ?case
    using returns_locate_library [OF assms(1)] deps by (auto split: option.split)
qed simp

text \<open>C26: When the dependencies of the library files are acyclic and the file system answers, loading a
  library returns: it ends with a library, without one or with an error other than not returning, fuel
  above the rank of the library is enough for that, and more fuel changes nothing. (On a cycle no fuel is
  enough, \<open>loadLibrary_cycle_diverges\<close>.)\<close>

theorem loadLibrary_terminates:
  assumes "\<forall>n d. d \<in> set (requires fs tm n) \<longrightarrow> rank d < (rank n :: nat)" and "rank nm < k" and "k \<le> k'"
    and "\<And>d. hf_walk fs d \<noteq> Inl DoesNotReturn" and "\<And>p. hf_canonical fs p \<noteq> Inl DoesNotReturn"
  shows "loadLibrary k fs nm tm \<noteq> Inl DoesNotReturn \<and> loadLibrary k' fs nm tm = loadLibrary k fs nm tm"
proof -
  have "files_answer fs" using assms(4,5) by (simp add: files_answer_def returns_def)
  then have "returns (loadLibrary k fs nm tm)"
    by (rule loadLibrary_returns [OF _ assms(1,2)]) (simp add: same_paths_def)
  with loadLibrary_fuel [OF assms(1-3)] show ?thesis by (simp add: returns_def)
qed

text \<open>When every library of a set is on disk, not loaded yet and needs a library of the set first, then
  loading one of them never returns, for none of them is registered before its dependencies.\<close>

theorem loadLibrary_cycle_diverges:
  assumes "nm \<in> C"
    and "\<forall>n \<in> C. \<exists>disk filename l d ds.
      locate_library fs (ldLibraryPaths tm) (rootPath tm) n = Inr (Some (disk, filename)) \<and>
      findLibByName tm filename = None \<and> parse_library fs disk filename = Inr (Some l) \<and>
      getDependencies (elffile l) = Inr (d # ds) \<and> d \<in> C"
  shows "loadLibrary k fs nm tm = Inl DoesNotReturn"
  using assms(1)
proof (induction k arbitrary: nm)
  case (Suc k)
  from assms(2) Suc.prems obtain disk filename l d ds where
    n: "locate_library fs (ldLibraryPaths tm) (rootPath tm) nm = Inr (Some (disk, filename))"
      "findLibByName tm filename = None" "parse_library fs disk filename = Inr (Some l)"
      "getDependencies (elffile l) = Inr (d # ds)" "d \<in> C" by blast
  from Suc.IH [OF n(5)] n(4) have "user_loadDependencies (loadLibrary k fs) l tm = Inl DoesNotReturn"
    by (simp add: user_loadDependencies_def load_dependency_def)
  with n(1-3) show ?case by simp
qed simp

section \<open>Examples\<close>

text \<open>A shared library that needs \<^verbatim>\<open>m\<close>, padded to a page.\<close>

definition ex_lib_mem :: hostmem where
  "ex_lib_mem = dyn_mem\<lparr>hbytes := hbytes dyn_mem @ replicate 4096 0\<rparr>"

lemma hread_pad: "hread m p n = Inr x \<Longrightarrow> hread (m\<lparr>hbytes := hbytes m @ z\<rparr>) p n = Inr x"
  by (auto simp: hread_def bread_def split: if_splits)

lemma host_string_pad: "host_string m p = Inr s \<Longrightarrow> host_string (m\<lparr>hbytes := hbytes m @ z\<rparr>) p = Inr s"
  by (simp add: host_string_def c_string_append)

lemmas ex_lib_reads = dyn_reads [THEN hread_pad [of dyn_mem _ _ _ "replicate 4096 0"], folded ex_lib_mem_def]

lemmas ex_lib_strings =
  dyn_strings [THEN host_string_pad [of dyn_mem _ _ "replicate 4096 0"], folded ex_lib_mem_def]

lemma hbase_ex_lib_mem [simp]: "hbase ex_lib_mem = 0x10000"
  by (simp add: ex_lib_mem_def)

definition ex_lib_file :: ElfFile64 where
  "ex_lib_file = dyn_file\<lparr>mem := ex_lib_mem\<rparr>"

lemma ex_lib_new: "ElfFile64_new ex_lib_mem = Inr ex_lib_file"
  using ex_lib_strings
  by (simp add: ElfFile64_new_def ehdr_def shdr_def phdr_def mapE_def ex_lib_reads dyn_headers
      upt_rec load_section_def load_segment_def host_sectionName_def Let_def section_of_def
      segment_of_def add_section_id_def add_section_name_def map_insert_def dyn_file_def
      ex_lib_file_def fun_eq_iff)

lemma ex_lib_static: "is_static ex_lib_file = Inr False"
  by (simp add: is_static_def isDynamic_def isExecutable_def ex_lib_file_def ehdr_def mapE_def
      ex_lib_reads dyn_headers elf_consts)

lemma ex_lib_dependencies: "getDependencies ex_lib_file = Inr [''m'']"
proof -
  have t: "host_tail ex_lib_mem 0x10186 = enc_dyn (DT_NEEDED, 26) @ enc_dyn (DT_NULL, 0) @ replicate 4096 0"
    by (simp add: host_tail_def ex_lib_mem_def dyn_mem_def drop_chunk del: take_append drop_append)
  have n: "findSectionWithName ex_lib_file ''.dynstr'' = Inr (sections dyn_file ! 0)"
    "findSectionWithName ex_lib_file ''.dynamic'' = Inr (sections dyn_file ! 2)"
    by (simp_all add: findSectionWithName_def ex_lib_file_def dyn_file_def)
  have "dyn_entries (enc_dyn (DT_NEEDED, 26) @ enc_dyn (DT_NULL, 0) @ replicate 4096 0) = Inr [(DT_NEEDED, 26)]"
    using dyn_entries_enc [of "[(DT_NEEDED, 26)]" 0 "replicate 4096 0"] by (simp add: elf_consts)
  with t n ex_lib_static ex_lib_strings show ?thesis
    by (simp add: getDependencies_def) (simp add: ex_lib_file_def dyn_file_def)
qed

definition ex_lib_loader :: "string \<Rightarrow> ElfUserspaceLoader" where
  "ex_lib_loader nm = (ElfUserspaceLoader_new ex_lib_file nm)\<lparr>textSegmentInfo := segments dyn_file ! 0,
     textSegmentContent := take 4096 (hbytes ex_lib_mem)\<rparr>"

text \<open>The library search path holds one directory with the files \<^verbatim>\<open>a\<close> and
  \<^verbatim>\<open>m\<close>; \<open>two\<close> tells whether the second is an ELF file, too.\<close>

definition ex_files :: "bool \<Rightarrow> host_files" where
  "ex_files two = \<lparr>hf_walk = (\<lambda>_. Inr [''/vm/lib/a'', ''/vm/lib/m'']), hf_canonical = Inr,
     hf_relative = (\<lambda>p root. drop (Suc (length root)) p),
     hf_content = (\<lambda>p. if p = ''/vm/lib/a'' \<or> two then Some (hbytes ex_lib_mem) else None),
     hf_base = (\<lambda>_. 0x10000)\<rparr>"

definition ex_task_manager :: TaskManager where
  "ex_task_manager = \<lparr>libraryMap = [], ldLibraryPaths = [''/vm/lib''], rootPath = ''/vm'', vdsoData = [],
     vdsoVvarPageOffset = 0\<rparr>"

definition ex_loaded_m :: TaskManager where
  "ex_loaded_m = register_library ''/lib/m'' (ElfUserspaceLoader_new ex_lib_file ''/lib/m'') ex_task_manager"

lemma ex_lib_image:
  "ElfUserspaceLoader_initImage (ElfUserspaceLoader_new ex_lib_file nm) = Inr (ex_lib_loader nm)"
proof -
  have g: "findCodeSegment ex_lib_file = Inr (segments dyn_file ! 0)"
    by (simp add: findCodeSegment_def ex_lib_file_def dyn_file_def elf_consts)
  have n: "unat (text_pages (segments dyn_file ! 0) * PAGESIZE) = 4096"
    by (simp add: text_pages_def PAGESIZE_def dyn_file_def)
  have m: "mem ex_lib_file = ex_lib_mem" by (simp add: ex_lib_file_def)
  have o: "sg_offset (segments dyn_file ! 0) = 0" by (simp add: dyn_file_def)
  have "length (hbytes ex_lib_mem) \<ge> 4096" by (simp add: ex_lib_mem_def)
  then have "hread ex_lib_mem 0x10000 4096 = Inr (take 4096 (hbytes ex_lib_mem))"
    by (simp add: hread_def bread_def)
  with g n m o show ?thesis
    by (simp add: ElfUserspaceLoader_initImage_def ElfUserspaceLoader_initText_def ElfUserspaceLoader_new_def
        ex_lib_loader_def mapE_def)
qed

lemma ex_parse:
  assumes "p = ''/vm/lib/a'' \<or> two"
  shows "parse_library (ex_files two) p nm = Inr (Some (ex_lib_loader nm))"
proof -
  have eta: "\<lparr>hbase = 0x10000, hbytes = hbytes ex_lib_mem\<rparr> = ex_lib_mem"
    by (rule hostmem.equality) simp_all
  have h: "take 4 (demo_ehdr 3 64 120 1 3 0) = ELFMAG" "drop 4 (demo_ehdr 3 64 120 1 3 0) ! 0 = ELFCLASS64"
    by code_simp+
  have b: "hbytes ex_lib_mem = demo_ehdr 3 64 120 1 3 0 @ drop 64 (hbytes ex_lib_mem)"
    by (simp add: ex_lib_mem_def dyn_mem_def)
  have "take 4 (hbytes ex_lib_mem) = ELFMAG" by (subst b) (simp add: h)
  moreover have "host8 ex_lib_mem (0x10000 + 4) = Inr ELFCLASS64"
  proof -
    have d: "take 1 (drop 4 (hbytes ex_lib_mem)) = take 1 (drop 4 (demo_ehdr 3 64 120 1 3 0))"
      by (subst b) simp
    have "64 \<le> length (hbytes ex_lib_mem)" by (subst b) simp
    then have "hread ex_lib_mem (0x10000 + 4) 1 = Inr (take 1 (drop 4 (demo_ehdr 3 64 120 1 3 0)))"
      unfolding hread_def bread_def d [symmetric] by simp
    moreover have "of_le (take 1 (drop 4 (demo_ehdr 3 64 120 1 3 0))) = ELFCLASS64" by code_simp
    ultimately show ?thesis by (simp add: host8_def)
  qed
  ultimately have "loadElfFile (hf_content (ex_files two) p) (hf_base (ex_files two) p) = Inr (Some ex_lib_file)"
    using assms by (auto simp: loadElfFile_def ex_files_def eta ex_lib_new mapE_def)
  with ex_lib_image show ?thesis by (simp add: parse_library_def mapE_def)
qed

lemma ex_locate:
  "locate_library (ex_files two) [''/vm/lib''] ''/vm'' nm =
     Inr (if nm = ''a'' then Some (''/vm/lib/a'', ''/lib/a'')
          else if nm = ''m'' then Some (''/vm/lib/m'', ''/lib/m'') else None)"
proof -
  have "getNameFromPath ''/vm/lib/a'' = ''a''" "getNameFromPath ''/vm/lib/m'' = ''m''" by code_simp+
  then show ?thesis by (simp add: locate_library_def ex_files_def)
qed

lemma ex_paths [simp]:
  "ldLibraryPaths ex_task_manager = [''/vm/lib'']" "rootPath ex_task_manager = ''/vm''"
  "ldLibraryPaths ex_loaded_m = [''/vm/lib'']" "rootPath ex_loaded_m = ''/vm''"
  by (simp_all add: ex_task_manager_def ex_loaded_m_def register_library_def)

lemma ex_find [simp]:
  "findLibByName ex_task_manager nm = None"
  "findLibByName ex_loaded_m nm = (if nm = ''/lib/m'' then Some (ElfUserspaceLoader_new ex_lib_file ''/lib/m'') else None)"
  by (simp_all add: ex_loaded_m_def) (simp_all add: ex_task_manager_def findLibByName_def)

lemma ex_lib_loader_file [simp]: "elffile (ex_lib_loader nm) = ex_lib_file"
  by (simp add: ex_lib_loader_def ElfUserspaceLoader_new_def)

theorem loadLibrary_cycle_diverges_witness:
  "loadLibrary 1000 (ex_files True) ''m'' ex_task_manager = Inl DoesNotReturn"
  by (rule loadLibrary_cycle_diverges [where C = "{''m''}"])
    (auto simp: ex_locate ex_parse ex_lib_dependencies)

lemma ex_loads_a:
  "\<exists>tm. loadLibrary 2 (ex_files False) ''a'' ex_loaded_m = Inr (Some ''/lib/a'', tm) \<and>
     (\<exists>l. findLibByName tm ''/lib/a'' = Some l \<and> us_dependencies l = [''/lib/m''])"
proof -
  have m: "loadLibrary (Suc 0) (ex_files False) ''m'' ex_loaded_m = Inr (Some ''/lib/m'', ex_loaded_m)"
    by (simp add: ex_locate)
  have "us_dependencies (ex_lib_loader nm) = []" for nm
    by (simp add: ex_lib_loader_def ElfUserspaceLoader_new_def)
  then show ?thesis unfolding numeral_2_eq_2 loadLibrary.simps(2) [of "Suc 0"]
    by (simp add: ex_locate ex_parse user_loadDependencies_def ex_lib_dependencies load_dependency_def m
        del: loadLibrary.simps)
qed

theorem loadLibrary_closed_witness:
  "\<exists>tm. loadLibrary 2 (ex_files False) ''a'' ex_loaded_m = Inr (Some ''/lib/a'', tm) \<and>
     libs_closed tm \<and> findLibByName tm ''/lib/m'' \<noteq> None"
proof -
  obtain tm where tm: "loadLibrary 2 (ex_files False) ''a'' ex_loaded_m = Inr (Some ''/lib/a'', tm)"
    using ex_loads_a by blast
  have "libs_closed ex_loaded_m" by (simp add: libs_closed_def ElfUserspaceLoader_new_def)
  from loadLibrary_closed [OF tm this] have "libs_closed tm" "knows_more ex_loaded_m tm" by auto
  with tm show ?thesis by (auto simp: knows_more_def)
qed

lemma ex_requires:
  "requires (ex_files False) ex_loaded_m nm = (if nm = ''a'' then [''m''] else [])"
proof -
  have "parse_library (ex_files False) ''/vm/lib/m'' n = Inr None" for n
    by (simp add: parse_library_def loadElfFile_def ex_files_def)
  then show ?thesis by (simp add: requires_def ex_locate ex_parse ex_lib_dependencies)
qed

theorem loadLibrary_terminates_witness:
  "loadLibrary 2 (ex_files False) ''a'' ex_loaded_m \<noteq> Inl DoesNotReturn \<and>
   (\<exists>tm. loadLibrary 1000 (ex_files False) ''a'' ex_loaded_m = Inr (Some ''/lib/a'', tm))"
proof -
  let ?rank = "\<lambda>n. if n = ''a'' then 1 else (0 :: nat)"
  have r: "\<forall>n d. d \<in> set (requires (ex_files False) ex_loaded_m n) \<longrightarrow> ?rank d < ?rank n"
    by (simp add: ex_requires)
  have "?rank ''a'' < 2" "2 \<le> (1000 :: nat)" by simp_all
  moreover have "hf_walk (ex_files False) d \<noteq> Inl DoesNotReturn" "hf_canonical (ex_files False) p \<noteq> Inl DoesNotReturn"
    for d p by (simp_all add: ex_files_def)
  ultimately have "loadLibrary 2 (ex_files False) ''a'' ex_loaded_m \<noteq> Inl DoesNotReturn \<and>
      loadLibrary 1000 (ex_files False) ''a'' ex_loaded_m = loadLibrary 2 (ex_files False) ''a'' ex_loaded_m"
    by (intro loadLibrary_terminates [OF r])
  with ex_loads_a show ?thesis by auto
qed

end
