(* ===== verification/Process.thy ===== *)
theory Process
  imports Libraries
begin

text \<open>
  \<^verbatim>\<open>src/process.h\<close> and \<^verbatim>\<open>src/process.cpp\<close>: the mappings of a process of
  the guest, the loaders behind them and the symbols they provide. A loader is named by the key under
  which the task manager keeps it. The symbol manager is another repository's: the calls of
  \<^verbatim>\<open>addSymbolAddress\<close> are the list of names and addresses, and its answers are a function
  of that list.
\<close>

section \<open>State and lookups\<close>

record Process =
  pr_name :: string
  pr_pid :: int
  pr_exec :: "string option"
  pr_vdso :: "string option"
  mappedVMAs :: "VMAInfo list"
  pr_symbols :: "(string \<times> u64) list"
  dataSectionInfoMap :: "(string \<times> SectionInfo) list"
  dataSegmentInfoMap :: "(string \<times> SegmentInfo) list"
  dataSegmentMap :: "(string \<times> bytes) list"

definition getExecLoader :: "TaskManager \<Rightarrow> Process \<Rightarrow> ElfUserspaceLoader res" where
  "getExecLoader tm p =
     (case pr_exec p of
        None \<Rightarrow> Inl AssertFailed
      | Some nm \<Rightarrow> (case findLibByName tm nm of None \<Rightarrow> Inl AssertFailed | Some l \<Rightarrow> Inr l))"

definition getDataSegmentForLib :: "string \<Rightarrow> Process \<Rightarrow> bytes \<times> Process" where
  "getDataSegmentForLib name p =
     (case map_of (dataSegmentMap p) name of
        Some v \<Rightarrow> (v, p)
      | None \<Rightarrow> ([], p\<lparr>dataSegmentMap := umap_put name [] (dataSegmentMap p)\<rparr>))"

definition getSectionInfoForLib :: "Process \<Rightarrow> string \<Rightarrow> SectionInfo res" where
  "getSectionInfoForLib p name =
     (case map_of (dataSectionInfoMap p) name of Some s \<Rightarrow> Inr s | None \<Rightarrow> Inl AssertFailed)"

definition getSegmentInfoForLib :: "Process \<Rightarrow> string \<Rightarrow> SegmentInfo res" where
  "getSegmentInfoForLib p name =
     (case map_of (dataSegmentInfoMap p) name of Some s \<Rightarrow> Inr s | None \<Rightarrow> Inl AssertFailed)"

definition findVMAByName :: "Process \<Rightarrow> string \<Rightarrow> VMAInfo option" where
  "findVMAByName p name = List.find (\<lambda>v. vma_name v = name) (mappedVMAs p)"

definition findVMAByAddress :: "Process \<Rightarrow> u64 \<Rightarrow> VMAInfo option" where
  "findVMAByAddress p address =
     List.find (\<lambda>v. vma_start v \<le> address \<and> address < vma_end v) (mappedVMAs p)"

definition findLoaderByFileName :: "TaskManager \<Rightarrow> string \<Rightarrow> ElfUserspaceLoader option" where
  "findLoaderByFileName tm name = findLibByName tm name"

definition findLoaderByAddress :: "TaskManager \<Rightarrow> Process \<Rightarrow> u64 \<Rightarrow> ElfUserspaceLoader option" where
  "findLoaderByAddress tm p addr =
     (case findVMAByAddress p addr of
        None \<Rightarrow> None
      | Some vma \<Rightarrow> findLoaderByFileName tm (vma_name vma))"

text \<open>An address without a loader is a null pointer that is used.\<close>

definition process_getSegmentForAddress :: "TaskManager \<Rightarrow> Process \<Rightarrow> u64 \<Rightarrow> SectionInfo option res" where
  "process_getSegmentForAddress tm p addr =
     (case findLoaderByAddress tm p addr of
        None \<Rightarrow> Inl NullDeref
      | Some l \<Rightarrow> Inr (loader_getSegmentForAddress l addr))"

section \<open>Registering symbols\<close>

text \<open>Which mappings can hold a symbol: those of the loader, backed by a file or special, whose
  permissions are those of the symbol's segment.\<close>

definition same_permissions :: "SegmentInfo \<Rightarrow> VMAInfo \<Rightarrow> bool" where
  "same_permissions g v \<longleftrightarrow>
     (vma_flags v AND VM_READ \<noteq> 0) = (sg_flags g AND PF_R \<noteq> 0) \<and>
     (vma_flags v AND VM_WRITE \<noteq> 0) = (sg_flags g AND PF_W \<noteq> 0) \<and>
     (vma_flags v AND VM_EXEC \<noteq> 0) = (sg_flags g AND PF_X \<noteq> 0)"

definition mapping_matches :: "string \<Rightarrow> SegmentInfo \<Rightarrow> VMAInfo \<Rightarrow> bool" where
  "mapping_matches name g v \<longleftrightarrow>
     vma_name v = name \<and> (take 1 (vma_name v) = ''['' \<or> vma_ino v \<noteq> 0) \<and> same_permissions g v"

fun find_mapping :: "string \<Rightarrow> SegmentInfo \<Rightarrow> VMAInfo list \<Rightarrow> VMAInfo option \<Rightarrow> VMAInfo option res" where
  "find_mapping name g [] found = Inr found"
| "find_mapping name g (v # vs) found =
     (if mapping_matches name g v
      then (case found of
              None \<Rightarrow> find_mapping name g vs (Some v)
            | Some w \<Rightarrow> Inl (Error ''found another mapping for the symbol!''))
      else find_mapping name g vs found)"

definition symbol_location ::
  "ElfFile64 \<Rightarrow> string \<Rightarrow> VMAInfo list \<Rightarrow> ElfSymbol \<Rightarrow> (string \<times> u64) res" where
  "symbol_location f name mappings esym =
     (case sy_segment esym of
        None \<Rightarrow> Inl NullDeref
      | Some g \<Rightarrow>
          bindE (find_mapping name (segments f ! g) mappings None) (\<lambda>m. case m of
              None \<Rightarrow> Inl (Error ''could not find any mapping for the symbol'')
            | Some v \<Rightarrow> Inr (sy_name esym, sy_value esym + vma_start v)))"

text \<open>The symbols of the loader and its debug file \<open>dbg\<close>; the count they leave in the file is
  kept with it.\<close>

definition registerSyms ::
  "ElfFile64 option \<Rightarrow> ElfUserspaceLoader \<Rightarrow> VMAInfo list \<Rightarrow> (ElfUserspaceLoader \<times> (string \<times> u64) list) res" where
  "registerSyms dbg l mappings =
     bindE (getSymbols (elffile l) dbg) (\<lambda>(syms, f).
     bindE (mapM_E (symbol_location f (us_name l) mappings) syms) (\<lambda>locs.
       Inr (l\<lparr>elffile := f\<rparr>, locs)))"

section \<open>Load-time relocations\<close>

record process_env =
  pe_files :: host_files
  pe_fuel :: nat
  pe_vdso :: "(bytes \<times> u64) option"
  pe_vdso_base :: u64
  pe_order :: "string list \<Rightarrow> string list"
  pe_debug :: "string \<Rightarrow> ElfFile64 option"
  pe_lookup :: "(string \<times> u64) list \<Rightarrow> string \<Rightarrow> u64"
  pe_kernel :: "string \<Rightarrow> u64"

text \<open>The loader of a mapping; a mapped file that is no dependency is searched by its file name.\<close>

definition gather_step ::
  "process_env \<Rightarrow> VMAInfo \<Rightarrow> TaskManager \<times> string list \<times> VMAInfo list \<Rightarrow>
   (TaskManager \<times> string list \<times> VMAInfo list) res" where
  "gather_step env vma =
     (\<lambda>(tm, loaders, mappings).
       bindE (if findLoaderByFileName tm (vma_name vma) = None \<and> vma_ino vma \<noteq> 0
              then mapE snd (loadLibrary (pe_fuel env) (pe_files env) (getNameFromPath (vma_name vma)) tm)
              else Inr tm) (\<lambda>tm'.
         if findLoaderByFileName tm' (vma_name vma) = None then Inr (tm', loaders, mappings)
         else Inr (tm', List.insert (vma_name vma) loaders, mappings @ [vma])))"

definition update_loader ::
  "(ElfUserspaceLoader \<Rightarrow> ElfUserspaceLoader res) \<Rightarrow> string \<Rightarrow> TaskManager \<Rightarrow> TaskManager res" where
  "update_loader f name tm =
     (case findLibByName tm name of
        None \<Rightarrow> Inl NullDeref
      | Some l \<Rightarrow> mapE (\<lambda>l'. register_library name l' tm) (f l))"

definition register_step ::
  "process_env \<Rightarrow> VMAInfo list \<Rightarrow> string \<Rightarrow> TaskManager \<times> (string \<times> u64) list \<Rightarrow>
   (TaskManager \<times> (string \<times> u64) list) res" where
  "register_step env mappings name =
     (\<lambda>(tm, syms).
       case findLibByName tm name of
         None \<Rightarrow> Inl NullDeref
       | Some l \<Rightarrow> bindE (registerSyms (pe_debug env name) l mappings) (\<lambda>(l', locs).
           Inr (register_library name l' tm, syms @ locs)))"

definition process_reloc_env :: "process_env \<Rightarrow> (string \<times> u64) list \<Rightarrow> reloc_env" where
  "process_reloc_env env syms =
     \<lparr>re_section = Inr, re_percpu = Inl AssertFailed, re_kernel = pe_kernel env,
      re_process = Some (pe_lookup env syms)\<rparr>"

definition relocate_loader :: "reloc_env \<Rightarrow> ElfUserspaceLoader \<Rightarrow> ElfUserspaceLoader res" where
  "relocate_loader renv l = mapE (\<lambda>f. l\<lparr>elffile := f\<rparr>) (applyRelocations renv (elffile l))"

text \<open>The set of loaders is unordered: \<open>pe_order\<close> is the order in which it is walked.\<close>

definition processLoadRel :: "process_env \<Rightarrow> Process \<Rightarrow> TaskManager \<Rightarrow> (Process \<times> TaskManager) res" where
  "processLoadRel env p tm0 =
     bindE (loadVDSO (pe_vdso env) (pe_vdso_base env) tm0) (\<lambda>(_, tm1).
     bindE (foldE (gather_step env) (mappedVMAs p) (tm1, [], [])) (\<lambda>(tm2, found, mappings).
     let loaders = pe_order env found in
     bindE (foldE (register_step env mappings) loaders (tm2, pr_symbols p)) (\<lambda>(tm3, syms).
     bindE (foldE (update_loader (relocate_loader (process_reloc_env env syms))) loaders tm3) (\<lambda>tm4.
     bindE (foldE (update_loader ElfUserspaceLoader_initData) loaders tm4) (\<lambda>tm5.
       Inr (p\<lparr>pr_vdso := Some ''[vdso]'', pr_symbols := syms\<rparr>, tm5))))))"

text \<open>
  The constructor. \<open>gone\<close>: the task does not exist; otherwise \<open>vmas\<close> are its
  mappings and \<open>exe\<close> the path of its executable.
\<close>

definition Process_new ::
  "process_env \<Rightarrow> bool \<Rightarrow> VMAInfo list res \<Rightarrow> string res \<Rightarrow> string \<Rightarrow> int \<Rightarrow> TaskManager \<Rightarrow>
   (Process \<times> TaskManager) res" where
  "Process_new env gone vmas exe name pid tm0 =
     (let p0 = \<lparr>pr_name = name, pr_pid = pid, pr_exec = None, pr_vdso = None, mappedVMAs = [],
          pr_symbols = [], dataSectionInfoMap = [], dataSegmentInfoMap = [], dataSegmentMap = []\<rparr> in
      if gone then Inr (p0, tm0)
      else bindE vmas (\<lambda>vs.
        bindE exe (\<lambda>path.
        bindE (loadExec (pe_fuel env) (pe_files env) path tm0) (\<lambda>(l, tm1).
          processLoadRel env (p0\<lparr>mappedVMAs := vs, pr_exec := Some path\<rparr>) tm1))))"

section \<open>Where symbols are registered\<close>

lemma find_mapping_filter:
  "find_mapping name g vs found =
     (let fl = filter (mapping_matches name g) vs; e = Inl (Error ''found another mapping for the symbol!'') in
      case found of
        None \<Rightarrow> (case fl of [] \<Rightarrow> Inr None | v # r \<Rightarrow> if r = [] then Inr (Some v) else e)
      | Some w \<Rightarrow> if fl = [] then Inr (Some w) else e)"
proof (induction name g vs found rule: find_mapping.induct)
  case (2 name g v vs found)
  then show ?case by (cases found) (auto simp: Let_def)
qed (simp add: Let_def split: option.split)

lemma symbol_location_iff:
  "symbol_location f name mappings esym = Inr loc \<longleftrightarrow>
     (\<exists>g v. sy_segment esym = Some g \<and> filter (mapping_matches name (segments f ! g)) mappings = [v] \<and>
        loc = (sy_name esym, sy_value esym + vma_start v))"
proof (cases "sy_segment esym")
  case (Some g)
  show ?thesis
    by (cases "filter (mapping_matches name (segments f ! g)) mappings")
      (auto simp: symbol_location_def find_mapping_filter Some Let_def)
qed (simp add: symbol_location_def)

lemma mapM_E_iff: "mapM_E h xs = Inr ys \<longleftrightarrow> list_all2 (\<lambda>x y. h x = Inr y) xs ys"
  by (induction xs arbitrary: ys) (auto simp: bindE_Inr_iff list_all2_Cons1)

text \<open>C35: The symbols of a loader are registered exactly when each of them has a segment with one and only
  one mapping of the loader's file that has the segment's permissions; then every symbol gets its
  value plus the start of that mapping.\<close>

theorem registerSyms_exact:
  "registerSyms dbg l mappings = Inr (l', locs) \<longleftrightarrow>
     (\<exists>syms f. getSymbols (elffile l) dbg = Inr (syms, f) \<and> l' = l\<lparr>elffile := f\<rparr> \<and>
        list_all2 (\<lambda>esym loc. \<exists>g v. sy_segment esym = Some g \<and>
          filter (mapping_matches (us_name l) (segments f ! g)) mappings = [v] \<and>
          loc = (sy_name esym, sy_value esym + vma_start v)) syms locs)"
  unfolding registerSyms_def bindE_Inr_iff
  by (auto simp: bindE_Inr_iff mapM_E_iff symbol_location_iff)

text \<open>C36: Where the dynamic linker maps the segment of a symbol at its page below a load address, the
  registered address is too high by that page's offset: right for a segment at the start of the
  file, wrong for every data segment behind it.\<close>

theorem registered_symbol_displaced:
  assumes "symbol_location f name mappings esym = Inr (nm, a)" and "sy_segment esym = Some g"
    and "v \<in> set mappings" and "mapping_matches name (segments f ! g) v"
    and "vma_start v = base + (sg_vaddr (segments f ! g) AND NOT 0xfff)"
  shows "a - (base + sy_value esym) = sg_vaddr (segments f ! g) AND NOT 0xfff"
proof -
  from assms(1,2) obtain w where w: "filter (mapping_matches name (segments f ! g)) mappings = [w]"
    and a: "a = sy_value esym + vma_start w" by (auto simp: symbol_location_iff)
  from assms(3,4) have "v \<in> set (filter (mapping_matches name (segments f ! g)) mappings)" by simp
  with w have "v = w" by simp
  with a assms(5) show ?thesis by simp
qed

section \<open>What a round of loading leaves\<close>

text \<open>Every registered loader keeps its name, and no loader disappears.\<close>

lemma relocate_loader_name [ki_frame]: "relocate_loader renv l = Inr l' \<Longrightarrow> us_name l' = us_name l"
  by (auto simp: relocate_loader_def mapE_def)

lemma initData_name [ki_frame]:
  assumes "ElfUserspaceLoader_initData l = Inr l'"
  shows "us_name l' = us_name l \<and> us_dependencies l' = us_dependencies l"
proof -
  have step: "us_name t' = us_name t \<and> us_dependencies t' = us_dependencies t"
    if "data_section_step i t = Inr t'" for i t t'
    using that by (auto simp: data_section_step_def mapE_def split: if_splits)
  have "us_name t' = us_name t \<and> us_dependencies t' = us_dependencies t"
    if "foldE data_section_step xs t = Inr t'" for xs t t'
    using that
    by (rule foldE_invariant [where P = "\<lambda>u. us_name u = us_name t \<and> us_dependencies u = us_dependencies t"])
      (use step in auto)
  with assms show ?thesis
    by (auto simp: ElfUserspaceLoader_initData_def Let_def split: if_splits)
qed

section \<open>An example\<close>

definition ex_mapping :: VMAInfo where
  "ex_mapping = \<lparr>vma_start = 0x7f0000001000, vma_end = 0x7f0000002000, vma_ino = 9, vma_off = 1, vma_flags = 5,
     vma_name = ''/lib/a''\<rparr>"

definition ex_function :: ElfSymbol where
  "ex_function = \<lparr>sy_name = ''f'', sy_value = 0x1040, sy_info = 0x12, sy_shndx = 1, sy_section = Some 1,
     sy_segment = Some 0\<rparr>"

text \<open>The function at \<open>0x7f0000001040\<close> is registered a page too high.\<close>

theorem registered_symbol_displaced_witness:
  "\<exists>a. symbol_location dyn_file ''/lib/a'' [ex_mapping] ex_function = Inr (''f'', a) \<and>
     a - 0x7f0000001040 = 0x1000"
proof -
  let ?g = "segments dyn_file ! 0"
  have g: "sg_vaddr ?g = 0x1000" "sg_flags ?g = 5" by (simp_all add: dyn_file_def)
  have m: "mapping_matches ''/lib/a'' ?g ex_mapping"
    unfolding mapping_matches_def same_permissions_def g ex_mapping_def
    by (simp add: VM_READ_def VM_WRITE_def VM_EXEC_def elf_consts)
  have s: "symbol_location dyn_file ''/lib/a'' [ex_mapping] ex_function = Inr (''f'', 0x7f0000002040)"
    using m by (simp add: symbol_location_def ex_function_def) (simp add: ex_mapping_def)
  have v: "vma_start ex_mapping = 0x7f0000000000 + (sg_vaddr ?g AND NOT 0xfff)"
    unfolding g by (simp add: ex_mapping_def)
  have e: "sy_segment ex_function = Some 0" "ex_mapping \<in> set [ex_mapping]"
    by (simp_all add: ex_function_def)
  from registered_symbol_displaced [OF s e m v] s g show ?thesis by (simp add: ex_function_def)
qed

end
