(* ===== verification/ProcessValidator.thy ===== *)
theory ProcessValidator
  imports Process
begin

text \<open>
  \<^verbatim>\<open>src/processvalidator.h\<close> and \<^verbatim>\<open>src/processvalidator.cpp\<close>: the code and
  data mappings of a process are read from the guest; code is compared with the text of its loader,
  data is searched for pointers into executable mappings, which \<^verbatim>\<open>PagePtrInfo\<close>
  collects and classifies.

  \<open>rd\<close> is \<^verbatim>\<open>readVectorFromVA\<close>: the bytes from an address on, at most as many
  as asked for; \<open>rdx\<close> is the same with its fourth argument set. The disassembler is a parameter as in theory \<open>Helpers\<close>, the symbol store one
  as in theory \<open>DataValidator\<close>.
\<close>

section \<open>Code mappings\<close>

text \<open>The loader of a mapping: the executable's if the process' name ends in the mapping's.\<close>

definition mapping_loader :: "TaskManager \<Rightarrow> Process \<Rightarrow> VMAInfo \<Rightarrow> ElfUserspaceLoader option res" where
  "mapping_loader tm p vma =
     (if hasEnding (pr_name p) (vma_name vma) then mapE Some (getExecLoader tm p)
      else Inr (findLoaderByFileName tm (vma_name vma)))"

text \<open>The first position at which memory and file differ, within the shorter of both.\<close>

definition first_mismatch :: "bytes \<Rightarrow> bytes \<Rightarrow> nat option" where
  "first_mismatch memContent file =
     List.find (\<lambda>j. memContent ! j \<noteq> file ! j) [0..<min (length file) (length memContent)]"

text \<open>
  The loop: \<open>n\<close> bytes of the text were checked. An area that is not mapped is skipped page
  by page. The amount to read is computed without sign, so behind the end of the mapping it is huge.
\<close>

function code_vma_loop ::
  "(u64 \<Rightarrow> u64 \<Rightarrow> bytes) \<Rightarrow> VMAInfo \<Rightarrow> bytes \<Rightarrow> nat \<Rightarrow> (nat \<times> nat \<times> bytes) option" where
  "code_vma_loop rd vma txt n =
     (if n < length txt
      then let codevma = rd (vma_start vma + of_nat n) (vma_end vma - vma_start vma - of_nat n) in
        (case first_mismatch codevma (drop n txt) of
           Some j \<Rightarrow> Some (n, j, codevma)
         | None \<Rightarrow>
             let n' = n + length codevma in
             code_vma_loop rd vma txt (if n' < length txt then n' + 0x1000 else n'))
      else None)"
  by pat_completeness auto
termination
  by (relation "measure (\<lambda>(rd, vma, txt, n). length txt - n)") auto

declare code_vma_loop.simps [simp del]

text \<open>What a check prints.\<close>

datatype process_report =
    NotADependency string
  | CodeMismatch string change
  | NoVmaForPage u64
  | MappingSummary string string "nat list"
  | SegmentSummary string "nat list"
  | ProcessSummary "nat list"

definition process_validateCodePage ::
  "(u64 \<Rightarrow> u64 \<Rightarrow> bytes) \<Rightarrow> TaskManager \<Rightarrow> Process \<Rightarrow> VMAInfo \<Rightarrow> process_report list res" where
  "process_validateCodePage rd tm p vma =
     bindE (mapping_loader tm p vma) (\<lambda>l. case l of
         None \<Rightarrow> Inr [NotADependency (vma_name vma)]
       | Some binary \<Rightarrow>
           let txt = textSegmentContent binary in
           (case code_vma_loop rd vma txt 0 of
              None \<Rightarrow> Inr []
            | Some (n, j, codevma) \<Rightarrow>
                mapE (\<lambda>d. [CodeMismatch (vma_name vma) d])
                  (displayChange codevma (drop n txt) (int j) (int (length txt)))))"

section \<open>Pointers into executable mappings\<close>

text \<open>
  \<^verbatim>\<open>PagePtrInfo\<close>: the target mapping and, in the order of a
  \<^verbatim>\<open>std::map\<close>, the addresses that point into it with the places that hold them.
\<close>

record PagePtrInfo =
  pi_count :: u32
  pi_ptrs :: "(u64 \<times> nat set) list"
  pi_toVMA :: VMAInfo

definition PagePtrInfo_new :: "VMAInfo \<Rightarrow> PagePtrInfo" where
  "PagePtrInfo_new toVMA = \<lparr>pi_count = 0, pi_ptrs = [], pi_toVMA = toVMA\<rparr>"

definition places :: "PagePtrInfo \<Rightarrow> u64 \<Rightarrow> nat set" where
  "places pi addr = (case map_of (pi_ptrs pi) addr of None \<Rightarrow> {} | Some w \<Rightarrow> w)"

definition addPtr :: "nat \<Rightarrow> u64 \<Rightarrow> PagePtrInfo \<Rightarrow> PagePtrInfo" where
  "addPtr place addr pi =
     pi\<lparr>pi_count := pi_count pi + 1, pi_ptrs := omap_put addr (insert place (places pi addr)) (pi_ptrs pi)\<rparr>"

text \<open>One value of the data against the mappings: the two \<^verbatim>\<open>break\<close>s leave the loop.\<close>

fun point_to :: "string \<Rightarrow> nat \<Rightarrow> u64 \<Rightarrow> PagePtrInfo list \<Rightarrow> PagePtrInfo list" where
  "point_to from_name i value [] = []"
| "point_to from_name i value (m # ms) =
     (let to_vma = pi_toVMA m in
      if from_name = vma_name to_vma then m # ms
      else if IN_RANGE value (vma_start to_vma + 1) (vma_end to_vma)
      then (if value = vma_start to_vma + 0x40 then m # ms
            else addPtr i value m # point_to from_name i value ms)
      else m # point_to from_name i value ms)"

definition data_value :: "bytes \<Rightarrow> nat \<Rightarrow> u64" where
  "data_value content i = of_le (take 8 (drop i content))"

definition data_step :: "string \<Rightarrow> bytes \<Rightarrow> nat \<Rightarrow> PagePtrInfo list \<Rightarrow> PagePtrInfo list" where
  "data_step from_name content i targets =
     (if data_value content i = 0 then targets else point_to from_name i (data_value content i) targets)"

definition executable_range :: "VMAInfo list \<Rightarrow> PagePtrInfo list" where
  "executable_range vmas = map PagePtrInfo_new (filter (\<lambda>v. CHECKFLAGS (vma_flags v) VM_EXEC) vmas)"

definition collect_pointers :: "string \<Rightarrow> bytes \<Rightarrow> VMAInfo list \<Rightarrow> PagePtrInfo list" where
  "collect_pointers from_name content vmas =
     fold (data_step from_name content) [0..<length content - 8] (executable_range vmas)"

section \<open>Classifying a pointer\<close>

definition PTR_NO_SECTION :: u64 where "PTR_NO_SECTION = 1"
definition PTR_PLAIN_FILE :: u64 where "PTR_PLAIN_FILE = 2"
definition PTR_SECTION_START :: u64 where "PTR_SECTION_START = 4"
definition PTR_DYNSTR :: u64 where "PTR_DYNSTR = 8"
definition PTR_DYNSYM :: u64 where "PTR_DYNSYM = 0x10"
definition PTR_SEC_NOT_TEXT :: u64 where "PTR_SEC_NOT_TEXT = 0x20"
definition PTR_SYMBOL :: u64 where "PTR_SYMBOL = 0x40"
definition PTR_ENTRY :: u64 where "PTR_ENTRY = 0x80"
definition PTR_INVALID_INSTR :: u64 where "PTR_INVALID_INSTR = 0x100"
definition PTR_UNINT_INSTR :: u64 where "PTR_UNINT_INSTR = 0x200"
definition PTR_RETURN :: u64 where "PTR_RETURN = 0x400"
definition PTR_UNKNOWN :: u64 where "PTR_UNKNOWN = 0x1000"
definition PTR_GADGET :: u64 where "PTR_GADGET = 0x2000"
definition PTR_NOT_7f :: u64 where "PTR_NOT_7f = 0x4000"
definition PTR_UNINT_INSTR_NC :: u64 where "PTR_UNINT_INSTR_NC = 0x8000"
definition PTR_END_PRINTABLE :: u64 where "PTR_END_PRINTABLE = 0x10000"

lemmas ptr_flags = PTR_NO_SECTION_def PTR_PLAIN_FILE_def PTR_SECTION_START_def PTR_DYNSTR_def
  PTR_DYNSYM_def PTR_SEC_NOT_TEXT_def PTR_SYMBOL_def PTR_ENTRY_def PTR_INVALID_INSTR_def
  PTR_UNINT_INSTR_def PTR_RETURN_def PTR_UNKNOWN_def PTR_GADGET_def PTR_NOT_7f_def
  PTR_UNINT_INSTR_NC_def PTR_END_PRINTABLE_def

definition allowedSections :: "string list" where
  "allowedSections =
     [''.data.rel.ro'', ''.data.rel.ro.local'', ''.dynamic'', ''.dynstr'', ''.dynsym'', ''.eh_frame'',
      ''.eh_frame_hdr'', ''.gcc_except_table'', ''.gnu.hash'', ''.gnu.version'', ''.gnu.version_d'',
      ''.gnu.version_r'', ''.got'', ''.got.plt'', ''.hash'', ''.interp'', ''.note.ABI-tag'',
      ''.note.gnu.build-id'', ''.plt'', ''.plt.got'', ''.rela.dyn'', ''.rela.plt'', ''.rodata'',
      ''__libc_IO_vtables'', ''__libc_thread_freeres_fn'']"

text \<open>From the high byte down: a zero byte starts the tail, a byte above 127 ends it.\<close>

fun printable_tail :: "bytes \<Rightarrow> bool \<times> bool \<Rightarrow> bool \<times> bool" where
  "printable_tail [] st = st"
| "printable_tail (b # bs) (foundNULL, endsPrintable) =
     (if \<not> foundNULL \<and> b = 0 then printable_tail bs (True, True)
      else if foundNULL \<and> b AND 0x80 \<noteq> 0 then printable_tail bs (False, False)
      else printable_tail bs (foundNULL, endsPrintable))"

definition endsPrintable :: "u64 \<Rightarrow> bool" where
  "endsPrintable ptr = snd (printable_tail (rev (to_le 8 ptr)) (False, False))"

text \<open>The process' symbols: the name at an address and the address of the containing symbol.\<close>

record process_symbols =
  ps_name :: "u64 \<Rightarrow> string"
  ps_containing :: "u64 \<Rightarrow> u64"

text \<open>
  The last part, for a pointer at no known place: the instruction it points to. \<open>off\<close> is its
  offset in the mapping; \<^verbatim>\<open>isIntendedInstruction\<close> starts at the containing symbol.
\<close>

definition classify_gadget ::
  "disasm \<Rightarrow> bytes \<Rightarrow> u64 \<Rightarrow> u64 \<Rightarrow> u64 \<Rightarrow> u64 res" where
  "classify_gadget dis txt off ptr flags0 =
     (let flags1 = SETFLAGS flags0 PTR_UNKNOWN;
          flags2 = (if endsPrintable ptr then SETFLAGS flags1 PTR_END_PRINTABLE else flags1);
          len = of_nat (length txt) - off in
      bindE (printInstructions dis txt (unat off) (ucast len) ptr) (\<lambda>(n, end_valid, out).
        Inr (if end_valid then flags2 else SETFLAGS flags2 PTR_GADGET)))"

definition classify_code ::
  "disasm \<Rightarrow> process_symbols \<Rightarrow> bytes \<Rightarrow> u64 \<Rightarrow> u64 \<Rightarrow> u64 \<Rightarrow> u64 res" where
  "classify_code dis ps txt start ptr flags0 =
     (let off = ptr - start; func = ps_containing ps ptr in
      bindE (isValidInstruction dis txt (ucast off) start) (\<lambda>valid.
      if \<not> valid then Inr (SETFLAGS (SETFLAGS flags0 PTR_UNKNOWN) PTR_INVALID_INSTR)
      else
        bindE (if 0x4000 < ptr - func then Inr (SETFLAGS flags0 PTR_UNINT_INSTR_NC)
               else bindE (isIntendedInstruction dis txt (unat (func - start)) (ucast (ptr - func)) func) (\<lambda>ok.
                 Inr (if ok then flags0 else SETFLAGS (SETFLAGS flags0 PTR_UNKNOWN) PTR_UNINT_INSTR))) (\<lambda>flags1.
        bindE (isReturnAddress dis txt (ucast off) start) (\<lambda>callAddr.
          let flags2 = (if callAddr \<noteq> 0 then SETFLAGS flags1 PTR_RETURN else flags1) in
          if callAddr \<noteq> 0 \<and> \<not> CHECKFLAGS flags2 PTR_UNINT_INSTR then Inr flags2
          else classify_gadget dis txt off ptr flags2))))"

text \<open>The body of the loop of \<^verbatim>\<open>showPtrs\<close>, in the order of its early exits.\<close>

definition classify ::
  "disasm \<Rightarrow> process_symbols \<Rightarrow> VMAInfo \<Rightarrow> ElfUserspaceLoader option \<Rightarrow> u64 \<Rightarrow> u64 res" where
  "classify dis ps toVMA toLoader ptr =
     (case toLoader of
        None \<Rightarrow> Inl NullDeref
      | Some l \<Rightarrow>
          let start = vma_start toVMA; off = ptr - start;
              flags0 = (if drop_bit 24 ptr = 0 then PTR_NOT_7f else 0) in
          (case findSectionByOffset (elffile l) off of
             None \<Rightarrow> Inr (SETFLAGS flags0 PTR_NO_SECTION)
           | Some toSec \<Rightarrow>
               if off - si_offset toSec = 0 then Inr (SETFLAGS flags0 PTR_SECTION_START)
               else
                 let flags1 = (if si_name toSec = ''.dynstr'' then SETFLAGS flags0 PTR_DYNSTR else flags0);
                     flags2 = (if si_name toSec = ''.dynsym'' then SETFLAGS flags1 PTR_DYNSYM else flags1) in
                 if si_name toSec \<in> set allowedSections then Inr (SETFLAGS flags2 PTR_SEC_NOT_TEXT)
                 else if ps_name ps ptr \<noteq> '''' then Inr (SETFLAGS flags2 PTR_SYMBOL)
                 else bindE (entryPoint (elffile l)) (\<lambda>e.
                   if e = off then Inr (SETFLAGS flags2 PTR_ENTRY)
                   else bindE (assertE (si_name toSec = ''.text'' \<longrightarrow> textSegmentContent l \<noteq> [])) (\<lambda>_.
                     classify_code dis ps (textSegmentContent l) start ptr flags2))))"

section \<open>Statistics\<close>

text \<open>
  \<^verbatim>\<open>ptr_class\<close>: for a pointer the number of its places and its flags. The order of an
  unordered map does not matter for what is counted.
\<close>

type_synonym ptr_stats = "(u64 \<times> nat \<times> u64) list"

fun show_entries :: "(u64 \<Rightarrow> u64 res) \<Rightarrow> (u64 \<times> nat set) list \<Rightarrow> ptr_stats res" where
  "show_entries cls [] = Inr []"
| "show_entries cls ((ptr, wh) # r) =
     bindE (cls ptr) (\<lambda>flags. mapE (\<lambda>st. (ptr, card wh, flags) # st) (show_entries cls r))"

definition showPtrs :: "disasm \<Rightarrow> process_symbols \<Rightarrow> TaskManager \<Rightarrow> PagePtrInfo \<Rightarrow> ptr_stats res" where
  "showPtrs dis ps tm pi =
     show_entries (classify dis ps (pi_toVMA pi) (findLoaderByFileName tm (vma_name (pi_toVMA pi)))) (pi_ptrs pi)"

text \<open>Adding the entries of one table to another; other flags for a known pointer are asserted away.\<close>

definition merge_step :: "u64 \<times> nat \<times> u64 \<Rightarrow> ptr_stats \<Rightarrow> ptr_stats res" where
  "merge_step = (\<lambda>(ptr, n, flags) glob.
     case map_of glob ptr of
       None \<Rightarrow> Inr (umap_put ptr (n, flags) glob)
     | Some (m, old) \<Rightarrow>
         if m \<noteq> 0 \<and> old \<noteq> flags then Inl AssertFailed else Inr (umap_put ptr (m + n, flags) glob))"

definition merge_stats :: "ptr_stats \<Rightarrow> ptr_stats \<Rightarrow> ptr_stats res" where
  "merge_stats stats glob = foldE merge_step stats glob"

text \<open>How many entries have given flags, and over how many places.\<close>

definition count_flag :: "(u64 \<Rightarrow> bool) \<Rightarrow> ptr_stats \<Rightarrow> nat" where
  "count_flag P st = length (filter (\<lambda>(ptr, n, flags). P flags) st)"

definition overall :: "ptr_stats \<Rightarrow> nat" where
  "overall st = sum_list (map (\<lambda>(ptr, n, flags). n) st)"

definition has :: "u64 \<Rightarrow> u64 \<Rightarrow> bool" where
  "has f flags = CHECKFLAGS flags f"

text \<open>The row of numbers \<^verbatim>\<open>printStat\<close> prints with \<^verbatim>\<open>count_not_7f\<close>.\<close>

definition printStat :: "ptr_stats \<Rightarrow> nat list" where
  "printStat st =
     [overall st, length st, count_flag (has PTR_NOT_7f) st, length st - count_flag (has PTR_UNKNOWN) st,
      count_flag (has PTR_NO_SECTION) st, count_flag (has PTR_SECTION_START) st,
      count_flag (has PTR_SEC_NOT_TEXT) st, count_flag (has PTR_DYNSTR) st, count_flag (has PTR_DYNSYM) st,
      count_flag (has PTR_SYMBOL) st, count_flag (has PTR_ENTRY) st, count_flag (has PTR_RETURN) st,
      count_flag (has PTR_UNKNOWN) st,
      count_flag (\<lambda>f. has PTR_UNKNOWN f \<and> \<not> has PTR_NOT_7f f) st,
      count_flag (\<lambda>f. has PTR_UNKNOWN f \<and> \<not> has PTR_NOT_7f f \<and> has PTR_END_PRINTABLE f) st,
      count_flag (has PTR_INVALID_INSTR) st, count_flag (has PTR_UNINT_INSTR) st,
      count_flag (has PTR_UNINT_INSTR_NC) st, count_flag (has (PTR_UNINT_INSTR OR PTR_RETURN)) st,
      count_flag (has (PTR_UNINT_INSTR OR PTR_GADGET)) st]"

text \<open>\<^verbatim>\<open>printStat2\<close>: every number in total, for high and for low pointers.\<close>

definition split_count :: "(u64 \<Rightarrow> bool) \<Rightarrow> ptr_stats \<Rightarrow> nat list" where
  "split_count P st =
     [count_flag P st, count_flag (\<lambda>f. P f \<and> \<not> has PTR_NOT_7f f) st, count_flag (\<lambda>f. P f \<and> has PTR_NOT_7f f) st]"

definition split_overall :: "ptr_stats \<Rightarrow> nat list" where
  "split_overall st =
     [overall st, overall (filter (\<lambda>(ptr, n, f). \<not> has PTR_NOT_7f f) st),
      overall (filter (\<lambda>(ptr, n, f). has PTR_NOT_7f f) st)]"

definition printStat2 :: "ptr_stats \<Rightarrow> nat list" where
  "printStat2 st =
     split_overall st @ split_count (\<lambda>_. True) st @ split_count (\<lambda>f. \<not> has PTR_SEC_NOT_TEXT f) st @
     split_count (has PTR_UNKNOWN) st @ split_count (has (PTR_UNKNOWN OR PTR_END_PRINTABLE)) st @
     split_count (has PTR_INVALID_INSTR) st @ split_count (has PTR_UNINT_INSTR) st @
     split_count (has (PTR_UNINT_INSTR OR PTR_RETURN)) st @ split_count (has (PTR_UNINT_INSTR OR PTR_GADGET)) st"

section \<open>Data mappings and the process\<close>

text \<open>
  Before the search, the loader the data belongs to is looked up; it is the executable's for a special
  mapping, which is asserted to be there.
\<close>

definition from_loader :: "TaskManager \<Rightarrow> Process \<Rightarrow> VMAInfo \<Rightarrow> ElfUserspaceLoader option res" where
  "from_loader tm p vma =
     (if take 1 (vma_name vma) = ''['' then mapE Some (getExecLoader tm p)
      else Inr (findLoaderByFileName tm (vma_name vma)))"

definition stats_step ::
  "disasm \<Rightarrow> process_symbols \<Rightarrow> TaskManager \<Rightarrow> string \<Rightarrow> PagePtrInfo \<Rightarrow>
   ptr_stats \<times> process_report list \<Rightarrow> (ptr_stats \<times> process_report list) res" where
  "stats_step dis ps tm from_name pi =
     (\<lambda>(glob, out). bindE (showPtrs dis ps tm pi) (\<lambda>stats.
        if stats = [] then Inr (glob, out)
        else mapE (\<lambda>g. (g, out @ [MappingSummary from_name (vma_name (pi_toVMA pi)) (printStat stats)]))
          (merge_stats stats glob)))"

definition process_validateDataPage ::
  "(u64 \<Rightarrow> u64 \<Rightarrow> bytes) \<Rightarrow> disasm \<Rightarrow> process_symbols \<Rightarrow> TaskManager \<Rightarrow> Process \<Rightarrow> VMAInfo \<Rightarrow>
   (ptr_stats \<times> process_report list) res" where
  "process_validateDataPage rdx dis ps tm p vma =
     bindE (if executable_range (mappedVMAs p) = [] then Inr None else from_loader tm p vma) (\<lambda>_.
     let content = rdx (vma_start vma) (vma_end vma - vma_start vma) in
     if length content \<le> 8 then Inr ([], [])
     else
       bindE (foldE (stats_step dis ps tm (vma_name vma))
         (collect_pointers (vma_name vma) content (mappedVMAs p)) ([], [])) (\<lambda>(glob, out).
       if glob = [] then Inr (glob, out)
       else bindE (from_loader tm p vma) (\<lambda>_.
         Inr (glob, out @ [SegmentSummary (vma_name vma) (printStat glob)]))))"

definition vma_check ::
  "(u64 \<Rightarrow> u64 \<Rightarrow> bytes) \<Rightarrow> (u64 \<Rightarrow> u64 \<Rightarrow> bytes) \<Rightarrow> disasm \<Rightarrow> process_symbols \<Rightarrow> TaskManager \<Rightarrow> Process \<Rightarrow> VMAInfo \<Rightarrow>
   (ptr_stats \<times> process_report list) res" where
  "vma_check rd rdx dis ps tm p vma =
     (if vma_name vma = ''[stack]'' \<or> vma_name vma = ''[heap]''
      then process_validateDataPage rdx dis ps tm p vma
      else if take 1 (vma_name vma) = ''['' then Inr ([], [])
      else if vma_flags vma AND VM_EXEC \<noteq> 0
      then mapE (\<lambda>out. ([], out)) (process_validateCodePage rd tm p vma)
      else if vma_flags vma AND VM_WRITE \<noteq> 0
      then process_validateDataPage rdx dis ps tm p vma
      else Inr ([], []))"

definition process_step ::
  "(u64 \<Rightarrow> u64 \<Rightarrow> bytes) \<Rightarrow> (u64 \<Rightarrow> u64 \<Rightarrow> bytes) \<Rightarrow> disasm \<Rightarrow> process_symbols \<Rightarrow> TaskManager \<Rightarrow> Process \<Rightarrow> VMAInfo \<Rightarrow>
   ptr_stats \<times> process_report list \<Rightarrow> (ptr_stats \<times> process_report list) res" where
  "process_step rd rdx dis ps tm p vma =
     (\<lambda>(glob, out). bindE (vma_check rd rdx dis ps tm p vma) (\<lambda>(stats, o1).
        mapE (\<lambda>g. (g, out @ o1)) (merge_stats stats glob)))"

text \<open>Pages of the process in the lower half of the address space without a mapping.\<close>

definition unknown_pages :: "Process \<Rightarrow> u64 list \<Rightarrow> process_report list" where
  "unknown_pages p pages =
     map NoVmaForPage (filter (\<lambda>a. a AND 0xffff800000000000 = 0 \<and> findVMAByAddress p a = None) pages)"

definition validateProcess ::
  "(u64 \<Rightarrow> u64 \<Rightarrow> bytes) \<Rightarrow> (u64 \<Rightarrow> u64 \<Rightarrow> bytes) \<Rightarrow> u64 list \<Rightarrow> disasm \<Rightarrow> process_symbols \<Rightarrow> TaskManager \<Rightarrow> Process \<Rightarrow>
   process_report list res" where
  "validateProcess rd rdx pages dis ps tm p =
     bindE (foldE (process_step rd rdx dis ps tm p) (mappedVMAs p) ([], unknown_pages p pages)) (\<lambda>(glob, out).
       Inr (if glob = [] then out else out @ [ProcessSummary (printStat2 glob)]))"

section \<open>Stack and environment\<close>

definition getStackContent :: "(u64 \<Rightarrow> u64 \<Rightarrow> bytes) \<Rightarrow> Process \<Rightarrow> u64 \<Rightarrow> bytes res" where
  "getStackContent rdx p readAmount =
     (case findVMAByName p ''[stack]'' of
        None \<Rightarrow> Inl NullDeref
      | Some stack \<Rightarrow> Inr (rdx (vma_end stack - readAmount) readAmount))"

text \<open>The number of expected variables that have another value; one that is missing is no error.\<close>

definition env_error :: "(string \<times> string) list \<Rightarrow> string \<times> string \<Rightarrow> bool" where
  "env_error envMap = (\<lambda>(k, v). case map_of envMap k of None \<Rightarrow> False | Some w \<Rightarrow> w \<noteq> v)"

definition checkEnvironment :: "(string \<times> string) list \<Rightarrow> (string \<times> string) list \<Rightarrow> nat" where
  "checkEnvironment envMap inputMap = length (filter (env_error envMap) inputMap)"

section \<open>Which pointers are collected\<close>

text \<open>Whether the loop over the mappings gets to the \<open>k\<close>-th one and records the value there.\<close>

definition records :: "string \<Rightarrow> u64 \<Rightarrow> VMAInfo list \<Rightarrow> nat \<Rightarrow> bool" where
  "records from_name v ts k \<longleftrightarrow>
     IN_RANGE v (vma_start (ts ! k) + 1) (vma_end (ts ! k)) \<and>
     (\<forall>t \<in> set (take (Suc k) ts). vma_name t \<noteq> from_name \<and>
        (IN_RANGE v (vma_start t + 1) (vma_end t) \<longrightarrow> v \<noteq> vma_start t + 0x40))"

lemma addPtr_simps [simp]:
  "pi_toVMA (addPtr i v m) = pi_toVMA m"
  "places (addPtr i v m) w = (if w = v then insert i (places m v) else places m w)"
  by (simp_all add: addPtr_def places_def)

lemma point_to_vmas [simp]: "map pi_toVMA (point_to nm i v ms) = map pi_toVMA ms"
  by (induction nm i v ms rule: point_to.induct) (auto simp: Let_def)

lemma point_to_length [simp]: "length (point_to nm i v ms) = length ms"
  by (induction nm i v ms rule: point_to.induct) (auto simp: Let_def)

lemma records_Cons:
  "records nm v (t # ts) 0 \<longleftrightarrow>
     vma_name t \<noteq> nm \<and> IN_RANGE v (vma_start t + 1) (vma_end t) \<and> v \<noteq> vma_start t + 0x40"
  "records nm v (t # ts) (Suc k) \<longleftrightarrow>
     vma_name t \<noteq> nm \<and> (IN_RANGE v (vma_start t + 1) (vma_end t) \<longrightarrow> v \<noteq> vma_start t + 0x40) \<and>
     records nm v ts k"
  by (auto simp: records_def)

lemma point_to_nth:
  "k < length ms \<Longrightarrow>
     point_to nm i v ms ! k = (if records nm v (map pi_toVMA ms) k then addPtr i v (ms ! k) else ms ! k)"
proof (induction nm i v ms arbitrary: k rule: point_to.induct)
  case (2 nm i v m ms)
  show ?case
  proof (cases k)
    case 0
    then show ?thesis by (auto simp: Let_def records_Cons)
  next
    case (Suc k')
    with 2 show ?thesis by (auto simp: Let_def records_Cons)
  qed
qed simp

lemma data_step_vmas [simp]: "map pi_toVMA (data_step nm content i ms) = map pi_toVMA ms"
  by (simp add: data_step_def)

lemma data_step_places:
  "k < length ms \<Longrightarrow> i \<in> places (data_step nm content j ms ! k) v \<longleftrightarrow>
     i \<in> places (ms ! k) v \<or>
     i = j \<and> data_value content i = v \<and> v \<noteq> 0 \<and> records nm v (map pi_toVMA ms) k"
  by (auto simp: data_step_def point_to_nth)

lemma collect_vmas: "map pi_toVMA (fold (data_step nm content) is ms) = map pi_toVMA ms"
  by (induction "is" arbitrary: ms) simp_all

lemma fold_data_step_places:
  assumes "k < length ms"
  shows "i \<in> places (fold (data_step nm content) is ms ! k) v \<longleftrightarrow>
     i \<in> places (ms ! k) v \<or>
     i \<in> set is \<and> data_value content i = v \<and> v \<noteq> 0 \<and> records nm v (map pi_toVMA ms) k"
  using assms
proof (induction "is" arbitrary: ms)
  case (Cons j js)
  have "length (data_step nm content j ms) = length ms" by (simp add: data_step_def)
  with Cons have "i \<in> places (fold (data_step nm content) js (data_step nm content j ms) ! k) v \<longleftrightarrow>
     i \<in> places (data_step nm content j ms ! k) v \<or>
     i \<in> set js \<and> data_value content i = v \<and> v \<noteq> 0 \<and> records nm v (map pi_toVMA ms) k"
    by simp
  with Cons.prems show ?case by (auto simp: data_step_places)
qed simp

lemma executable_range_vmas [simp]:
  "map pi_toVMA (executable_range vmas) = filter (\<lambda>v. CHECKFLAGS (vma_flags v) VM_EXEC) vmas"
  by (simp add: executable_range_def PagePtrInfo_new_def comp_def)

lemma executable_range_length [simp]:
  "length (executable_range vmas) = length (filter (\<lambda>v. CHECKFLAGS (vma_flags v) VM_EXEC) vmas)"
  by (simp add: executable_range_def)

text \<open>C34: The collected pointers are exactly these: for the \<open>k\<close>-th executable mapping the nonzero
  values behind its start, up to and including its end, that are stored at some byte of the data other
  than the last eight; unless a mapping up to this one has the data's own name or the value is the
  address of the program headers of one it lies in.\<close>

theorem collect_pointers_exact:
  assumes "ts = filter (\<lambda>v. CHECKFLAGS (vma_flags v) VM_EXEC) vmas" and "k < length ts"
  shows "i \<in> places (collect_pointers from_name content vmas ! k) v \<longleftrightarrow>
     i < length content - 8 \<and> data_value content i = v \<and> v \<noteq> 0 \<and>
     vma_start (ts ! k) + 1 \<le> v \<and> v \<le> vma_end (ts ! k) \<and>
     (\<forall>t \<in> set (take (Suc k) ts). vma_name t \<noteq> from_name \<and>
        \<not> (vma_start t + 1 \<le> v \<and> v \<le> vma_end t \<and> v = vma_start t + 0x40))"
proof -
  have k: "k < length (executable_range vmas)" using assms by simp
  then have "executable_range vmas ! k \<in> set (executable_range vmas)" by simp
  then have "places (executable_range vmas ! k) v = {}"
    by (auto simp: executable_range_def PagePtrInfo_new_def places_def)
  with k show ?thesis
    by (auto simp: collect_pointers_def fold_data_step_places assms(1) records_def IN_RANGE_def)
qed

lemma fold_point_to_prefix:
  "fold (data_step (vma_name (pi_toVMA t)) content) is (as @ t # bs) =
     fold (data_step (vma_name (pi_toVMA t)) content) is as @ t # bs"
proof (induction "is" arbitrary: "as")
  case (Cons i "is")
  have "point_to (vma_name (pi_toVMA t)) i v (as @ t # bs) = point_to (vma_name (pi_toVMA t)) i v as @ t # bs"
    for v by (induction "as") (auto simp: Let_def)
  with Cons show ?case by (simp add: data_step_def)
qed simp

text \<open>The \<^verbatim>\<open>break\<close> at the mapping of the same name: no pointer into it or into any
  mapping behind it is ever seen, whatever the data holds.\<close>

theorem own_mapping_hides_later:
  assumes "filter (\<lambda>v. CHECKFLAGS (vma_flags v) VM_EXEC) vmas = before @ own # later"
    and "pi \<in> set (drop (length before) (collect_pointers (vma_name own) content vmas))"
  shows "pi_ptrs pi = [] \<and> pi_toVMA pi \<in> insert own (set later)"
proof -
  have "collect_pointers (vma_name own) content vmas =
      fold (data_step (vma_name own) content) [0..<length content - 8] (map PagePtrInfo_new before) @
      map PagePtrInfo_new (own # later)"
    unfolding collect_pointers_def executable_range_def assms(1)
    using fold_point_to_prefix [where t = "PagePtrInfo_new own" and bs = "map PagePtrInfo_new later"]
    by (simp add: PagePtrInfo_new_def)
  moreover have "length (fold (data_step nm content) is ms) = length ms" for nm "is" and ms :: "PagePtrInfo list"
    using arg_cong [OF collect_vmas, of length] by (metis length_map)
  ultimately have "pi \<in> set (map PagePtrInfo_new (own # later))" using assms(2) by simp
  then show ?thesis by (auto simp: PagePtrInfo_new_def)
qed

section \<open>The code check, page by page\<close>

lemma first_mismatch_None:
  "first_mismatch m f = None \<longleftrightarrow> (\<forall>j < min (length f) (length m). m ! j = f ! j)"
  by (auto simp: first_mismatch_def find_None_iff)

text \<open>
  What a read of a mapping returns when \<open>vmem\<close> is its content, \<open>None\<close> where it is not
  mapped: a run of bytes that ends behind \<open>sz\<close> or before a page that is not mapped.
\<close>

definition mapped_run :: "(nat \<Rightarrow> u8 option) \<Rightarrow> nat \<Rightarrow> nat \<Rightarrow> bytes \<Rightarrow> bool" where
  "mapped_run vmem sz n c \<longleftrightarrow>
     (\<forall>j < length c. vmem (n + j) = Some (c ! j)) \<and>
     (n + length c < sz \<longrightarrow> 4096 dvd n + length c \<and> (\<forall>i < 4096. vmem (n + length c + i) = None))"

text \<open>The bytes from \<open>n\<close> on that are mapped are those of the text.\<close>

definition agrees :: "(nat \<Rightarrow> u8 option) \<Rightarrow> bytes \<Rightarrow> nat \<Rightarrow> bool" where
  "agrees vmem txt n \<longleftrightarrow> (\<forall>i. n \<le> i \<longrightarrow> i < length txt \<longrightarrow> vmem i = None \<or> vmem i = Some (txt ! i))"

lemma mapped_run_mismatch:
  assumes "mapped_run vmem sz n c" and "n < length txt"
  shows "first_mismatch c (drop n txt) = None \<longleftrightarrow>
     (\<forall>i. n \<le> i \<and> i < n + length c \<and> i < length txt \<longrightarrow> vmem i = Some (txt ! i))" (is "?m \<longleftrightarrow> ?P")
proof
  have run: "vmem (n + j) = Some (c ! j)" if "j < length c" for j
    using assms(1) that by (simp add: mapped_run_def)
  show ?P if m: ?m
  proof (intro allI impI, elim conjE)
    fix i assume i: "n \<le> i" "i < n + length c" "i < length txt"
    then have "c ! (i - n) = drop n txt ! (i - n)"
      using m unfolding first_mismatch_None
      by (metis diff_less_mono length_drop less_diff_conv2 min_less_iff_conj add.commute)
    with run [of "i - n"] i show "vmem i = Some (txt ! i)" by simp
  qed
  show ?m if p: ?P
  proof -
    have "c ! j = drop n txt ! j" if "j < length c" "j < length txt - n" for j
      using p [rule_format, of "n + j"] run [of j] that by simp
    with assms(2) show ?thesis by (simp add: first_mismatch_None)
  qed
qed

lemma agrees_skip:
  assumes "\<And>i. n \<le> i \<Longrightarrow> i < m \<Longrightarrow> i < length txt \<Longrightarrow> vmem i = None \<or> vmem i = Some (txt ! i)" and "n < m"
  shows "agrees vmem txt m = agrees vmem txt n"
proof (unfold agrees_def, intro iffI allI impI)
  fix i assume "\<forall>i. m \<le> i \<longrightarrow> i < length txt \<longrightarrow> vmem i = None \<or> vmem i = Some (txt ! i)"
    and "n \<le> i" "i < length txt"
  then show "vmem i = None \<or> vmem i = Some (txt ! i)" using assms(1) [of i] by (cases "i < m") auto
qed (use assms(2) in auto)

lemma code_vma_loop_ok:
  assumes run: "\<And>n. n < length txt \<Longrightarrow> 4096 dvd n \<Longrightarrow>
      mapped_run vmem (length txt) n (rd (vma_start vma + of_nat n) (vma_end vma - vma_start vma - of_nat n))"
    and "4096 dvd n \<or> length txt \<le> n"
  shows "code_vma_loop rd vma txt n = None \<longleftrightarrow> agrees vmem txt n"
  using assms(2)
proof (induction "length txt - n" arbitrary: n rule: less_induct)
  case less
  show ?case
  proof (cases "n < length txt")
    case False
    then show ?thesis by (simp add: code_vma_loop.simps agrees_def)
  next
    case n: True
    define c where "c = rd (vma_start vma + of_nat n) (vma_end vma - vma_start vma - of_nat n)"
    let ?e = "n + length c"
    let ?n = "if ?e < length txt then ?e + 0x1000 else ?e"
    have c: "mapped_run vmem (length txt) n c" unfolding c_def using n less.prems by (intro run) auto
    note head = mapped_run_mismatch [OF c n]
    show ?thesis
    proof (cases "first_mismatch c (drop n txt)")
      case (Some j)
      with head obtain i where i: "n \<le> i" "i < ?e" "i < length txt" "vmem i \<noteq> Some (txt ! i)" by auto
      then have "i - n < length c" by simp
      with c have "vmem (n + (i - n)) = Some (c ! (i - n))" unfolding mapped_run_def by blast
      with i have "\<not> agrees vmem txt n" by (auto simp: agrees_def)
      with Some n show ?thesis by (subst code_vma_loop.simps) (auto simp: c_def [symmetric])
    next
      case None
      have gap: "vmem i = None" if "?e \<le> i" "i < ?n" for i
      proof -
        from that have "?e < length txt" "i - ?e < 4096" by (auto split: if_splits)
        with c have "vmem (?e + (i - ?e)) = None" unfolding mapped_run_def by blast
        with that show ?thesis by simp
      qed
      have "n < ?n" using n by (cases "c = []") auto
      have "code_vma_loop rd vma txt n = code_vma_loop rd vma txt ?n"
        by (subst code_vma_loop.simps) (simp only: n if_True c_def [symmetric] Let_def None option.case)
      also have "\<dots> = None \<longleftrightarrow> agrees vmem txt ?n"
        using \<open>n < ?n\<close> n c by (intro less.hyps) (auto simp: mapped_run_def)
      also have "\<dots> \<longleftrightarrow> agrees vmem txt n"
        using head None gap by (intro agrees_skip \<open>n < ?n\<close>) (meson not_le)
      finally show ?thesis .
    qed
  qed
qed

text \<open>C33: A read returns what is mapped up to the next unmapped page. Then the check of a code mapping
  reports nothing exactly if every byte of the loader's text that is mapped in the guest is the
  loader's: pages that are not mapped are skipped, and the check goes on behind them.\<close>

theorem process_validateCodePage_exact:
  assumes "mapping_loader tm p vma = Inr (Some l)"
    and "\<And>n. n < length (textSegmentContent l) \<Longrightarrow> 4096 dvd n \<Longrightarrow>
      mapped_run vmem (length (textSegmentContent l)) n
        (rd (vma_start vma + of_nat n) (vma_end vma - vma_start vma - of_nat n))"
  shows "process_validateCodePage rd tm p vma = Inr [] \<longleftrightarrow>
     (\<forall>i. i < length (textSegmentContent l) \<longrightarrow> vmem i = None \<or> vmem i = Some (textSegmentContent l ! i))"
proof -
  have "code_vma_loop rd vma (textSegmentContent l) 0 = None \<longleftrightarrow> agrees vmem (textSegmentContent l) 0"
    by (rule code_vma_loop_ok) (use assms(2) in auto)
  moreover have "process_validateCodePage rd tm p vma = Inr [] \<longleftrightarrow>
      code_vma_loop rd vma (textSegmentContent l) 0 = None"
    by (auto simp: process_validateCodePage_def assms(1) Let_def mapE_def split: option.splits prod.splits)
  ultimately show ?thesis by (simp add: agrees_def)
qed

section \<open>Printable tails\<close>

lemma printable_tail_iff:
  "snd (printable_tail bs (r, r)) \<longleftrightarrow>
     r \<and> (\<forall>b \<in> set bs. b AND 0x80 = 0) \<or>
     (\<exists>as cs. bs = as @ 0 # cs \<and> (\<forall>b \<in> set cs. b AND 0x80 = 0))"
proof (induction bs arbitrary: r)
  case (Cons b bs)
  have split: "(\<exists>as cs. b # bs = as @ 0 # cs \<and> (\<forall>b \<in> set cs. b AND 0x80 = 0)) \<longleftrightarrow>
      b = 0 \<and> (\<forall>b \<in> set bs. b AND 0x80 = 0) \<or>
      (\<exists>as cs. bs = as @ 0 # cs \<and> (\<forall>b \<in> set cs. b AND 0x80 = 0))"
    by (auto simp: Cons_eq_append_conv)
  have tail: "snd (printable_tail bs (True, True)) \<longleftrightarrow> (\<forall>b \<in> set bs. b AND 0x80 = 0) \<or>
      snd (printable_tail bs (False, False))"
    by (simp only: Cons.IH simp_thms)
  show ?case unfolding split Cons.IH [of False, simplified, symmetric] by (cases r) (auto simp: tail)
qed simp

text \<open>The bytes are scanned from the most significant one; the flag is set exactly if
  some zero byte has only bytes below \<open>0x80\<close> after it: control characters and further zero
  bytes are taken for printable too.\<close>

theorem endsPrintable_iff:
  "endsPrintable ptr \<longleftrightarrow>
     (\<exists>as cs. rev (to_le 8 ptr) = as @ 0 # cs \<and> (\<forall>b \<in> set cs. b AND 0x80 = 0))"
  by (simp add: endsPrintable_def printable_tail_iff)

section \<open>The statistics agree\<close>

text \<open>Every table of one run holds for a pointer the flags \<open>classify\<close> gives it: \<open>Q\<close>.\<close>

definition stats_ok :: "(u64 \<Rightarrow> u64 \<Rightarrow> bool) \<Rightarrow> ptr_stats \<Rightarrow> bool" where
  "stats_ok Q st \<longleftrightarrow> (\<forall>(ptr, n, flags) \<in> set st. Q ptr flags)"

lemma set_umap_put: "x \<in> set (umap_put k v m) \<Longrightarrow> x = (k, v) \<or> x \<in> set m"
  by (induction k v m rule: umap_put.induct) (auto split: if_splits)

lemma merge_step_ok:
  assumes "stats_ok Q glob" and "Q ptr flags" and "\<And>f f'. Q ptr f \<Longrightarrow> Q ptr f' \<Longrightarrow> f = f'"
  shows "\<exists>g. merge_step (ptr, n, flags) glob = Inr g \<and> stats_ok Q g"
proof (cases "map_of glob ptr")
  case None
  with assms(1,2) show ?thesis by (auto simp: merge_step_def stats_ok_def dest!: set_umap_put)
next
  case (Some mo)
  obtain m old where mo: "mo = (m, old)" by (cases mo)
  with Some have "(ptr, m, old) \<in> set glob" by (auto dest: map_of_SomeD)
  with assms(1) have "Q ptr old" by (auto simp: stats_ok_def)
  with assms have "old = flags" by blast
  with Some mo assms(1,2) show ?thesis
    by (auto simp: merge_step_def stats_ok_def dest!: set_umap_put)
qed

lemma merge_stats_ok:
  assumes "stats_ok Q glob" and "stats_ok Q stats" and "\<And>p f f'. Q p f \<Longrightarrow> Q p f' \<Longrightarrow> f = f'"
  shows "\<exists>g. merge_stats stats glob = Inr g \<and> stats_ok Q g"
  using assms(1,2)
proof (induction stats arbitrary: glob)
  case (Cons x stats)
  obtain ptr n flags where x: "x = (ptr, n, flags)" by (cases x)
  with Cons.prems have "Q ptr flags" by (simp add: stats_ok_def)
  then obtain g where g: "merge_step x glob = Inr g" "stats_ok Q g"
    using merge_step_ok [of Q glob ptr flags n] Cons.prems(1) assms(3) x by blast
  moreover have "stats_ok Q stats" using Cons.prems(2) by (simp add: stats_ok_def)
  ultimately show ?case using Cons.IH by (simp add: merge_stats_def)
qed (simp add: merge_stats_def)

text \<open>The flags of a pointer, and that they are a function of it: mappings do not overlap.\<close>

definition flags_of ::
  "disasm \<Rightarrow> process_symbols \<Rightarrow> TaskManager \<Rightarrow> VMAInfo list \<Rightarrow> u64 \<Rightarrow> u64 \<Rightarrow> bool" where
  "flags_of dis ps tm vmas ptr flags \<longleftrightarrow>
     (\<exists>t \<in> set vmas. vma_start t + 1 \<le> ptr \<and> ptr \<le> vma_end t \<and>
        classify dis ps t (findLoaderByFileName tm (vma_name t)) ptr = Inr flags)"

definition separate :: "VMAInfo list \<Rightarrow> bool" where
  "separate vmas \<longleftrightarrow> sorted_wrt (\<lambda>a b. vma_end a \<le> vma_start b) vmas \<and> (\<forall>v \<in> set vmas. vma_start v < vma_end v)"

lemma separate_unique:
  assumes "separate vmas" and "s \<in> set vmas" and "t \<in> set vmas"
    and "vma_start s + 1 \<le> v" and "v \<le> vma_end s" and "vma_start t + 1 \<le> v" and "v \<le> vma_end t"
  shows "s = t"
proof -
  have above: "vma_start u < v" if "u \<in> set vmas" "vma_start u + 1 \<le> v" for u
  proof -
    have "vma_start u < vma_end u" using assms(1) that(1) by (simp add: separate_def)
    then have "vma_start u < vma_start u + 1" by uint_arith
    with that(2) show ?thesis by simp
  qed
  obtain i j where ij: "i < length vmas" "j < length vmas" "s = vmas ! i" "t = vmas ! j"
    using assms(2,3) by (auto simp: in_set_conv_nth)
  have before: "vma_end (vmas ! a) \<le> vma_start (vmas ! b)" if "a < b" "b < length vmas" for a b
    using assms(1) that by (auto simp: separate_def sorted_wrt_iff_nth_less)
  show ?thesis
    using before [of i j] before [of j i] ij above [OF assms(2,4)] above [OF assms(3,6)] assms(5,7)
    by (cases i j rule: linorder_cases) auto
qed

lemma flags_of_unique:
  assumes "separate vmas" and "flags_of dis ps tm vmas ptr f" and "flags_of dis ps tm vmas ptr f'"
  shows "f = f'"
proof -
  from assms(2) obtain s where s: "s \<in> set vmas" "vma_start s + 1 \<le> ptr" "ptr \<le> vma_end s"
    "classify dis ps s (findLoaderByFileName tm (vma_name s)) ptr = Inr f" by (auto simp: flags_of_def)
  from assms(3) obtain t where t: "t \<in> set vmas" "vma_start t + 1 \<le> ptr" "ptr \<le> vma_end t"
    "classify dis ps t (findLoaderByFileName tm (vma_name t)) ptr = Inr f'" by (auto simp: flags_of_def)
  have "s = t" using separate_unique [OF assms(1) s(1) t(1) s(2,3) t(2,3)] .
  with s t show ?thesis by simp
qed

text \<open>What is collected for a mapping lies in it.\<close>

definition ptrs_inside :: "PagePtrInfo \<Rightarrow> bool" where
  "ptrs_inside pi \<longleftrightarrow>
     (\<forall>v \<in> fst ` set (pi_ptrs pi). vma_start (pi_toVMA pi) + 1 \<le> v \<and> v \<le> vma_end (pi_toVMA pi))"

lemma point_to_inside: "list_all ptrs_inside ms \<Longrightarrow> list_all ptrs_inside (point_to nm i v ms)"
  by (induction nm i v ms rule: point_to.induct)
    (auto simp: Let_def IN_RANGE_def ptrs_inside_def addPtr_def keys_omap_put)

lemma collect_pointers_inside:
  assumes "pi \<in> set (collect_pointers nm content vmas)"
  shows "ptrs_inside pi \<and> pi_toVMA pi \<in> set vmas"
proof -
  have step: "list_all ptrs_inside ms \<Longrightarrow> list_all ptrs_inside (fold (data_step nm content) is ms)" for "is" ms
    by (induction "is" arbitrary: ms) (auto simp: data_step_def point_to_inside)
  have "list_all ptrs_inside (executable_range vmas)"
    by (auto simp: executable_range_def PagePtrInfo_new_def ptrs_inside_def list_all_iff)
  with step assms have "ptrs_inside pi" by (auto simp: collect_pointers_def list_all_iff)
  moreover have "pi_toVMA pi \<in> set (map pi_toVMA (collect_pointers nm content vmas))" using assms by simp
  then have "pi_toVMA pi \<in> set vmas" unfolding collect_pointers_def collect_vmas by auto
  ultimately show ?thesis ..
qed

lemma show_entries_flags:
  "show_entries cls ps = Inr st \<Longrightarrow> stats_ok (\<lambda>ptr f. ptr \<in> fst ` set ps \<and> cls ptr = Inr f) st"
proof (induction cls ps arbitrary: st rule: show_entries.induct)
  case (2 cls ptr wh r)
  then show ?case by (fastforce simp: mapE_def stats_ok_def split: sum.splits)
qed (simp add: stats_ok_def)

lemma showPtrs_flags:
  assumes "pi \<in> set (collect_pointers nm content vmas)" and "showPtrs dis ps tm pi = Inr st"
  shows "stats_ok (flags_of dis ps tm vmas) st"
  using show_entries_flags [OF assms(2) [unfolded showPtrs_def]] collect_pointers_inside [OF assms(1)]
  by (fastforce simp: stats_ok_def flags_of_def ptrs_inside_def)

lemma merge_stats_ends:
  assumes "separate vmas" and "stats_ok (flags_of dis ps tm vmas) glob"
    and "stats_ok (flags_of dis ps tm vmas) stats"
  shows "ends (stats_ok (flags_of dis ps tm vmas)) E (merge_stats stats glob)"
proof -
  have "f = f'" if "flags_of dis ps tm vmas v f" "flags_of dis ps tm vmas v f'" for v f f'
    using flags_of_unique [OF assms(1) that] .
  then obtain g where "merge_stats stats glob = Inr g" "stats_ok (flags_of dis ps tm vmas) g"
    using merge_stats_ok [OF assms(2,3)] by blast
  then show ?thesis by simp
qed

lemma stats_step_ends:
  assumes "pi \<in> set (collect_pointers nm content vmas)" and "separate vmas"
    and "stats_ok (flags_of dis ps tm vmas) (fst s)" and "\<And>e. showPtrs dis ps tm pi = Inl e \<Longrightarrow> E e"
  shows "ends (\<lambda>s. stats_ok (flags_of dis ps tm vmas) (fst s)) E
     (stats_step dis ps tm from_name pi s)"
  using assms(3) unfolding stats_step_def case_prod_unfold
  by (intro ends_bindE [OF ends_any [where P = "stats_ok (flags_of dis ps tm vmas)"]])
    (auto intro!: ends_mapE showPtrs_flags [OF assms(1)] merge_stats_ends [OF assms(2)] assms(4))

text \<open>How the check of a data mapping can fail.\<close>

definition data_page_error ::
  "(u64 \<Rightarrow> u64 \<Rightarrow> bytes) \<Rightarrow> disasm \<Rightarrow> process_symbols \<Rightarrow> TaskManager \<Rightarrow> Process \<Rightarrow> VMAInfo \<Rightarrow> error \<Rightarrow> bool" where
  "data_page_error rdx dis ps tm p vma e \<longleftrightarrow>
     from_loader tm p vma = Inl e \<or>
     (\<exists>pi \<in> set (collect_pointers (vma_name vma) (rdx (vma_start vma) (vma_end vma - vma_start vma)) (mappedVMAs p)).
        showPtrs dis ps tm pi = Inl e)"

lemma data_page_ends:
  assumes "separate (mappedVMAs p)"
  shows "ends (\<lambda>s. stats_ok (flags_of dis ps tm (mappedVMAs p)) (fst s)) (data_page_error rdx dis ps tm p vma)
     (process_validateDataPage rdx dis ps tm p vma)"
proof -
  let ?P = "\<lambda>s :: ptr_stats \<times> process_report list. stats_ok (flags_of dis ps tm (mappedVMAs p)) (fst s)"
  let ?E = "data_page_error rdx dis ps tm p vma"
  have empty: "stats_ok (flags_of dis ps tm (mappedVMAs p)) []" by (simp add: stats_ok_def)
  have loop: "ends ?P ?E (foldE (stats_step dis ps tm (vma_name vma))
      (collect_pointers (vma_name vma) (rdx (vma_start vma) (vma_end vma - vma_start vma)) (mappedVMAs p)) ([], []))"
    by (rule ends_foldE)
      (auto simp: empty data_page_error_def intro!: stats_step_ends [OF _ assms])
  have ldr: "ends (\<lambda>_. True) ?E (from_loader tm p vma)"
    by (rule ends_any) (simp_all add: data_page_error_def)
  show ?thesis
    unfolding process_validateDataPage_def Let_def
    by (intro ends_bindE [where P = "\<lambda>_. True"]) 
      (auto simp: empty ldr intro!: ends_bindE [OF loop] ends_bindE [OF ldr])
qed

text \<open>The mappings of a process do not overlap. Then the tables of pointers never contradict
  each other, neither within a mapping nor between mappings, and the assertions on that cannot fail:
  whatever stops the check of a process comes from a code mapping, from a missing executable or from
  classifying a pointer.\<close>

theorem validateProcess_errors:
  assumes "sorted_wrt (\<lambda>a b. vma_end a \<le> vma_start b) (mappedVMAs p)"
    and "\<And>v. v \<in> set (mappedVMAs p) \<Longrightarrow> vma_start v < vma_end v"
    and "validateProcess rd rdx pages dis ps tm p = Inl e"
  shows "\<exists>v \<in> set (mappedVMAs p).
     process_validateCodePage rd tm p v = Inl e \<or> from_loader tm p v = Inl e \<or>
     (\<exists>pi \<in> set (collect_pointers (vma_name v) (rdx (vma_start v) (vma_end v - vma_start v)) (mappedVMAs p)).
        showPtrs dis ps tm pi = Inl e)"
proof -
  let ?P = "\<lambda>s :: ptr_stats \<times> process_report list. stats_ok (flags_of dis ps tm (mappedVMAs p)) (fst s)"
  let ?E = "\<lambda>e. \<exists>v \<in> set (mappedVMAs p). process_validateCodePage rd tm p v = Inl e \<or> data_page_error rdx dis ps tm p v e"
  have sep: "separate (mappedVMAs p)" using assms(1,2) by (simp add: separate_def)
  have empty: "stats_ok (flags_of dis ps tm (mappedVMAs p)) []" by (simp add: stats_ok_def)
  have check: "ends ?P ?E (vma_check rd rdx dis ps tm p v)" if v: "v \<in> set (mappedVMAs p)" for v
  proof -
    have "ends ?P ?E (process_validateDataPage rdx dis ps tm p v)"
      using data_page_ends [OF sep] by (rule ends_weaken) (use v in auto)
    moreover have "ends ?P ?E (mapE (\<lambda>out. ([], out)) (process_validateCodePage rd tm p v))"
      by (rule ends_mapE, rule ends_any) (use v in \<open>auto simp: empty\<close>)
    ultimately show ?thesis by (simp add: vma_check_def empty)
  qed
  have "ends ?P ?E (process_step rd rdx dis ps tm p v s)" if "v \<in> set (mappedVMAs p)" "?P s" for v s
    unfolding process_step_def case_prod_unfold
    by (rule ends_bindE [OF check [OF that(1)]])
      (use that(2) in \<open>auto intro!: ends_mapE merge_stats_ends [OF sep, THEN ends_weaken]\<close>)
  then have "ends ?P ?E (foldE (process_step rd rdx dis ps tm p) (mappedVMAs p) ([], unknown_pages p pages))"
    by (intro ends_foldE) (simp_all add: empty)
  with assms(3) have "?E e" by (auto simp: validateProcess_def bindE_Inl_iff)
  then show ?thesis by (auto simp: data_page_error_def)
qed

section \<open>Examples\<close>

text \<open>Nine bytes of a heap, the first eight an address in the library's mapping.\<close>

definition ex_heap :: bytes where
  "ex_heap = to_le 8 (0x7f0000001050 :: u64) @ [0]"

definition ex_own :: VMAInfo where
  "ex_own = ex_mapping\<lparr>vma_start := 0x400000, vma_end := 0x401000, vma_name := ''/bin/b''\<rparr>"

lemma ex_heap_value: "length ex_heap = 9" "data_value ex_heap 0 = 0x7f0000001050"
  using of_le_to_le [of 8 "0x7f0000001050 :: u64"] by (simp_all add: ex_heap_def data_value_def)

lemma ex_executable: "CHECKFLAGS (vma_flags ex_mapping) VM_EXEC" "CHECKFLAGS (vma_flags ex_own) VM_EXEC"
  by (simp_all add: CHECKFLAGS_def VM_EXEC_def ex_own_def ex_mapping_def)

theorem collect_pointers_exact_witness:
  "0 \<in> places (collect_pointers ''[heap]'' ex_heap [ex_own, ex_mapping] ! 1) 0x7f0000001050"
proof -
  have k: "1 < length [ex_own, ex_mapping]" by simp
  have ts: "[ex_own, ex_mapping] = filter (\<lambda>v. CHECKFLAGS (vma_flags v) VM_EXEC) [ex_own, ex_mapping]"
    by (simp add: ex_executable)
  show ?thesis
    unfolding collect_pointers_exact [OF ts k] ex_heap_value by (simp add: ex_own_def ex_mapping_def)
qed

text \<open>The same data in a mapping of the executable's file: the pointer is not seen.\<close>

theorem own_mapping_hides_later_witness:
  "pi_ptrs (collect_pointers ''/bin/b'' ex_heap [ex_own, ex_mapping] ! 1) = []"
proof -
  let ?c = "collect_pointers (vma_name ex_own) ex_heap [ex_own, ex_mapping]"
  have f: "filter (\<lambda>v. CHECKFLAGS (vma_flags v) VM_EXEC) [ex_own, ex_mapping] = [] @ ex_own # [ex_mapping]"
    by (simp add: ex_executable)
  have "length ?c = length (map pi_toVMA ?c)" by simp
  also have "\<dots> = 2" unfolding collect_pointers_def collect_vmas by (simp add: ex_executable)
  finally have "?c ! 1 \<in> set (drop (length []) ?c)" by simp
  from own_mapping_hides_later [OF f this] show ?thesis by (simp add: ex_own_def)
qed

text \<open>A text of a page and a byte whose page is not mapped: the byte behind it is compared.\<close>

definition ex_code_text :: bytes where
  "ex_code_text = replicate 4096 0x90 @ [0xc3]"

lemma ex_code_text_length [simp]: "length ex_code_text = 4097"
  by (simp add: ex_code_text_def)

definition ex_code_manager :: TaskManager where
  "ex_code_manager = register_library ''/lib/a''
     ((ElfUserspaceLoader_new ex_user_file ''/lib/a'')\<lparr>textSegmentContent := ex_code_text\<rparr>) ex_task_manager"

definition ex_heap_mapping :: VMAInfo where
  "ex_heap_mapping = \<lparr>vma_start = 0x600000, vma_end = 0x601000, vma_ino = 0, vma_off = 0, vma_flags = 3,
     vma_name = ''[heap]''\<rparr>"

definition ex_process :: Process where
  "ex_process = \<lparr>pr_name = ''/bin/b'', pr_pid = 1, pr_exec = None, pr_vdso = None,
     mappedVMAs = [ex_heap_mapping, ex_mapping],
     pr_symbols = [], dataSectionInfoMap = [], dataSegmentInfoMap = [], dataSegmentMap = []\<rparr>"

theorem process_validateCodePage_exact_witness:
  "\<forall>b. process_validateCodePage (\<lambda>a n. if a = 0x7f0000001000 then [] else [b]) ex_code_manager ex_process ex_mapping
       = Inr [] \<longleftrightarrow> b = 0xc3"
proof
  fix b :: u8
  let ?rd = "\<lambda>a (n :: u64). if a = (0x7f0000001000 :: u64) then [] else [b]"
  let ?l = "(ElfUserspaceLoader_new ex_user_file ''/lib/a'')\<lparr>textSegmentContent := ex_code_text\<rparr>"
  let ?m = "\<lambda>i :: nat. if i < 4096 then None else Some b"
  have l: "mapping_loader ex_code_manager ex_process ex_mapping = Inr (Some ?l)"
    by (simp add: mapping_loader_def hasEnding_def ex_process_def ex_mapping_def findLoaderByFileName_def
        findLibByName_def ex_code_manager_def register_library_def ex_task_manager_def)
  have len: "length (textSegmentContent ?l) = 4097" by simp
  have run: "mapped_run ?m (length (textSegmentContent ?l)) n
      (?rd (vma_start ex_mapping + of_nat n) (vma_end ex_mapping - vma_start ex_mapping - of_nat n))"
    if "n < length (textSegmentContent ?l)" and "4096 dvd n" for n
  proof -
    have "n = 0 \<or> n = 4096" using that len by (auto simp: dvd_def)
    then show ?thesis by (auto simp: mapped_run_def len ex_mapping_def)
  qed
  have page: "ex_code_text ! i = ex_code_text ! 4096" if "\<not> i < 4096" "i < 4097" for i
  proof -
    from that have "i = 4096" by linarith
    then show ?thesis by simp
  qed
  have "process_validateCodePage ?rd ex_code_manager ex_process ex_mapping = Inr [] \<longleftrightarrow>
      (\<forall>i. i < 4097 \<longrightarrow> ?m i = None \<or> ?m i = Some (ex_code_text ! i))"
    using process_validateCodePage_exact [OF l run] len by simp
  also have "\<dots> \<longleftrightarrow> b = ex_code_text ! 4096"
  proof (intro iffI allI impI)
    fix i :: nat assume "b = ex_code_text ! 4096" "i < 4097"
    then show "?m i = None \<or> ?m i = Some (ex_code_text ! i)" using page [of i] by (cases "i < 4096") simp_all
  qed (auto dest: spec [of _ 4096])
  also have "ex_code_text ! 4096 = 0xc3" by (simp add: ex_code_text_def nth_append)
  finally show "process_validateCodePage ?rd ex_code_manager ex_process ex_mapping = Inr [] \<longleftrightarrow> b = 0xc3" .
qed

text \<open>The executable of a process is not known: its heap cannot be checked.\<close>

theorem validateProcess_errors_witness:
  "\<exists>v \<in> {ex_heap_mapping, ex_mapping}. from_loader ex_task_manager ex_process v = Inl AssertFailed"
proof -
  let ?d = "(\<lambda>_ _. None) :: disasm" and ?s = "\<lparr>ps_name = (\<lambda>_. ''''), ps_containing = id\<rparr>"
  let ?rd = "\<lambda>_ _. []"
  have vmas: "mappedVMAs ex_process = [ex_heap_mapping, ex_mapping]" by (simp add: ex_process_def)
  have sorted: "sorted_wrt (\<lambda>a b. vma_end a \<le> vma_start b) (mappedVMAs ex_process)"
    by (simp add: vmas ex_heap_mapping_def ex_mapping_def)
  have ne: "vma_start v < vma_end v" if "v \<in> set (mappedVMAs ex_process)" for v
    using that by (auto simp: vmas ex_heap_mapping_def ex_mapping_def)
  have none: "findLoaderByFileName ex_task_manager nm = None" for nm
    by (simp add: findLoaderByFileName_def findLibByName_def ex_task_manager_def)
  have fl: "from_loader ex_task_manager ex_process ex_heap_mapping = Inl AssertFailed"
    by (simp add: from_loader_def ex_heap_mapping_def getExecLoader_def ex_process_def mapE_def)
  have rng: "executable_range (mappedVMAs ex_process) \<noteq> []"
    by (simp add: vmas executable_range_def ex_executable)
  have "process_validateDataPage ?rd ?d ?s ex_task_manager ex_process ex_heap_mapping = Inl AssertFailed"
    by (simp add: process_validateDataPage_def rng fl)
  then have "vma_check ?rd ?rd ?d ?s ex_task_manager ex_process ex_heap_mapping = Inl AssertFailed"
    by (simp add: vma_check_def ex_heap_mapping_def)
  then have "validateProcess ?rd ?rd [] ?d ?s ex_task_manager ex_process = Inl AssertFailed"
    by (simp add: validateProcess_def vmas process_step_def)
  from validateProcess_errors [OF sorted ne this] obtain v where v: "v \<in> set (mappedVMAs ex_process)"
    and e: "process_validateCodePage ?rd ex_task_manager ex_process v = Inl AssertFailed \<or>
      from_loader ex_task_manager ex_process v = Inl AssertFailed \<or>
      (\<exists>pi \<in> set (collect_pointers (vma_name v) [] (mappedVMAs ex_process)).
        showPtrs ?d ?s ex_task_manager pi = Inl AssertFailed)" by auto
  have "process_validateCodePage ?rd ex_task_manager ex_process v \<noteq> Inl AssertFailed"
    using v by (auto simp: process_validateCodePage_def mapping_loader_def vmas ex_process_def hasEnding_def
        ex_heap_mapping_def ex_mapping_def none)
  moreover have "showPtrs ?d ?s ex_task_manager pi \<noteq> Inl AssertFailed"
    if "pi \<in> set (collect_pointers (vma_name v) [] (mappedVMAs ex_process))" for pi
    using that by (auto simp: collect_pointers_def executable_range_def PagePtrInfo_new_def showPtrs_def)
  ultimately show ?thesis using e v vmas by auto
qed

end
