(* ===== verification/CommandLine.thy ===== *)
theory CommandLine
  imports KernelReturns ProcessValidator
begin

text \<open>
  \<^verbatim>\<open>src/kernint.cpp\<close>: the options, the checks made before anything is loaded, and the order in
  which the validators run. \<^verbatim>\<open>getopt_long\<close> is the C library's: the options it returns, with
  their arguments, are the list the model starts from.
\<close>

section \<open>Options\<close>

record cl_options =
  vmPath :: string
  hypflag :: int
  cl_loop :: bool
  kerndir :: string
  cl_code :: bool
  kernelValidation :: bool
  cl_pointer :: bool
  listprocs :: bool
  targetsFile :: string
  libraryDir :: string
  rootDir :: string
  cl_pid :: int

definition cl_default :: cl_options where
  "cl_default = \<lparr>vmPath = '''', hypflag = 0, cl_loop = False, kerndir = '''', cl_code = True,
     kernelValidation = False, cl_pointer = True, listprocs = False, targetsFile = '''',
     libraryDir = '''', rootDir = '''', cl_pid = 0\<rparr>"

text \<open>
  \<^verbatim>\<open>strtol\<close> in base ten: the value, whether there was a digit and whether it was out of range.
  The result is a 64-bit value, the identifier a 32-bit variable.
\<close>

definition is_digit10 :: "char \<Rightarrow> bool" where
  "is_digit10 c \<longleftrightarrow> 48 \<le> (of_char c :: nat) \<and> (of_char c :: nat) \<le> 57"

definition dec_value :: "string \<Rightarrow> int" where
  "dec_value s = foldl (\<lambda>v c. 10 * v + (of_char c - 48)) 0 s"

definition strtol10 :: "string \<Rightarrow> int \<times> bool \<times> bool" where
  "strtol10 str =
     (let s = dropWhile is_space str;
          neg = (s \<noteq> [] \<and> hd s = CHR ''-'');
          s' = (if s \<noteq> [] \<and> hd s \<in> {CHR ''-'', CHR ''+''} then tl s else s);
          ds = takeWhile is_digit10 s';
          v = (if neg then - dec_value ds else dec_value ds);
          r = max (- (2 ^ 63)) (min (2 ^ 63 - 1) v) in
      (r, ds \<noteq> [], r \<noteq> v))"

definition to_int32 :: "int \<Rightarrow> int" where
  "to_int32 v = sint (word_of_int v :: 32 word)"

text \<open>\<open>errno0\<close> is \<^verbatim>\<open>errno\<close> before the call, which nothing has reset; a message is
  printed and the program ends with 1.\<close>

definition ERANGE :: int where "ERANGE = 34"

definition parse_pid :: "int \<Rightarrow> string \<Rightarrow> int + int" where
  "parse_pid errno0 optarg =
     (let (r, found, overflow) = strtol10 optarg; errno = (if overflow then ERANGE else errno0); pid = to_int32 r in
      if errno = ERANGE \<or> errno \<noteq> 0 \<and> pid = 0 then Inl 1
      else if \<not> found then Inl 1
      else Inr pid)"

text \<open>
  What \<^verbatim>\<open>getopt_long\<close> returns: a flag it has stored itself, an option with its argument, or
  a character that is no option. \<open>Inl\<close> is the value \<^verbatim>\<open>main\<close> returns.
\<close>

datatype getopt_event =
    HypFlag int
  | Option char string

definition option_step :: "int \<Rightarrow> getopt_event \<Rightarrow> cl_options \<Rightarrow> int + cl_options" where
  "option_step errno0 ev cl =
     (case ev of
        HypFlag f \<Rightarrow> Inr (cl\<lparr>hypflag := f\<rparr>)
      | Option c optarg \<Rightarrow>
          if c = CHR ''h'' then Inl 0
          else if c = CHR ''g'' then Inr (cl\<lparr>vmPath := optarg\<rparr>)
          else if c = CHR ''l'' then Inr (cl\<lparr>cl_loop := True\<rparr>)
          else if c = CHR ''k'' then Inr (cl\<lparr>kerndir := optarg\<rparr>)
          else if c = CHR ''a'' then Inr (cl\<lparr>kernelValidation := True\<rparr>)
          else if c = CHR ''c'' then Inr (cl\<lparr>cl_code := False\<rparr>)
          else if c = CHR ''e'' then Inr (cl\<lparr>cl_pointer := False\<rparr>)
          else if c = CHR ''t'' then Inr (cl\<lparr>targetsFile := optarg\<rparr>)
          else if c = CHR ''p'' then map_sum id (\<lambda>n. cl\<lparr>cl_pid := n\<rparr>) (parse_pid errno0 optarg)
          else if c = CHR ''r'' then Inr (cl\<lparr>rootDir := optarg\<rparr>)
          else if c = CHR ''b'' then Inr (cl\<lparr>libraryDir := optarg\<rparr>)
          else if c = CHR ''x'' then Inr (cl\<lparr>listprocs := True\<rparr>)
          else Inl 1)"

fun parse_options :: "int \<Rightarrow> getopt_event list \<Rightarrow> cl_options \<Rightarrow> int + cl_options" where
  "parse_options errno0 [] cl = Inr cl"
| "parse_options errno0 (ev # evs) cl =
     (case option_step errno0 ev cl of Inl n \<Rightarrow> Inl n | Inr cl' \<Rightarrow> parse_options errno0 evs cl')"

section \<open>Before anything is loaded\<close>

text \<open>\<open>VMI_AUTO\<close> is a constant of the introspection library.\<close>

definition defaults :: "int \<Rightarrow> cl_options \<Rightarrow> cl_options" where
  "defaults VMI_AUTO cl =
     cl\<lparr>hypflag := (if hypflag cl = 0 then VMI_AUTO else hypflag cl),
        vmPath := (if vmPath cl = '''' then ''insight'' else vmPath cl)\<rparr>"

text \<open>Trailing slashes are taken off while there is one; of a string without characters the last one
  is read, too.\<close>

fun drop_slashes :: "string \<Rightarrow> string res" where
  "drop_slashes [] = Inl OutOfBounds"
| "drop_slashes (c # cs) = (if c = CHR ''/'' then drop_slashes cs else Inr (c # cs))"

definition strip_slashes :: "string \<Rightarrow> string res" where
  "strip_slashes dir = mapE rev (drop_slashes (rev dir))"

text \<open>\<open>exists\<close> tells whether a path exists.\<close>

definition main_checks :: "int \<Rightarrow> (string \<Rightarrow> bool) \<Rightarrow> cl_options \<Rightarrow> cl_options res" where
  "main_checks VMI_AUTO exists cl0 =
     (if rootDir cl0 = '''' then Inl (ExitProcess 0)
      else
        let cl = defaults VMI_AUTO cl0 in
        bindE (assertE (kerndir cl \<noteq> '''')) (\<lambda>_.
        if kerndir cl = '''' \<or> \<not> exists (kerndir cl) then Inl (ExitProcess 0) else Inr cl))"

text \<open>After the kernel is loaded the task manager is told where the files of the guest are.\<close>

definition main_paths :: "cl_options \<Rightarrow> TaskManager \<Rightarrow> TaskManager res" where
  "main_paths cl tm =
     bindE (if rootDir cl \<noteq> '''' then mapE (\<lambda>d. setRootDir d tm) (strip_slashes (rootDir cl)) else Inr tm) (\<lambda>tm1.
       Inr (if libraryDir cl \<noteq> '''' then setLibraryDir (libraryDir cl) tm1 else tm1))"

section \<open>The kernel\<close>

text \<open>
  A signal turns the options off while a round runs. They are read before the stacks, at every page
  and behind the last one; where a page reads two of them, a signal in between is as good as one before
  the page, for a page that is not code does not depend on the first. So a signal arrives before the
  stacks or before a page, behind the last one too.
\<close>

definition signalHandler :: "KernelValidator \<Rightarrow> KernelValidator" where
  "signalHandler v = setOptions False False False v"

datatype signal_place = BeforeStacks | BeforePage nat

definition interrupted_round ::
  "symbol_env \<Rightarrow> disasm \<Rightarrow> vm_env \<Rightarrow> signal_place \<Rightarrow> KernelValidator \<Rightarrow> (KernelValidator \<times> report list) res" where
  "interrupted_round env dis vm place v =
     (case place of
        BeforeStacks \<Rightarrow> validate_round env dis vm (signalHandler v)
      | BeforePage j \<Rightarrow>
          bindE (validate_stacks env dis vm (v\<lparr>globalCodePtrs := 0\<rparr>)) (\<lambda>v1.
          bindE (foldE (page_step env dis vm) (take j (vm_pages vm)) (v1, [])) (\<lambda>(v2, out).
            foldE (page_step env dis vm) (drop j (vm_pages vm)) (signalHandler v2, out))))"

text \<open>The rounds when the signal arrives in round \<open>k\<close>.\<close>

definition signalled ::
  "symbol_env \<Rightarrow> disasm \<Rightarrow> (nat \<Rightarrow> vm_env) \<Rightarrow> nat \<Rightarrow> signal_place \<Rightarrow>
   nat \<Rightarrow> KernelValidator \<Rightarrow> (KernelValidator \<times> report list) res" where
  "signalled env dis vms k place n v =
     (if n = k then interrupted_round env dis (vms n) place v else validate_round env dis (vms n) v)"

definition main_kernel ::
  "(string \<Rightarrow> bool) \<Rightarrow> (ElfKernelLoader \<Rightarrow> ElfKernelLoader res) \<Rightarrow> u64 \<times> u64 \<Rightarrow> (string \<Rightarrow> bytes option) \<Rightarrow>
   (nat \<Rightarrow> KernelValidator \<Rightarrow> (KernelValidator \<times> report list) res) \<Rightarrow> cl_options \<Rightarrow> ElfKernelLoader \<Rightarrow>
   (nat \<times> KernelValidator \<times> report list) res option" where
  "main_kernel exists loadAll garbage files round cl kl =
     (if \<not> exists (targetsFile cl) then Some (Inl (ExitProcess 0))
      else (case KernelValidator_new loadAll garbage files kl (targetsFile cl) of
              Inl e \<Rightarrow> Some (Inl e)
            | Inr v \<Rightarrow> validate_loop round 0 (setOptions (cl_loop cl) (cl_code cl) (cl_pointer cl) v) []))"

section \<open>Processes\<close>

definition configEnv :: "(string \<times> string) list" where
  "configEnv = [(''LD_BIND_NOW'', ''nope''), (''LD_LIBRARY_PATH'', ''''), (''LD_PRELOAD'', '''')]"

text \<open>What the environment differs in is printed, the number of errors is not used.\<close>

record user_guest =
  ug_read :: "u64 \<Rightarrow> u64 \<Rightarrow> bytes"
  ug_read_data :: "u64 \<Rightarrow> u64 \<Rightarrow> bytes"
  ug_pages :: "u64 list"
  ug_env :: "(string \<times> string) list"
  ug_symbols :: "(string \<times> u64) list \<Rightarrow> process_symbols"

definition validateUserspace ::
  "user_guest \<Rightarrow> disasm \<Rightarrow> TaskManager \<Rightarrow> Process \<Rightarrow> (nat \<times> process_report list) res" where
  "validateUserspace g dis tm p =
     (let errors = checkEnvironment (ug_env g) configEnv in
      mapE (\<lambda>out. (errors, out))
        (validateProcess (ug_read g) (ug_read_data g) (ug_pages g) dis (ug_symbols g (pr_symbols p)) tm p))"

text \<open>
  A task of the guest: its page tables, environment and mappings. \<open>terminated pid\<close> does not
  return when the task list does not close, which is \<open>None\<close>.
\<close>

record guest_task =
  tk_guest :: user_guest
  tk_gone :: "bool option"
  tk_kernel :: bool
  tk_exe :: "string res"
  tk_vmas :: "VMAInfo list res"

definition check_task ::
  "process_env \<Rightarrow> disasm \<Rightarrow> guest_task \<Rightarrow> int \<Rightarrow> TaskManager \<Rightarrow> (TaskManager \<times> nat \<times> process_report list) res" where
  "check_task env dis t pid tm =
     bindE (tk_exe t) (\<lambda>exe.
     bindE (Process_new env (tk_gone t = Some True) (tk_vmas t) (tk_exe t) exe pid tm) (\<lambda>(p, tm').
       mapE (\<lambda>r. (tm', r)) (validateUserspace (tk_guest t) dis tm' p)))"

definition main_process ::
  "process_env \<Rightarrow> disasm \<Rightarrow> guest_task \<Rightarrow> int \<Rightarrow> TaskManager \<Rightarrow>
   (TaskManager \<times> process_report list) res option" where
  "main_process env dis t pid tm =
     (if pid = 0 then Some (Inr (tm, []))
      else map_option (\<lambda>gone. if gone then Inr (tm, [])
        else mapE (\<lambda>(tm', _, out). (tm', out)) (check_task env dis t pid tm)) (tk_gone t))"

text \<open>
  The list mode. The body ends with \<^verbatim>\<open>continue\<close> behind the validation: the table of
  physical pages, third component of the state, is never filled.
\<close>

type_synonym phys_map = "(u64 \<times> (int \<times> string \<times> VMAInfo) list) list"

definition list_step ::
  "process_env \<Rightarrow> disasm \<Rightarrow> int \<times> guest_task \<Rightarrow> TaskManager \<times> process_report list \<times> phys_map \<Rightarrow>
   (TaskManager \<times> process_report list \<times> phys_map) res" where
  "list_step env dis = (\<lambda>(pid, t) (tm, out, physMap).
     if tk_gone t = None then Inl DoesNotReturn
     else if tk_gone t = Some True then Inr (tm, out, physMap)
     else if tk_kernel t then Inr (tm, out, physMap)
     else mapE (\<lambda>(tm', _, o1). (tm', out @ o1, physMap)) (check_task env dis t pid tm))"

text \<open>One page of physical memory: eight bytes are read at each of its 4096 positions.\<close>

definition scan_position :: "(u64 \<Rightarrow> bool) \<Rightarrow> bytes \<Rightarrow> nat \<Rightarrow> u64 list \<Rightarrow> u64 list res" where
  "scan_position kernelAddress page i found =
     bindE (bread page i 8) (\<lambda>b.
       let v = of_le b in
       if v = 0xffffffffffffffff then Inr found
       else if v AND 0xffff000000000000 \<noteq> 0xffff000000000000 then Inr found
       else if \<not> kernelAddress v then Inr found
       else Inr (found @ [v]))"

definition scan_page :: "(u64 \<Rightarrow> bool) \<Rightarrow> bytes \<Rightarrow> u64 list res" where
  "scan_page kernelAddress page =
     (if page = [] then Inr [] else foldE (scan_position kernelAddress page) [0..<0x1000] [])"

definition main_list ::
  "process_env \<Rightarrow> disasm \<Rightarrow> (u64 \<Rightarrow> bool) \<Rightarrow> (u64 \<Rightarrow> bytes) \<Rightarrow> (int \<times> guest_task) list \<Rightarrow> TaskManager \<Rightarrow>
   (TaskManager \<times> process_report list \<times> u64 list) res" where
  "main_list env dis kernelAddress readPA tasks tm0 =
     bindE (foldE (list_step env dis) tasks (tm0, [], [])) (\<lambda>(tm, out, physMap).
     bindE (foldE (\<lambda>(phys, maps) found. mapE (\<lambda>f. found @ f) (scan_page kernelAddress (readPA phys))) physMap [])
       (\<lambda>found. Inr (tm, out, found)))"

section \<open>What the options mean\<close>

text \<open>The decimal digits of a number.\<close>

fun decimal :: "nat \<Rightarrow> string" where
  "decimal n = (if n < 10 then [char_of (48 + n)] else decimal (n div 10) @ [char_of (48 + n mod 10)])"

declare decimal.simps [simp del]

lemma decimal_digits: "c \<in> set (decimal n) \<Longrightarrow> \<exists>d < 10. c = char_of (48 + d :: nat)"
proof (induction n rule: decimal.induct)
  case (1 n)
  show ?case
  proof (cases "n < 10 \<or> c = char_of (48 + n mod 10)")
    case True
    with 1 show ?thesis by (subst (asm) decimal.simps) (auto split: if_splits intro: exI [of _ "n mod 10"])
  next
    case False
    with 1 show ?thesis by (subst (asm) (2) decimal.simps) (auto split: if_splits)
  qed
qed

lemma decimal_not_empty [simp]: "decimal n \<noteq> []"
  by (subst decimal.simps) simp

lemma digit_facts:
  fixes d :: nat
  assumes "d < 10"
  shows "is_digit10 (char_of (48 + d))" "\<not> is_space (char_of (48 + d))" "(of_char (char_of (48 + d) :: char) :: int) = 48 + int d"
    "char_of (48 + d) \<noteq> CHR ''-''" "char_of (48 + d) \<noteq> CHR ''+''"
proof -
  have n: "of_char (char_of (48 + d) :: char) = 48 + d" using assms by simp
  then show "is_digit10 (char_of (48 + d))" "\<not> is_space (char_of (48 + d))"
    using assms by (simp_all add: is_digit10_def is_space_def)
  show "(of_char (char_of (48 + d) :: char) :: int) = 48 + int d"
  proof -
    have "(of_char (char_of (48 + d) :: char) :: int) = int (of_char (char_of (48 + d) :: char))"
      by (rule of_nat_of_char [symmetric])
    then show ?thesis unfolding n by simp
  qed
  have "char_of (48 + d) \<noteq> x" if "(of_char x :: nat) < 48" for x :: char
    using n that by auto
  then show "char_of (48 + d) \<noteq> CHR ''-''" "char_of (48 + d) \<noteq> CHR ''+''" by simp_all
qed

lemma dec_value_decimal: "dec_value (decimal n) = int n"
proof (induction n rule: decimal.induct)
  case (1 n)
  show ?case
  proof (cases "n < 10")
    case True
    then show ?thesis by (subst decimal.simps) (simp add: dec_value_def digit_facts(3))
  next
    case False
    then have "dec_value (decimal n) = 10 * dec_value (decimal (n div 10)) + int (n mod 10)"
      by (subst decimal.simps) (simp add: dec_value_def digit_facts(3))
    with 1 False have "dec_value (decimal n) = 10 * int (n div 10) + int (n mod 10)" by simp
    also have "\<dots> = int (10 * (n div 10) + n mod 10)" by (simp only: of_nat_add of_nat_mult of_nat_numeral)
    finally show ?thesis by (simp only: mult_div_mod_eq)
  qed
qed

text \<open>A process identifier is read back from its decimal digits modulo \<open>2 ^ 32\<close>: one that does
  not fit the variable names another process and is not refused.\<close>

theorem parse_pid_decimal:
  assumes "n < 2 ^ 63"
  shows "parse_pid 0 (decimal n) = Inr (to_int32 (int n))"
proof -
  obtain c cs where d: "decimal n = c # cs" by (cases "decimal n") auto
  have all: "is_digit10 x" "\<not> is_space x" "x \<noteq> CHR ''-''" "x \<noteq> CHR ''+''" 
    if x: "x \<in> set (decimal n)" for x
  proof -
    obtain e :: nat where "e < 10" "x = char_of (48 + e)" using decimal_digits [OF x] by blast
    then show "is_digit10 x" "\<not> is_space x" "x \<noteq> CHR ''-''" "x \<noteq> CHR ''+''"
      by (simp_all only: digit_facts not_False_eq_True)
  qed
  have c: "\<not> is_space c" "c \<noteq> CHR ''-''" "c \<noteq> CHR ''+''" using all [of c] d by simp_all
  have ds: "takeWhile is_digit10 (decimal n) = decimal n" by (rule takeWhile_eq_all_conv [THEN iffD2]) (use all(1) in blast)
  have "strtol10 (decimal n) = (int n, True, False)"
  proof -
    have "dropWhile is_space (decimal n) = decimal n" using c d by simp
    moreover have "hd (decimal n) \<notin> {CHR ''-'', CHR ''+''}" using c d by simp
    moreover have "max (- (2 ^ 63)) (min (2 ^ 63 - 1) (int n)) = int n" using assms by simp
    ultimately show ?thesis by (simp add: strtol10_def Let_def ds dec_value_decimal)
  qed
  then show ?thesis by (simp add: parse_pid_def ERANGE_def)
qed

theorem parse_pid_decimal_witness: "parse_pid 0 (decimal 4294967297) = Inr 1"
  using parse_pid_decimal [of 4294967297] by (simp add: to_int32_def)

text \<open>The directory is used without the slashes at its end; one of slashes only is read beyond its
  start.\<close>

lemma drop_slashes_iff:
  "drop_slashes s = Inr t \<longleftrightarrow> (\<exists>n. s = replicate n (CHR ''/'') @ t \<and> t \<noteq> [] \<and> hd t \<noteq> CHR ''/'')"
proof (induction s)
  case (Cons c cs)
  show ?case
  proof (cases "c = CHR ''/''")
    case True
    have "(\<exists>n. c # cs = replicate n (CHR ''/'') @ t \<and> t \<noteq> [] \<and> hd t \<noteq> CHR ''/'') \<longleftrightarrow>
        (\<exists>n. cs = replicate n (CHR ''/'') @ t \<and> t \<noteq> [] \<and> hd t \<noteq> CHR ''/'')" (is "?l \<longleftrightarrow> ?r")
    proof
      assume ?l
      then obtain n where n: "c # cs = replicate n (CHR ''/'') @ t" "t \<noteq> []" "hd t \<noteq> CHR ''/''" by blast
      with True obtain m where "n = Suc m" by (cases n) auto
      with n show ?r by auto
    next
      assume ?r
      then obtain n where "cs = replicate n (CHR ''/'') @ t" "t \<noteq> []" "hd t \<noteq> CHR ''/''" by blast
      with True show ?l by (intro exI [of _ "Suc n"]) simp
    qed
    with Cons True show ?thesis by simp
  next
    case False
    then show ?thesis by (auto simp: Cons_eq_append_conv Cons_replicate_eq)
  qed
qed simp

theorem strip_slashes_iff:
  "strip_slashes dir = Inr d \<longleftrightarrow> (\<exists>n. dir = d @ replicate n (CHR ''/'') \<and> d \<noteq> [] \<and> last d \<noteq> CHR ''/'')"
proof -
  have "strip_slashes dir = Inr d \<longleftrightarrow> drop_slashes (rev dir) = Inr (rev d)"
    by (cases "drop_slashes (rev dir)") (auto simp: strip_slashes_def mapE_def)
  also have "\<dots> \<longleftrightarrow> (\<exists>n. rev dir = rev (d @ replicate n (CHR ''/'')) \<and> d \<noteq> [] \<and> last d \<noteq> CHR ''/'')"
    by (auto simp: drop_slashes_iff hd_rev)
  finally show ?thesis by (simp only: rev_is_rev_conv)
qed

section \<open>When the program ends\<close>

text \<open>Once the options are off no page is checked: pages without a loader are still named.\<close>

lemma validatePage_off:
  assumes "validatePage env dis vm page v = Inr (v', out)"
    and "\<not> codeValidation (options v)" and "\<not> pointerExamination (options v)"
  shows "set out \<subseteq> range NoModuleFound"
  using assms by (auto simp: validatePage_def Let_def split: if_splits option.splits)

lemma page_steps_off:
  assumes "foldE (page_step env dis vm) ps (v, out) = Inr (v', out')"
    and "\<not> codeValidation (options v)" and "\<not> pointerExamination (options v)"
  shows "\<exists>rest. out' = out @ rest \<and> set rest \<subseteq> range NoModuleFound"
  using assms
proof (induction ps arbitrary: v out)
  case (Cons page ps)
  from Cons.prems(1) obtain v1 o1 where st: "page_step env dis vm page (v, out) = Inr (v1, o1)"
    and rest: "foldE (page_step env dis vm) ps (v1, o1) = Inr (v', out')" by auto
  have "\<exists>o2. o1 = out @ o2 \<and> set o2 \<subseteq> range NoModuleFound"
    using st validatePage_off [OF _ Cons.prems(2,3)]
    by (auto simp: page_step_def mapE_def split: if_splits)
  moreover have "options v1 = options v"
    using page_steps_options [of env dis vm "[page]" v out v1 o1] st by simp
  with Cons.IH [OF rest] Cons.prems(2,3)
  have "\<exists>r. out' = o1 @ r \<and> set r \<subseteq> range NoModuleFound" by simp
  ultimately show ?case by force
qed simp

lemma signalHandler_options:
  "\<not> loopMode (options (signalHandler v))" "\<not> codeValidation (options (signalHandler v))"
  "\<not> pointerExamination (options (signalHandler v))"
  by (simp_all add: signalHandler_def setOptions_def)

text \<open>C39: A signal stops the checks at once. Of a round in which one arrives before page \<open>j\<close> the reports
  are those of the pages before \<open>j\<close>, and behind them at most the names of pages without a loader; when
  it arrives before the stacks these are all there is.\<close>

theorem interrupted_round_reports:
  assumes "interrupted_round env dis vm place v = Inr (v', out)"
  shows "case place of
      BeforeStacks \<Rightarrow> set out \<subseteq> range NoModuleFound
    | BeforePage j \<Rightarrow> \<exists>v1 v2 out1 rest.
        validate_stacks env dis vm (v\<lparr>globalCodePtrs := 0\<rparr>) = Inr v1 \<and>
        foldE (page_step env dis vm) (take j (vm_pages vm)) (v1, []) = Inr (v2, out1) \<and>
        out = out1 @ rest \<and> set rest \<subseteq> range NoModuleFound"
proof (cases place)
  case BeforeStacks
  let ?v = "(signalHandler v)\<lparr>globalCodePtrs := 0\<rparr>"
  from assms BeforeStacks obtain v1 where "validate_stacks env dis vm ?v = Inr v1"
    and ps: "foldE (page_step env dis vm) (vm_pages vm) (v1, []) = Inr (v', out)"
    by (auto simp: interrupted_round_def validate_round_def)
  then have "options v1 = options (signalHandler v)"
    using validate_stacks_same by (fastforce simp: same_kernel_def)
  with page_steps_off [OF ps] BeforeStacks show ?thesis by (simp add: signalHandler_options)
next
  case (BeforePage j)
  with assms obtain v1 v2 out1 where st: "validate_stacks env dis vm (v\<lparr>globalCodePtrs := 0\<rparr>) = Inr v1"
      "foldE (page_step env dis vm) (take j (vm_pages vm)) (v1, []) = Inr (v2, out1)"
    and ps: "foldE (page_step env dis vm) (drop j (vm_pages vm)) (signalHandler v2, out1) = Inr (v', out)"
    by (auto simp: interrupted_round_def bindE_Inr_iff)
  from page_steps_off [OF ps] st BeforePage show ?thesis by (simp add: signalHandler_options)
qed

lemma interrupted_round_options:
  assumes "interrupted_round env dis vm place v = Inr (v', out)"
  shows "\<not> loopMode (options v')"
proof (cases place)
  case BeforeStacks
  with assms validate_round_options [of env dis vm "signalHandler v" v' out]
  show ?thesis by (simp add: interrupted_round_def signalHandler_options)
next
  case (BeforePage j)
  with assms obtain v2 o2 where
    "foldE (page_step env dis vm) (drop j (vm_pages vm)) (signalHandler v2, o2) = Inr (v', out)"
    by (auto simp: interrupted_round_def bindE_Inr_iff)
  from page_steps_options [OF this] show ?thesis by (simp add: signalHandler_options)
qed

lemma returns_interrupted_round:
  assumes "pointerExamination (options v) \<Longrightarrow> tasks_close vm"
  shows "returns (interrupted_round env dis vm place v)"
  using assms
  by (auto simp: interrupted_round_def returns_validate_round returns_validate_stacks signalHandler_options
      page_step_def intro!: returns_foldE split: signal_place.split)

lemma signalled_loop:
  assumes "pointerExamination (options v) \<Longrightarrow> \<forall>n. tasks_close (vms n)" and "n \<le> k"
  shows "\<exists>r. validate_loop (signalled env dis vms k place) n v out = Some r \<and> returns r \<and>
    (case r of Inl e \<Rightarrow> True
     | Inr (iterations, v', out') \<Rightarrow>
         iterations = (if loopMode (options v) then Suc k else Suc n))"
  using assms
proof (induction "k - n" arbitrary: n v out)
  case 0
  then have n: "n = k" by simp
  have ret: "returns (interrupted_round env dis (vms k) place v)"
    by (rule returns_interrupted_round) (use 0 in blast)
  show ?case
  proof (cases "interrupted_round env dis (vms k) place v")
    case (Inl e)
    with ret n show ?thesis by (subst validate_loop.simps) (simp add: signalled_def)
  next
    case (Inr r)
    obtain v' o' where r: "r = (v', o')" by (cases r)
    with Inr interrupted_round_options have "\<not> loopMode (options v')" by blast
    with Inr r n show ?thesis by (subst validate_loop.simps) (simp add: signalled_def)
  qed
next
  case (Suc m)
  have "n \<noteq> k" using Suc.hyps(2) by arith
  then have sg: "signalled env dis vms k place n v = validate_round env dis (vms n) v"
    by (simp add: signalled_def)
  have ret: "returns (validate_round env dis (vms n) v)"
    using Suc.prems(1) by (simp add: returns_validate_round)
  show ?case
  proof (cases "validate_round env dis (vms n) v")
    case (Inl e)
    with ret sg show ?thesis by (subst validate_loop.simps) simp
  next
    case (Inr r)
    obtain v' o' where r: "r = (v', o')" by (cases r)
    with Inr have opts: "options v' = options v" using validate_round_options by blast
    show ?thesis
    proof (cases "loopMode (options v)")
      case True
      have "\<exists>r. validate_loop (signalled env dis vms k place) (Suc n) v' (out @ o') = Some r \<and> returns r \<and>
        (case r of Inl e \<Rightarrow> True
         | Inr (iterations, u, out') \<Rightarrow> iterations = (if loopMode (options v') then Suc k else Suc (Suc n)))"
        using Suc.hyps(2) Suc.prems opts by (intro Suc.hyps(1)) auto
      moreover have "validate_loop (signalled env dis vms k place) n v out
          = validate_loop (signalled env dis vms k place) (Suc n) v' (out @ o')"
        using True sg Inr r opts by (subst validate_loop.simps) simp
      ultimately show ?thesis using True opts by (auto split: sum.splits)
    next
      case False
      with sg Inr r opts show ?thesis by (subst validate_loop.simps) simp
    qed
  qed
qed

lemma target_loop_returns: "target_loop (target_start g (Some bs)) \<noteq> None"
proof -
  obtain ts rest where "bs = encode_targets ts @ rest" "length rest < 16"
    using targets_parse [of bs] by blast
  with target_loop_records [of rest ts "fst g" "snd g" "[]"] show ?thesis
    by (simp add: target_start_def open_stream_def in_stream_def)
qed

text \<open>C37: A signal ends the kernel's validation, wherever in round \<open>k\<close> it arrives and whatever the options
  are: given that the modules load, the file of targets can be read if it exists, and the guest's task list
  leads back to its head in every round in which the stacks are looked at, the program returns from the
  validation, with an error or after exactly the round of the signal in loop mode, one round otherwise.\<close>

theorem main_kernel_signalled:
  assumes "returns (loadAll kl)"
    and "exists (targetsFile cl) \<Longrightarrow> files (targetsFile cl) \<noteq> None"
    and "cl_pointer cl \<Longrightarrow> \<forall>n. tasks_close (vms n)"
  shows "\<exists>r. main_kernel exists loadAll garbage files (signalled env dis vms k place) cl kl = Some r \<and>
    r \<noteq> Inl DoesNotReturn \<and>
    (case r of Inl e \<Rightarrow> True
     | Inr (iterations, v, out) \<Rightarrow> iterations = (if cl_loop cl then Suc k else 1))"
proof (cases "exists (targetsFile cl)")
  case True
  with assms(2) obtain bs where bs: "files (targetsFile cl) = Some bs" by auto
  show ?thesis
  proof (cases "KernelValidator_new loadAll garbage files kl (targetsFile cl)")
    case (Inl e)
    have "returns (load_targets garbage files (targetsFile cl))"
      using bs target_loop_returns [of garbage bs] by (auto simp: load_targets_def split: option.split)
    with assms(1) have "returns (KernelValidator_new loadAll garbage files kl (targetsFile cl))"
      by (simp add: KernelValidator_new_def)
    with Inl True show ?thesis by (simp add: main_kernel_def)
  next
    case (Inr v)
    let ?v = "setOptions (cl_loop cl) (cl_code cl) (cl_pointer cl) v"
    have "\<exists>r. validate_loop (signalled env dis vms k place) 0 ?v [] = Some r \<and> returns r \<and>
      (case r of Inl e \<Rightarrow> True
       | Inr (iterations, v', out') \<Rightarrow> iterations = (if loopMode (options ?v) then Suc k else Suc 0))"
      using assms(3) by (intro signalled_loop) (simp_all add: setOptions_def)
    with Inr True show ?thesis
      by (auto simp: main_kernel_def returns_def setOptions_def split: sum.splits)
  qed
qed (simp add: main_kernel_def)

text \<open>Three rounds in loop mode, the third ended by a signal before its only page.\<close>

definition ex_loop_options :: cl_options where
  "ex_loop_options = cl_default\<lparr>cl_loop := True, kernelValidation := True, cl_pointer := False,
     targetsFile := ''t''\<rparr>"

lemma ex_loop_round:
  "validate_round ex_symbols ex_call ex_vm (setOptions True True False ex_validator)
    = Inr (setOptions True True False ex_validator, [CodeVerdict CodeIntact])"
  using ex_round_found ex_round_verdict
  by (simp add: validate_round_def validate_stacks_def setOptions_def ex_vm_def page_step_def
      validatePage_def ex_validator_def page_content_def mapE_def)

lemma ex_loop_interrupted:
  "\<exists>v. interrupted_round ex_symbols ex_call ex_vm (BeforePage 0) (setOptions True True False ex_validator)
     = Inr (v, []) \<and> \<not> loopMode (options v)"
proof -
  have "found_isDataAddress (kernel_found ex_kernel) (vaddr ex_page) = Inr False" by code_simp
  with ex_round_found show ?thesis
    by (simp add: interrupted_round_def validate_stacks_def setOptions_def ex_vm_def page_step_def
        validatePage_def ex_validator_def mapE_def signalHandler_def)
qed

lemma ex_loop_run:
  "\<exists>n v. main_kernel (\<lambda>_. True) Inr (0, 0) (\<lambda>_. Some []) (signalled ex_symbols ex_call (\<lambda>_. ex_vm) 2 (BeforePage 0))
     ex_loop_options ex_kernel = Some (Inr (n, v, [CodeVerdict CodeIntact, CodeVerdict CodeIntact]))"
proof -
  let ?v = "setOptions True True False ex_validator"
  let ?round = "signalled ex_symbols ex_call (\<lambda>_. ex_vm) 2 (BeforePage 0)"
  have new: "KernelValidator_new Inr (0, 0) (\<lambda>_. Some []) ex_kernel ''t'' = Inr (setOptions False True True ex_validator)"
    using target_loop_records [of "[]" "[]" 0 0 "[]"]
    by (simp add: KernelValidator_new_def load_targets_def target_start_def open_stream_def in_stream_def
        encode_targets_def last_record_def setOptions_def ex_validator_def)
  have l: "loopMode (options ?v)" by (simp add: setOptions_def)
  obtain u where u: "interrupted_round ex_symbols ex_call ex_vm (BeforePage 0) ?v = Inr (u, [])"
    "\<not> loopMode (options u)" using ex_loop_interrupted by blast
  have "validate_loop ?round (Suc (Suc 0)) ?v [CodeVerdict CodeIntact, CodeVerdict CodeIntact]
      = Some (Inr (3, u, [CodeVerdict CodeIntact, CodeVerdict CodeIntact]))"
    using u by (subst validate_loop.simps) (simp add: signalled_def)
  then have "validate_loop ?round 1 ?v [CodeVerdict CodeIntact]
      = Some (Inr (3, u, [CodeVerdict CodeIntact, CodeVerdict CodeIntact]))"
    using ex_loop_round l by (subst validate_loop.simps) (simp add: signalled_def)
  then have "validate_loop ?round 0 ?v [] = Some (Inr (3, u, [CodeVerdict CodeIntact, CodeVerdict CodeIntact]))"
    using ex_loop_round l by (subst validate_loop.simps) (simp add: signalled_def)
  with new show ?thesis
    by (simp add: main_kernel_def ex_loop_options_def cl_default_def) (simp add: setOptions_def)
qed

theorem main_kernel_signalled_witness:
  "\<exists>v. main_kernel (\<lambda>_. True) Inr (0, 0) (\<lambda>_. Some [])
      (signalled ex_symbols ex_call (\<lambda>_. ex_vm) 2 (BeforePage 0)) ex_loop_options ex_kernel
    = Some (Inr (3, v, [CodeVerdict CodeIntact, CodeVerdict CodeIntact]))"
proof -
  have c: "cl_loop ex_loop_options" "\<not> cl_pointer ex_loop_options"
    by (simp_all add: ex_loop_options_def cl_default_def)
  from ex_loop_run obtain n v where run: "main_kernel (\<lambda>_. True) Inr (0, 0) (\<lambda>_. Some [])
      (signalled ex_symbols ex_call (\<lambda>_. ex_vm) 2 (BeforePage 0)) ex_loop_options ex_kernel
    = Some (Inr (n, v, [CodeVerdict CodeIntact, CodeVerdict CodeIntact]))" by blast
  have "n = 3"
    using main_kernel_signalled [of Inr ex_kernel "\<lambda>_. True" ex_loop_options "\<lambda>_. Some []" "\<lambda>_. ex_vm" "(0, 0)"
        ex_symbols ex_call 2 "BeforePage 0"] run c by simp
  with run show ?thesis by blast
qed

text \<open>A signal before the second of three pages, the last of which no loader knows.\<close>

definition ex_three_pages :: vm_env where
  "ex_three_pages = ex_vm\<lparr>vm_pages := [ex_page, ex_page, \<lparr>vaddr = 0, pg_size = 16\<rparr>]\<rparr>"

lemma ex_three_pages_run:
  "\<exists>v. interrupted_round ex_symbols ex_call ex_three_pages (BeforePage 1) (setOptions True True False ex_validator)
     = Inr (v, [CodeVerdict CodeIntact, NoModuleFound 0])"
proof -
  have "found_isDataAddress (kernel_found ex_kernel) (vaddr ex_page) = Inr False"
    "\<not> ElfLoader_isCodeAddress ex_kernel 0" "ElfKernelLoader_isDataAddress ex_kernel 0 = Inr False"
    "\<not> is_c9_page \<lparr>vaddr = 0, pg_size = 16\<rparr>" "\<not> is_identity_page \<lparr>vaddr = 0, pg_size = 16\<rparr>"
    by code_simp+
  moreover have "moduleMap ex_kernel = []"
    by (simp add: ex_kernel_def ElfKernelspaceLoader.extend_def ElfKernelLoader.fields_def)
  with \<open>\<not> ElfLoader_isCodeAddress ex_kernel 0\<close> \<open>ElfKernelLoader_isDataAddress ex_kernel 0 = Inr False\<close>
  have "getModuleForAddress ex_kernel 0 = Inr None" by (simp add: getModuleForAddress_def mapE_def)
  ultimately show ?thesis using ex_round_found ex_round_verdict
    by (simp add: interrupted_round_def validate_stacks_def setOptions_def ex_three_pages_def ex_vm_def page_step_def
        validatePage_def ex_validator_def mapE_def signalHandler_def page_content_def)
qed

theorem interrupted_round_reports_witness:
  "\<exists>out1 rest. [CodeVerdict CodeIntact, NoModuleFound 0] = out1 @ rest \<and>
     CodeVerdict CodeIntact \<in> set out1 \<and> set rest \<subseteq> range NoModuleFound"
proof -
  from ex_three_pages_run obtain v where
    "interrupted_round ex_symbols ex_call ex_three_pages (BeforePage 1) (setOptions True True False ex_validator)
      = Inr (v, [CodeVerdict CodeIntact, NoModuleFound 0])" by blast
  from interrupted_round_reports [OF this] obtain out1 rest where
    r: "[CodeVerdict CodeIntact, NoModuleFound 0] = out1 @ rest" "set rest \<subseteq> range NoModuleFound"
    by auto
  then have "CodeVerdict CodeIntact \<in> set out1" by (cases out1) auto
  with r show ?thesis by blast
qed

section \<open>The list mode\<close>

text \<open>No page of physical memory is ever read: the result does not depend on the memory or on what
  counts as an address of the kernel.\<close>

lemma list_step_phys:
  "list_step env dis pt s = Inr s' \<Longrightarrow> snd (snd s') = snd (snd s)"
  by (auto simp: list_step_def mapE_def split: if_splits prod.splits)

theorem main_list_reads_no_memory:
  "main_list env dis kernelAddress readPA tasks tm = main_list env dis kernelAddress' readPA' tasks tm"
proof (cases "foldE (list_step env dis) tasks (tm, [], [])")
  case (Inr s)
  have "snd (snd s) = []"
    using foldE_invariant [OF Inr, of "\<lambda>s. snd (snd s) = []"] list_step_phys by fastforce
  with Inr show ?thesis by (cases s) (simp add: main_list_def)
qed (simp add: main_list_def)

text \<open>It could not be: the last seven positions of a page reach beyond it.\<close>

theorem scan_page_overruns:
  assumes "length page = 4096"
  shows "scan_page kernelAddress page = Inl OutOfBounds"
proof -
  have fail: "foldE (scan_position kernelAddress page) [m..<0x1000] found = Inl OutOfBounds"
    if "4089 - m = n" "m \<le> 4089" for m n found
    using that
  proof (induction n arbitrary: m found)
    case 0
    then have "[m..<0x1000] = 4089 # [4090..<0x1000]" by (simp add: upt_conv_Cons)
    then show ?case using assms by (simp add: scan_position_def bread_def)
  next
    case (Suc n)
    then have m: "[m..<0x1000] = m # [Suc m..<0x1000]" by (simp add: upt_conv_Cons)
    have "m \<le> 4088" using Suc.prems by simp
    with assms have "\<exists>f. scan_position kernelAddress page m found = Inr f"
      by (simp add: scan_position_def bread_def Let_def)
    then obtain f where "scan_position kernelAddress page m found = Inr f" ..
    with m Suc show ?case by simp
  qed
  from assms have "page \<noteq> []" by auto
  with fail [of 0 4089 "[]"] show ?thesis by (simp add: scan_page_def)
qed

theorem scan_page_overruns_witness: "scan_page (\<lambda>_. True) (replicate 4096 0) = Inl OutOfBounds"
  by (rule scan_page_overruns) simp

end
