(* ===== verification/SystemMap.thy ===== *)
theory SystemMap
  imports Helpers
begin

text \<open>
  \<^verbatim>\<open>Kernel::parseSystemMap\<close> of \<^verbatim>\<open>src/kernel.cpp\<close>: the lines of the
  kernel's symbol file and what is passed on to the symbol store for each. The stream operators of the
  standard library are written out: white space is skipped, a hexadecimal number is read with its sign
  and prefix, and after a failure nothing further is stored.
\<close>

section \<open>Reading a line\<close>

definition hex_body :: "string \<Rightarrow> string" where
  "hex_body s = (if take 2 s = ''0x'' \<or> take 2 s = ''0X'' then drop 2 s else s)"

text \<open>
  \<^verbatim>\<open>iss >> std::hex >> address\<close> at the first character of a number: the value stored and,
  unless the extraction failed, the rest of the line. A value too large is stored as the maximum.
\<close>

definition read_hex :: "string \<Rightarrow> u64 \<times> string option" where
  "read_hex s =
     (let neg = (s \<noteq> [] \<and> hd s = CHR ''-'');
          s1 = hex_body (if s \<noteq> [] \<and> (hd s = CHR ''-'' \<or> hd s = CHR ''+'') then tl s else s);
          digits = takeWhile (\<lambda>c. hex_digit c \<noteq> None) s1;
          rest = dropWhile (\<lambda>c. hex_digit c \<noteq> None) s1;
          v = hex_value 0 digits in
      if digits = [] then (0, None)
      else if 2 ^ 64 \<le> v then (- 1, None)
      else ((if neg then - of_nat v else of_nat v), Some rest))"

definition is_upper :: "char \<Rightarrow> bool" where
  "is_upper c \<longleftrightarrow> (65 :: nat) \<le> of_char c \<and> of_char c \<le> (90 :: nat)"

text \<open>
  Name, address and the flag \<^verbatim>\<open>not isupper(mode)\<close>. An empty line leaves
  \<^verbatim>\<open>address\<close> as it is, which is not initialised: \<open>garbage\<close>.
\<close>

definition parse_sysmap_line :: "u64 \<Rightarrow> string \<Rightarrow> string \<times> u64 \<times> bool" where
  "parse_sysmap_line garbage line =
     (let s = dropWhile is_space line in
      if s = [] then ([], garbage, True)
      else case read_hex s of
          (address, None) \<Rightarrow> ([], address, True)
        | (address, Some r) \<Rightarrow>
            (case dropWhile is_space r of
               [] \<Rightarrow> ([], address, True)
             | mode # r' \<Rightarrow>
                 (takeWhile (\<lambda>c. \<not> is_space c) (dropWhile is_space r'), address, \<not> is_upper mode)))"

text \<open>The lines \<^verbatim>\<open>getline\<close> gives while the stream is good: behind a final newline an
  empty one.\<close>

fun split_lines :: "string \<Rightarrow> string list" where
  "split_lines [] = [[]]"
| "split_lines (c # cs) =
     (if c = CHR 0x0A then [] # split_lines cs
      else case split_lines cs of l # ls \<Rightarrow> (c # l) # ls | [] \<Rightarrow> [[c]])"

text \<open>The calls of \<^verbatim>\<open>addSysmapSymbol\<close>, none when the file cannot be opened.\<close>

definition parseSystemMap :: "u64 \<Rightarrow> (string \<Rightarrow> string option) \<Rightarrow> string \<Rightarrow> (string \<times> u64 \<times> bool) list" where
  "parseSystemMap garbage files kernelDirName =
     (case files (kernelDirName @ ''/System.map'') of
        None \<Rightarrow> []
      | Some content \<Rightarrow> map (parse_sysmap_line garbage) (split_lines content))"

section \<open>The file the kernel build writes\<close>

record sysmap_entry =
  sme_address :: u64
  sme_mode :: char
  sme_name :: string

definition hex_char :: "nat \<Rightarrow> char" where
  "hex_char d = char_of (if d < 10 then 48 + d else 87 + d)"

fun hex_digits :: "nat \<Rightarrow> nat \<Rightarrow> string" where
  "hex_digits 0 n = []"
| "hex_digits (Suc k) n = hex_digits k (n div 16) @ [hex_char (n mod 16)]"

definition sysmap_line :: "sysmap_entry \<Rightarrow> string" where
  "sysmap_line e = hex_digits 16 (unat (sme_address e)) @ '' '' @ [sme_mode e] @ '' '' @ sme_name e"

definition sysmap_file :: "sysmap_entry list \<Rightarrow> string" where
  "sysmap_file es = concat (map (\<lambda>e. sysmap_line e @ [CHR 0x0A]) es)"

definition entry_ok :: "sysmap_entry \<Rightarrow> bool" where
  "entry_ok e \<longleftrightarrow> \<not> is_space (sme_mode e) \<and> (\<forall>c \<in> set (sme_name e). \<not> is_space c)"

lemma hex_digit_char: "d < 16 \<Longrightarrow> hex_digit (hex_char d) = Some d"
  by (auto simp: hex_digit_def hex_char_def Let_def)

lemma hex_char_no_space: "d < 16 \<Longrightarrow> \<not> is_space (hex_char d)"
  by (auto simp: is_space_def hex_char_def)

lemma hex_value_append:
  "(\<forall>c \<in> set a. hex_digit c \<noteq> None) \<Longrightarrow> hex_value acc (a @ b) = hex_value (hex_value acc a) b"
  by (induction a arbitrary: acc) (auto split: option.splits)

lemma hex_digits_all: "c \<in> set (hex_digits k n) \<Longrightarrow> \<exists>d < 16. c = hex_char d"
proof (induction k arbitrary: n)
  case (Suc k)
  then consider "c \<in> set (hex_digits k (n div 16))" | "c = hex_char (n mod 16)" by auto
  then show ?case
  proof cases
    case 2
    then show ?thesis by (intro exI [of _ "n mod 16"]) simp
  qed (rule Suc.IH)
qed simp

lemma hex_digits_digit: "\<forall>c \<in> set (hex_digits k n). hex_digit c \<noteq> None"
  using hex_digits_all hex_digit_char by (metis option.distinct(1))

lemma length_hex_digits [simp]: "length (hex_digits k n) = k"
  by (induction k arbitrary: n) auto

lemma hex_value_digits: "hex_value 0 (hex_digits k n) = n mod 16 ^ k"
proof (induction k arbitrary: n)
  case (Suc k)
  have "hex_value 0 (hex_digits (Suc k) n) = 16 * (n div 16 mod 16 ^ k) + n mod 16"
    using Suc.IH [of "n div 16"]
    by (simp add: hex_value_append [OF hex_digits_digit] hex_digit_char)
  also have "\<dots> = n mod 16 ^ Suc k" by (simp add: mod_mult2_eq)
  finally show ?case .
qed simp

lemma read_hex_digits:
  assumes "rest = [] \<or> hex_digit (hd rest) = None"
  shows "read_hex (hex_digits 16 (unat a) @ rest) = (a, Some rest)"
proof -
  let ?h = "hex_digits 16 (unat a)"
  obtain c d r where h: "?h = c # d # r"
  proof (cases ?h)
    case Nil
    then have "length ?h = 0" by simp
    then show ?thesis by simp
  next
    case (Cons c h1)
    show ?thesis
    proof (cases h1)
      case Nil
      with Cons have "length ?h = 1" by simp
      then show ?thesis by simp
    next
      case (Cons d r)
      with \<open>?h = c # h1\<close> that show ?thesis by simp
    qed
  qed
  have dig: "hex_digit c \<noteq> None" "hex_digit d \<noteq> None"
    using hex_digits_digit [of 16 "unat a"] by (auto simp: h)
  have "hex_digit (CHR ''-'') = None" "hex_digit (CHR ''+'') = None" "hex_digit (CHR ''x'') = None"
    "hex_digit (CHR ''X'') = None" by code_simp+
  with dig have pre: "c \<noteq> CHR ''-''" "c \<noteq> CHR ''+''" "d \<noteq> CHR ''x''" "d \<noteq> CHR ''X''" by auto
  have tw: "takeWhile (\<lambda>c. hex_digit c \<noteq> None) (?h @ rest) = ?h"
    "dropWhile (\<lambda>c. hex_digit c \<noteq> None) (?h @ rest) = rest"
    using hex_digits_digit [of 16 "unat a"] assms by (cases rest; simp add: takeWhile_append dropWhile_append)+
  have "unat a < 2 ^ 64" using unsigned_less [of a] by simp
  then have v: "hex_value 0 ?h = unat a" by (simp add: hex_value_digits)
  have body: "hex_body (?h @ rest) = ?h @ rest" using pre by (simp add: hex_body_def h)
  have hd: "hd (?h @ rest) = c" "?h @ rest \<noteq> []" by (simp_all add: h)
  show ?thesis
    unfolding read_hex_def Let_def
    using hd pre body tw v \<open>unat a < 2 ^ 64\<close> by (simp add: h del: takeWhile.simps dropWhile.simps)
qed

text \<open>Splitting a file whose lines contain no newline.\<close>

lemma split_lines_line:
  "CHR 0x0A \<notin> set l \<Longrightarrow> split_lines (l @ CHR 0x0A # r) = l # split_lines r"
  by (induction l) auto

lemma split_lines_file:
  "(\<forall>l \<in> set ls. CHR 0x0A \<notin> set l) \<Longrightarrow> split_lines (concat (map (\<lambda>l. l @ [CHR 0x0A]) ls)) = ls @ [[]]"
  by (induction ls) (auto simp: split_lines_line)

lemma takeWhile_all: "\<forall>c \<in> set s. P c \<Longrightarrow> takeWhile P s = s"
  by (induction s) auto

lemma parse_sysmap_line_entry:
  assumes "entry_ok e"
  shows "parse_sysmap_line g (sysmap_line e) = (sme_name e, sme_address e, \<not> is_upper (sme_mode e))"
proof -
  let ?h = "hex_digits 16 (unat (sme_address e))"
  let ?r = "'' '' @ [sme_mode e] @ '' '' @ sme_name e"
  have sp: "is_space (CHR '' '')" "hex_digit (CHR '' '') = None" by code_simp+
  have "set ?h \<noteq> {}" using length_hex_digits [of 16 "unat (sme_address e)"] by fastforce
  then obtain c h where h: "?h = c # h" by (cases ?h) auto
  then have "c \<in> set ?h" by simp
  then have c: "\<not> is_space c" using hex_digits_all hex_char_no_space by metis
  then have dw: "dropWhile is_space (?h @ ?r) = ?h @ ?r" by (simp add: h)
  have rd: "read_hex (?h @ ?r) = (sme_address e, Some ?r)" using sp by (intro read_hex_digits) simp
  have m: "dropWhile is_space ?r = sme_mode e # '' '' @ sme_name e"
    using assms sp by (simp add: entry_ok_def)
  have nm: "takeWhile (\<lambda>c. \<not> is_space c) (dropWhile is_space ('' '' @ sme_name e)) = sme_name e"
    using assms sp by (cases "sme_name e") (auto simp: entry_ok_def intro!: takeWhile_all)
  have "?h @ ?r \<noteq> []" by (simp add: h)
  then show ?thesis
    unfolding parse_sysmap_line_def sysmap_line_def Let_def dw rd m using nm sp assms by (simp add: entry_ok_def)
qed

lemma sysmap_line_no_newline: "entry_ok e \<Longrightarrow> CHR 0x0A \<notin> set (sysmap_line e)"
proof
  assume ok: "entry_ok e" and "CHR 0x0A \<in> set (sysmap_line e)"
  then consider "CHR 0x0A \<in> set (hex_digits 16 (unat (sme_address e)))" | "CHR 0x0A = sme_mode e"
    | "CHR 0x0A \<in> set (sme_name e)" by (auto simp: sysmap_line_def)
  moreover have nl: "is_space (CHR 0x0A)" "hex_digit (CHR 0x0A) = None" by code_simp+
  ultimately show False
    using ok hex_digits_digit [of 16 "unat (sme_address e)"] by cases (auto simp: entry_ok_def)
qed

text \<open>C23: Reading back a symbol file gives every entry with its name, its address and whether the symbol
  is local, and behind the last line one more symbol with an empty name and an address that was never
  set, because the loop does not check that a line was read.\<close>

theorem parseSystemMap_roundtrip:
  assumes "\<forall>e \<in> set es. entry_ok e"
  shows "parseSystemMap g (\<lambda>_. Some (sysmap_file es)) dir
    = map (\<lambda>e. (sme_name e, sme_address e, \<not> is_upper (sme_mode e))) es @ [([], g, True)]"
proof -
  have "split_lines (sysmap_file es) = map sysmap_line es @ [[]]"
    using split_lines_file [of "map sysmap_line es"] assms sysmap_line_no_newline
    by (auto simp: sysmap_file_def comp_def)
  moreover have "parse_sysmap_line g [] = ([], g, True)" by (simp add: parse_sysmap_line_def)
  ultimately show ?thesis
    using assms by (simp add: parseSystemMap_def parse_sysmap_line_entry)
qed

theorem parseSystemMap_roundtrip_witness:
  "parseSystemMap 7 (\<lambda>_. Some (sysmap_file [\<lparr>sme_address = 0xffffffff81000000, sme_mode = CHR ''T'', sme_name = ''_text''\<rparr>])) ''d''
    = [(''_text'', 0xffffffff81000000, False), ([], 7, True)]"
proof -
  have "entry_ok \<lparr>sme_address = 0xffffffff81000000, sme_mode = CHR ''T'', sme_name = ''_text''\<rparr>" by code_simp
  moreover have "is_upper (CHR ''T'')" by code_simp
  ultimately show ?thesis by (subst parseSystemMap_roundtrip) simp_all
qed

end
