(* ===== verification/MainProgram.thy ===== *)
theory MainProgram
  imports CommandLine SystemMap
begin

text \<open>
  \<^verbatim>\<open>KernelValidator::loadKernel\<close> of \<^verbatim>\<open>src/kernelvalidator.cpp\<close>, which builds the image
  of the kernel, and \<^verbatim>\<open>main\<close> of \<^verbatim>\<open>src/kernint.cpp\<close> as a whole: the
  definitions of the other theories in the order in which the program runs them.
\<close>

section \<open>Loading the kernel\<close>

text \<open>
  The constructors. The four addresses that are not initialised are \<open>garbage\<close>, the state of the
  paravirtual operations before it is read is \<open>pv0\<close>.
\<close>

definition ElfKernelLoader_new :: "u64 \<Rightarrow> ParavirtState \<Rightarrow> ElfFile64 \<Rightarrow> ElfKernelLoader" where
  "ElfKernelLoader_new garbage pv0 f =
     \<lparr>elffile = f, textSegment = SectionInfo_default, dataSection = SectionInfo_default,
      bssSection = SectionInfo_default, roDataSection = SectionInfo_default, jumpTable = [], roData = [],
      textSegmentContent = [], dataSegmentContent = [], jumpEntries = [], jumpDestinations = {}, smpOffsets = {},
      vvarSegment = SectionInfo_default, dataNosaveSegment = SectionInfo_default, fentryAddress = 0,
      genericUnrolledAddress = 0, idt_tableAddress = garbage, nmi_idt_tableAddress = garbage,
      sinittextAddress = garbage, irq_entries_startAddress = garbage, paravirt = pv0, moduleMap = []\<rparr>"

definition parseKernel :: "u64 \<Rightarrow> ParavirtState \<Rightarrow> pv_symbols \<Rightarrow> ElfFile64 \<Rightarrow> ElfKernelLoader res" where
  "parseKernel garbage pv0 syms f =
     mapE (\<lambda>pv. (ElfKernelLoader_new garbage pv0 f)\<lparr>paravirt := pv\<rparr>) (updateState syms pv0)"

text \<open>
  The files of the host as bytes (\<^verbatim>\<open>vmlinux\<close>) and as text (\<^verbatim>\<open>System.map\<close>); the
  addresses of the system map reach \<^verbatim>\<open>initText\<close> through its environment.
\<close>

record kernel_host =
  kh_content :: "string \<Rightarrow> bytes option"
  kh_base :: "string \<Rightarrow> u64"
  kh_text :: "string \<Rightarrow> string option"
  kh_garbage :: u64
  kh_targets :: "u64 \<times> u64"
  kh_pv0 :: ParavirtState
  kh_symbols :: pv_symbols
  kh_env :: "(string \<times> u64 \<times> bool) list \<Rightarrow> kernel_env"

definition loadKernel :: "kernel_host \<Rightarrow> string \<Rightarrow> ElfKernelLoader res" where
  "loadKernel h dirName =
     (let kernelName = dirName @ ''/vmlinux'' in
      bindE (loadElfFile (kh_content h kernelName) (kh_base h kernelName)) (\<lambda>kernelFile. case kernelFile of
          None \<Rightarrow> Inl NullDeref
        | Some f \<Rightarrow>
            bindE (parseKernel (kh_garbage h) (kh_pv0 h) (kh_symbols h) f) (\<lambda>kl.
            let env = kh_env h (parseSystemMap (kh_garbage h) (kh_text h) dirName) in
            initImage (\<lambda>l. mapE fst (ElfKernelLoader_initText env l)) (ElfKernelLoader_initData env) kl)))"

section \<open>The program\<close>

text \<open>
  What \<^verbatim>\<open>main\<close> depends on: the host, the library constants, the guest with its tasks, and in
  which round of the kernel's validation and at which place of it a signal arrives, if any.
\<close>

record main_env =
  me_errno :: int
  me_auto :: int
  me_exists :: "string \<Rightarrow> bool"
  me_host :: kernel_host
  me_loadAll :: "ElfKernelLoader \<Rightarrow> ElfKernelLoader res"
  me_symbols :: symbol_env
  me_dis :: disasm
  me_vms :: "nat \<Rightarrow> vm_env"
  me_signal :: "(nat \<times> signal_place) option"
  me_tm :: TaskManager
  me_process :: process_env
  me_task :: "int \<Rightarrow> guest_task"
  me_tasks :: "(int \<times> guest_task) list"
  me_readPA :: "u64 \<Rightarrow> bytes"

text \<open>Sequencing of computations that may not return.\<close>

definition bindO :: "'a res option \<Rightarrow> ('a \<Rightarrow> 'b res option) \<Rightarrow> 'b res option" where
  "bindO m f = (case m of None \<Rightarrow> None | Some (Inl e) \<Rightarrow> Some (Inl e) | Some (Inr x) \<Rightarrow> f x)"

lemma bindO_simps [simp]:
  "bindO None f = None" "bindO (Some (Inl e)) f = Some (Inl e)" "bindO (Some (Inr x)) f = f x"
  by (simp_all add: bindO_def)

definition kernel_rounds ::
  "main_env \<Rightarrow> nat \<Rightarrow> KernelValidator \<Rightarrow> (KernelValidator \<times> report list) res" where
  "kernel_rounds env =
     (case me_signal env of
        None \<Rightarrow> (\<lambda>n. validate_round (me_symbols env) (me_dis env) (me_vms env n))
      | Some (k, place) \<Rightarrow> signalled (me_symbols env) (me_dis env) (me_vms env) k place)"

definition run_kernel :: "main_env \<Rightarrow> cl_options \<Rightarrow> ElfKernelLoader \<Rightarrow> report list res option" where
  "run_kernel env cl kl =
     (if kernelValidation cl
      then map_option (mapE (\<lambda>(iterations, v, out). out))
        (main_kernel (me_exists env) (me_loadAll env) (kh_targets (me_host env)) (kh_content (me_host env))
          (kernel_rounds env) cl kl)
      else Some (Inr []))"

definition run_list :: "main_env \<Rightarrow> cl_options \<Rightarrow> ElfKernelLoader \<Rightarrow> TaskManager \<Rightarrow> process_report list res" where
  "run_list env cl kl tm =
     (if listprocs cl
      then mapE (\<lambda>(tm', out, found). out)
        (main_list (me_process env) (me_dis env)
          (\<lambda>a. ElfLoader_isCodeAddress kl a \<or> ElfKernelLoader_isDataAddress kl a = Inr True) (me_readPA env)
          (me_tasks env) tm)
      else Inr [])"

text \<open>The value \<^verbatim>\<open>main\<close> returns, the reports on the kernel and those on processes.\<close>

definition main_program ::
  "main_env \<Rightarrow> getopt_event list \<Rightarrow> (int \<times> report list \<times> process_report list) res option" where
  "main_program env argv =
     (case parse_options (me_errno env) argv cl_default of
        Inl n \<Rightarrow> Some (Inr (n, [], []))
      | Inr cl0 \<Rightarrow>
          bindO (Some (main_checks (me_auto env) (me_exists env) cl0)) (\<lambda>cl.
          bindO (Some (loadKernel (me_host env) (kerndir cl))) (\<lambda>kl.
          bindO (Some (main_paths cl (me_tm env))) (\<lambda>tm.
          bindO (run_kernel env cl kl) (\<lambda>kernel_out.
          bindO (main_process (me_process env) (me_dis env) (me_task env (cl_pid cl)) (cl_pid cl) tm) (\<lambda>(tm', out).
          Some (mapE (\<lambda>out'. (0, kernel_out, out @ out')) (run_list env cl kl tm'))))))))"

section \<open>An example\<close>

text \<open>A host with a kernel directory but without a kernel, and a guest whose tasks are all gone.\<close>

definition ex_main :: main_env where
  "ex_main = \<lparr>me_errno = 0, me_auto = 1, me_exists = (\<lambda>p. p = ''/k''),
     me_host = \<lparr>kh_content = (\<lambda>_. None), kh_base = (\<lambda>_. 0x10000), kh_text = (\<lambda>_. None), kh_garbage = 0, kh_targets = (0, 0),
       kh_pv0 = ex_pv_state,
       kh_symbols = \<lparr>vs_value = (\<lambda>_. None), vs_address = (\<lambda>_. None), vs_ops = (\<lambda>_. None), vs_func = (\<lambda>_. None),
         vs_template = None\<rparr>,
       kh_env = (\<lambda>_. \<lparr>ke_sysmap = (\<lambda>_. 0), ke_symbol = (\<lambda>_. 0), ke_caps = None, ke_native = (\<lambda>_. []),
         ke_guest_entry = (\<lambda>_. \<lparr>je_code = 0, je_target = 0, je_key = 0\<rparr>), ke_guest_enabled = (\<lambda>_. 0), ke_insnbuf = []\<rparr>)\<rparr>,
     me_loadAll = Inr, me_symbols = ex_symbols, me_dis = ex_call, me_vms = (\<lambda>_. ex_vm), me_signal = Some (3, BeforeStacks),
     me_tm = ex_task_manager,
     me_process = \<lparr>pe_files = ex_files False, pe_fuel = 5, pe_vdso = None, pe_vdso_base = 0, pe_order = id,
       pe_debug = (\<lambda>_. None), pe_lookup = (\<lambda>_ _. 0), pe_kernel = (\<lambda>_. 0)\<rparr>,
     me_task = (\<lambda>_. \<lparr>tk_guest = \<lparr>ug_read = (\<lambda>_ _. []), ug_read_data = (\<lambda>_ _. []), ug_pages = [], ug_env = [],
         ug_symbols = (\<lambda>_. \<lparr>ps_name = (\<lambda>_. ''''), ps_containing = id\<rparr>)\<rparr>,
       tk_gone = Some True, tk_kernel = False, tk_exe = Inr ''/bin/b'', tk_vmas = Inr []\<rparr>),
     me_tasks = [], me_readPA = (\<lambda>_. [])\<rparr>"

definition ex_arguments :: "getopt_event list" where
  "ex_arguments = [Option CHR ''r'' ''/vm/'', Option CHR ''k'' ''/k'', Option CHR ''a'' '''', Option CHR ''l'' '''']"

section \<open>How it ends\<close>

text \<open>The value returned does not tell what was found: after the options are read it is 0 in every
  run that comes to the end.\<close>

theorem main_program_exit_code:
  assumes "main_program env argv = Some (Inr (code, kernel_out, out))"
  shows "case parse_options (me_errno env) argv cl_default of Inl n \<Rightarrow> code = n | Inr cl \<Rightarrow> code = 0"
  using assms
  by (auto simp: main_program_def bindO_def mapE_def split: sum.splits option.splits)

text \<open>When the kernel is to be validated and the file of targets does not exist, no run comes to a
  report, be it on the kernel or on a process; the file has no default.\<close>

theorem kernel_validation_needs_targets:
  assumes "parse_options (me_errno env) argv cl_default = Inr cl" and "kernelValidation cl"
    and "\<not> me_exists env (targetsFile cl)"
  shows "case main_program env argv of Some (Inl e) \<Rightarrow> True | _ \<Rightarrow> False"
proof -
  have d: "kernelValidation (defaults n c) = kernelValidation c" "targetsFile (defaults n c) = targetsFile c" for n c
    by (simp_all add: defaults_def)
  have "kernelValidation c = kernelValidation cl \<and> targetsFile c = targetsFile cl"
    if "main_checks (me_auto env) (me_exists env) cl = Inr c" for c
    using that by (auto simp: main_checks_def Let_def d split: if_splits)
  with assms show ?thesis
    by (auto simp: main_program_def bindO_def run_kernel_def main_kernel_def mapE_def split: sum.split)
qed

theorem kernel_validation_needs_targets_witness:
  "case main_program ex_main ex_arguments of Some (Inl e) \<Rightarrow> True | _ \<Rightarrow> False"
proof (rule kernel_validation_needs_targets)
  let ?cl = "cl_default\<lparr>rootDir := ''/vm/'', kerndir := ''/k'', kernelValidation := True, cl_loop := True\<rparr>"
  show "parse_options (me_errno ex_main) ex_arguments cl_default = Inr ?cl"
    by (simp add: ex_arguments_def option_step_def)
  show "kernelValidation ?cl" "\<not> me_exists ex_main (targetsFile ?cl)"
    by (simp_all add: ex_main_def cl_default_def)
qed

end
