(* ===== verification/HostFiles.thy ===== *)
theory HostFiles
  imports KernelModules ElfSymbols SystemMap
begin

text \<open>
  The search for files of \<^verbatim>\<open>src/helpers.cpp\<close> with its use in \<^verbatim>\<open>src/kernel.cpp\<close> and
  \<^verbatim>\<open>src/elffile.cpp\<close>. A directory of the
  host is the list of its entries in the order of the directory iterator; matching a name against a regular
  expression is a parameter. Errors of the file system while iterating are left out.
\<close>

section \<open>Searching a directory\<close>

datatype host_node =
    HFile string
  | HDir string "host_node list"

text \<open>\<^verbatim>\<open>path::stem\<close> and \<^verbatim>\<open>path::extension\<close> of a file name: the extension starts with
  the last dot.\<close>

definition has_extension :: "string \<Rightarrow> bool" where
  "has_extension nm \<longleftrightarrow> CHR ''.'' \<in> set nm \<and> nm \<noteq> ''.'' \<and> nm \<noteq> ''..''"

definition path_stem :: "string \<Rightarrow> string" where
  "path_stem nm = (if has_extension nm then rev (drop 1 (dropWhile (\<lambda>c. c \<noteq> CHR ''.'') (rev nm))) else nm)"

definition path_extension :: "string \<Rightarrow> string" where
  "path_extension nm = (if has_extension nm then CHR ''.'' # rev (takeWhile (\<lambda>c. c \<noteq> CHR ''.'') (rev nm)) else '''')"

definition file_matches :: "(string \<Rightarrow> string \<Rightarrow> bool) \<Rightarrow> string \<Rightarrow> string \<Rightarrow> string \<Rightarrow> bool" where
  "file_matches regex_match fileName extension nm \<longleftrightarrow>
     extension = path_extension nm \<and> regex_match fileName (path_stem nm)"

text \<open>The recursive iteration: only at level 0 a directory with an excluded name is not entered.\<close>

fun search_nodes :: "(string \<Rightarrow> bool) \<Rightarrow> string list \<Rightarrow> string \<Rightarrow> host_node list \<Rightarrow> string option" where
  "search_nodes ok exclude path [] = None"
| "search_nodes ok exclude path (HFile nm # r) =
     (if ok nm then Some (path @ ''/'' @ nm) else search_nodes ok exclude path r)"
| "search_nodes ok exclude path (HDir nm content # r) =
     (case (if nm \<in> set exclude then None else search_nodes ok [] (path @ ''/'' @ nm) content) of
        Some p \<Rightarrow> Some p
      | None \<Rightarrow> search_nodes ok exclude path r)"

definition findFileInDir ::
  "(string \<Rightarrow> string \<Rightarrow> bool) \<Rightarrow> (string \<Rightarrow> host_node list) \<Rightarrow> string \<Rightarrow> string \<Rightarrow> string \<Rightarrow> string list \<Rightarrow> string" where
  "findFileInDir regex_match tree dirName fileName extension exclude =
     (case search_nodes (file_matches regex_match fileName extension) exclude dirName (tree dirName) of
        None \<Rightarrow> ''''
      | Some p \<Rightarrow> p)"

section \<open>The file of a build id\<close>

text \<open>
  The file with the debug information of a build id, the bytes of the note behind its header of 16.
  A note too short for the header gives a string of negative length, one without an identifier a
  substring out of range.
\<close>

definition debug_path :: "bytes \<Rightarrow> string" where
  "debug_path ident =
     (let buildID = hexStr ident in
      ''/home/kittel/guest'' @ ''/usr/lib/debug/.build-id/'' @ take 2 buildID @ ''/'' @ drop 2 buildID @ ''.debug'')"

definition loadDebugVersion ::
  "(string \<Rightarrow> bytes option) \<Rightarrow> (string \<Rightarrow> u64) \<Rightarrow> ElfFile64 \<Rightarrow> ElfFile64 option res" where
  "loadDebugVersion content base f =
     (case section_names f ''.note.gnu.build-id'' of
        None \<Rightarrow> Inr None
      | Some i \<Rightarrow>
          let s = sections f ! i in
          if unat (si_size s) < 16 then Inl LengthError
          else bindE (hread (mem f) (si_index s + 16) (unat (si_size s) - 16)) (\<lambda>ident.
            if ident = [] then Inl OutOfBounds
            else loadElfFile (content (debug_path ident)) (base (debug_path ident))))"

section \<open>What a search finds\<close>

text \<open>The files of a directory with their paths, in the order in which they are met; excluded
  directories are left out at the top.\<close>

fun files_of :: "string list \<Rightarrow> string \<Rightarrow> host_node list \<Rightarrow> (string \<times> string) list" where
  "files_of exclude path [] = []"
| "files_of exclude path (HFile nm # r) = (path @ ''/'' @ nm, nm) # files_of exclude path r"
| "files_of exclude path (HDir nm content # r) =
     (if nm \<in> set exclude then [] else files_of [] (path @ ''/'' @ nm) content) @ files_of exclude path r"

lemma search_nodes_find:
  "search_nodes ok exclude path ns = map_option fst (List.find (\<lambda>(p, nm). ok nm) (files_of exclude path ns))"
  by (induction ok exclude path ns rule: search_nodes.induct)
    (auto simp: find_append split: option.split)

text \<open>The names that belong to one module: dashes and underscores are the same, and so is the bar the
  pattern contains by mistake.\<close>

definition same_module :: "string \<Rightarrow> string \<Rightarrow> bool" where
  "same_module nm t \<longleftrightarrow>
     list_all2 (\<lambda>c d. if c = CHR ''_'' \<or> c = CHR ''-'' then d \<in> set ''_|-'' else d = c) nm t"

text \<open>C38: The regular expressions the program builds mean what they say. Then the file of a module is the
  first one met outside the top directory \<^verbatim>\<open>debian\<close> whose extension is
  \<^verbatim>\<open>.ko\<close> and whose name is that of the module, up to dashes and underscores; if there is none,
  the empty string is returned.\<close>

theorem findModuleFile_first:
  assumes "\<And>t. regex_match (concat (map (\<lambda>c. if c = CHR ''_'' \<or> c = CHR ''-'' then ''[_|-]'' else [c]) nm)) t
     \<longleftrightarrow> same_module nm t"
  shows "findModuleFile (findFileInDir regex_match tree) dir nm =
     (case List.find (\<lambda>(p, file). path_extension file = ''.ko'' \<and> same_module nm (path_stem file))
         (files_of [''debian''] dir (tree dir)) of
        None \<Rightarrow> ''''
      | Some (p, file) \<Rightarrow> p)"
proof -
  have "(\<lambda>(p, file). file_matches regex_match (concat (map (\<lambda>c. if c = CHR ''_'' \<or> c = CHR ''-'' then ''[_|-]'' else [c]) nm)) ''.ko'' file)
      = (\<lambda>(p :: string, file). path_extension file = ''.ko'' \<and> same_module nm (path_stem file))"
    by (auto simp: file_matches_def assms fun_eq_iff)
  then show ?thesis
    by (simp add: module_pattern_spec findFileInDir_def search_nodes_find split: option.split)
qed

section \<open>Debug files\<close>

lemma hex_char_inj: "a < 16 \<Longrightarrow> b < 16 \<Longrightarrow> hex_char a = hex_char b \<Longrightarrow> a = b"
  using hex_digit_char by (metis option.inject)

lemma nibble_lo: "unat (x AND 0x0F) < 16" for x :: u8
  using word_and_le1 [of x "0x0F"] by (simp add: word_le_nat_alt)

lemma nibble_hi: "unat (drop_bit 4 (x AND 0xF0)) < 16" for x :: u8
proof -
  have "drop_bit 4 (x AND 0xF0) = drop_bit 4 x AND 0x0F" by (simp add: drop_bit_and)
  then show ?thesis using nibble_lo by simp
qed

lemma hexmap_nth: "a < 16 \<Longrightarrow> hexmap ! a = hex_char a"
proof -
  assume "a < 16"
  have u: "[0..<16] = [0, 1, 2, 3, 4, 5, 6, 7, 8, 9, 10, 11, 12, 13, 14, 15]" by (simp add: upt_rec)
  have h: "hexmap = map hex_char [0..<16]" unfolding u by code_simp
  show ?thesis unfolding h using \<open>a < 16\<close> by (simp only: nth_map_upt diff_zero add_0)
qed

lemma hexStr_Cons:
  "hexStr (b # bs) = hex_char (unat (drop_bit 4 (b AND 0xF0))) # hex_char (unat (b AND 0x0F)) # hexStr bs"
  by (simp add: hexStr_def hexmap_nth nibble_lo nibble_hi)

lemma nibbles:
  fixes b c :: u8
  assumes "hex_char (unat (drop_bit 4 (b AND 0xF0))) = hex_char (unat (drop_bit 4 (c AND 0xF0)))"
    and "hex_char (unat (b AND 0x0F)) = hex_char (unat (c AND 0x0F))"
  shows "b = c"
proof -
  have h: "drop_bit 4 (b AND 0xF0) = drop_bit 4 (c AND 0xF0)" and l: "b AND 0x0F = c AND 0x0F"
    using hex_char_inj [OF nibble_hi nibble_hi assms(1)] hex_char_inj [OF nibble_lo nibble_lo assms(2)]
    by (simp_all add: word_unat_eq_iff)
  have d: "x = push_bit 4 (drop_bit 4 (x AND 0xF0)) OR (x AND 0x0F)" for x :: u8
  proof (rule bit_word_eqI)
    fix n assume n: "n < LENGTH(8)"
    have "n \<in> {0, 1, 2, 3, 4, 5, 6, 7}" using n by auto
    then show "bit x n = bit (push_bit 4 (drop_bit 4 (x AND 0xF0)) OR (x AND 0x0F)) n"
      by (auto simp: bit_simps)
  qed
  have "b = push_bit 4 (drop_bit 4 (b AND 0xF0)) OR (b AND 0x0F)" by (rule d)
  also have "\<dots> = push_bit 4 (drop_bit 4 (c AND 0xF0)) OR (c AND 0x0F)" by (simp only: h l)
  also have "\<dots> = c" by (rule d [symmetric])
  finally show ?thesis .
qed

lemma hexStr_inj: "hexStr a = hexStr b \<Longrightarrow> a = b"
proof (induction a arbitrary: b)
  case Nil
  then show ?case by (cases b) (auto simp: hexStr_Cons hexStr_def)
next
  case (Cons x a)
  then obtain y c where b: "b = y # c" by (cases b) (auto simp: hexStr_Cons hexStr_def)
  with Cons show ?case by (auto simp: hexStr_Cons intro: nibbles)
qed

text \<open>Different build ids lead to different debug files.\<close>

theorem debug_path_inj: "debug_path a = debug_path b \<longleftrightarrow> a = b"
proof
  assume "debug_path a = debug_path b"
  then have "take 2 (hexStr a) @ ''/'' @ drop 2 (hexStr a) = take 2 (hexStr b) @ ''/'' @ drop 2 (hexStr b)"
    by (simp add: debug_path_def Let_def)
  moreover have "hexStr [] = []" by (simp add: hexStr_def)
  ultimately have "hexStr a = hexStr b" by (cases a; cases b) (simp_all add: hexStr_Cons)
  then show "a = b" by (rule hexStr_inj)
qed simp

section \<open>An example\<close>

text \<open>A matcher for patterns of characters and classes of them, and a directory in which the first
  candidate is excluded and the second has another extension.\<close>

function class_match :: "string \<Rightarrow> string \<Rightarrow> bool" where
  "class_match [] t = (t = [])"
| "class_match (c # p) t =
     (if c = CHR ''[''
      then t \<noteq> [] \<and> hd t \<in> set (takeWhile (\<lambda>x. x \<noteq> CHR '']'') p) \<and>
        class_match (drop 1 (dropWhile (\<lambda>x. x \<noteq> CHR '']'') p)) (tl t)
      else t \<noteq> [] \<and> hd t = c \<and> class_match p (tl t))"
  by pat_completeness auto
termination
  by (relation "measure (\<lambda>(p, t). length p)")
    (auto simp: less_Suc_eq_le intro: le_trans [OF diff_le_self length_dropWhile_le])

definition ex_tree :: "string \<Rightarrow> host_node list" where
  "ex_tree d = [HDir ''debian'' [HFile ''a-b.ko''], HDir ''drivers'' [HFile ''a_b.o'', HFile ''a_b.ko'']]"

theorem findModuleFile_first_witness:
  "findModuleFile (findFileInDir class_match ex_tree) ''/m'' ''a-b'' = ''/m/drivers/a_b.ko''"
proof -
  have pat: "concat (map (\<lambda>c. if c = CHR ''_'' \<or> c = CHR ''-'' then ''[_|-]'' else [c]) ''a-b'') = ''a[_|-]b''"
    by simp
  have "class_match ''a[_|-]b'' t \<longleftrightarrow> same_module ''a-b'' t" for t
    by (cases t; cases "tl t"; cases "tl (tl t)") (auto simp: same_module_def)
  then have m: "class_match (concat (map (\<lambda>c. if c = CHR ''_'' \<or> c = CHR ''-'' then ''[_|-]'' else [c]) ''a-b'')) t
      \<longleftrightarrow> same_module ''a-b'' t" for t unfolding pat .
  show ?thesis unfolding findModuleFile_first [of class_match "''a-b''", OF m] by code_simp
qed

end
