(* ===== verification/ErrorTrace.thy ===== *)
theory ErrorTrace
  imports Helpers
begin

text \<open>
  \<^verbatim>\<open>src/error.h\<close> and \<^verbatim>\<open>src/error.cpp\<close>: exceptions with the stack they
  were created on and the exception that was handled then. The running stack is a parameter, as the
  C library's \<^verbatim>\<open>backtrace\<close> returns it: program counters, the innermost first. So are the
  names of functions and the printed form of a pointer.
\<close>

section \<open>Stack traces\<close>

text \<open>\<^verbatim>\<open>backtrace\<close> fills the buffer from the running stack and returns the number of entries.\<close>

definition backtrace_call :: "u64 list \<Rightarrow> nat \<Rightarrow> nat \<times> u64 list" where
  "backtrace_call stack sz = (min sz (length stack), take sz stack @ replicate (sz - length stack) 0)"

text \<open>The buffer is doubled until it is not filled completely: \<open>32 * 2 ^ k\<close> entries.\<close>

function analyze_loop :: "u64 list \<Rightarrow> nat \<Rightarrow> u64 list" where
  "analyze_loop stack k =
     (let sz = 32 * 2 ^ k; (elements, buffer) = backtrace_call stack sz in
      if elements < sz then take elements buffer else analyze_loop stack (Suc k))"
  by pat_completeness auto
termination
proof (relation "measure (\<lambda>(stack, k). length stack + 1 - 32 * 2 ^ k)")
  fix stack :: "u64 list" and k sz elements buffer and x :: "nat \<times> u64 list"
  assume "sz = 32 * 2 ^ k" "x = backtrace_call stack sz" "(elements, buffer) = x" "\<not> elements < sz"
  then have "32 * 2 ^ k \<le> length stack" by (simp add: backtrace_call_def)
  moreover have "(0 :: nat) < 2 ^ k" by simp
  ultimately show "((stack, Suc k), stack, k) \<in> measure (\<lambda>(stack, k). length stack + 1 - 32 * 2 ^ k)"
    by (auto intro!: diff_less_mono2)
qed simp

declare analyze_loop.simps [simp del]

definition analyze :: "u64 list \<Rightarrow> u64 list \<Rightarrow> u64 list" where
  "analyze stack stack_addrs = stack_addrs @ analyze_loop stack 0"

record backtrace_symbol =
  functionname :: string
  bs_pc :: u64

text \<open>The calls of the callback, in order.\<close>

definition get_symbols :: "(u64 \<Rightarrow> string) \<Rightarrow> u64 list \<Rightarrow> bool \<Rightarrow> backtrace_symbol list" where
  "get_symbols symbol_name stack_addrs reversed =
     map (\<lambda>pc. \<lparr>functionname = symbol_name pc, bs_pc = pc\<rparr>) (if reversed then rev stack_addrs else stack_addrs)"

text \<open>The loop compares the ends of both traces; here both lists are the traces from the end.\<close>

fun trim_loop :: "u64 list \<Rightarrow> u64 list \<Rightarrow> u64 list" where
  "trim_loop (x # xs) (y # ys) = (if x \<noteq> y then x # xs else trim_loop xs ys)"
| "trim_loop xs ys = xs"

definition trim_to_current_stack_frame :: "u64 list \<Rightarrow> u64 list \<Rightarrow> u64 list" where
  "trim_to_current_stack_frame stack stack_addrs =
     rev (trim_loop (rev stack_addrs) (rev (analyze stack [])))"

section \<open>Errors\<close>

text \<open>
  What can be in flight: an \<^verbatim>\<open>Error\<close> or a class derived from it, another
  \<^verbatim>\<open>std::exception\<close>, or a value of any other type.
\<close>

datatype exn =
    KernintError (type_name: string) (get_msg: string) (get_backtrace: "u64 list option") (exn_cause: "exn option")
  | StdException (type_name: string) string
  | OtherValue

definition trim_backtrace :: "u64 list \<Rightarrow> exn \<Rightarrow> exn" where
  "trim_backtrace stack e =
     (case e of
        KernintError ty msg bt cause \<Rightarrow> KernintError ty msg (map_option (trim_to_current_stack_frame stack) bt) cause
      | _ \<Rightarrow> e)"

definition store_cause :: "u64 list \<Rightarrow> exn option \<Rightarrow> exn option" where
  "store_cause stack handled =
     (case handled of
        None \<Rightarrow> None
      | Some (KernintError ty msg bt cause) \<Rightarrow> Some (trim_backtrace stack (KernintError ty msg bt cause))
      | Some e \<Rightarrow> Some e)"

text \<open>The constructor; \<open>handled\<close> is the exception being handled.\<close>

definition Error_new :: "u64 list \<Rightarrow> exn option \<Rightarrow> string \<Rightarrow> string \<Rightarrow> bool \<Rightarrow> bool \<Rightarrow> exn" where
  "Error_new stack handled ty msg generate_backtrace store =
     KernintError ty msg (if generate_backtrace then Some (analyze stack []) else None)
       (if store then store_cause stack handled else None)"

definition InternalError_new :: "u64 list \<Rightarrow> exn option \<Rightarrow> string \<Rightarrow> exn" where
  "InternalError_new stack handled msg = Error_new stack handled ''kernint::InternalError'' msg True True"

section \<open>Output\<close>

definition endl :: string where
  "endl = [CHR 0x0A]"

definition show_symbol :: "(u64 \<Rightarrow> string) \<Rightarrow> backtrace_symbol \<Rightarrow> string" where
  "show_symbol fmt s =
     '' -> '' @ (if functionname s = '''' then ''?'' else functionname s) @
     (if bs_pc s \<noteq> 0 then '' ['' @ fmt (bs_pc s) @ '']'' else '''')"

definition show_backtrace :: "(u64 \<Rightarrow> string) \<Rightarrow> (u64 \<Rightarrow> string) \<Rightarrow> u64 list \<Rightarrow> string" where
  "show_backtrace symbol_name fmt bt =
     ''Traceback (most recent call last):'' @ endl @
     concat (map (\<lambda>s. show_symbol fmt s @ endl) (get_symbols symbol_name bt True))"

definition cause_line :: string where
  "cause_line =
     endl @ ''The above exception was the direct cause of the following exception:'' @ endl @ endl"

definition show_self :: "(u64 \<Rightarrow> string) \<Rightarrow> (u64 \<Rightarrow> string) \<Rightarrow> string \<Rightarrow> string \<Rightarrow> u64 list option \<Rightarrow> string" where
  "show_self symbol_name fmt ty msg bt =
     (case bt of Some b \<Rightarrow> show_backtrace symbol_name fmt b | None \<Rightarrow> ''origin:'' @ endl) @ ty @ '':'' @ endl @ msg"

text \<open>
  \<^verbatim>\<open>operator<<\<close>: a cause that is no \<^verbatim>\<open>std::exception\<close> is not caught and leaves
  it, which is \<open>None\<close>.
\<close>

fun show_exn :: "(u64 \<Rightarrow> string) \<Rightarrow> (u64 \<Rightarrow> string) \<Rightarrow> exn \<Rightarrow> string option" where
  "show_exn symbol_name fmt (KernintError ty msg bt None) = Some (show_self symbol_name fmt ty msg bt)"
| "show_exn symbol_name fmt (KernintError ty msg bt (Some cause)) =
     map_option (\<lambda>c. c @ endl @ cause_line @ show_self symbol_name fmt ty msg bt) (show_exn symbol_name fmt cause)"
| "show_exn symbol_name fmt (StdException ty what) = Some (ty @ '': '' @ what)"
| "show_exn symbol_name fmt OtherValue = None"

section \<open>What the traces hold\<close>

text \<open>The whole stack is captured, whatever its depth.\<close>

lemma analyze_loop_stack: "analyze_loop stack k = stack"
proof (induction stack k rule: analyze_loop.induct)
  case (1 stack k)
  then show ?case by (subst analyze_loop.simps) (auto simp: backtrace_call_def Let_def)
qed

lemma analyze_appends [simp]: "analyze stack addrs = addrs @ stack"
  by (simp add: analyze_def analyze_loop_stack)

lemma trim_loop_common:
  "\<exists>c ys'. xs = c @ trim_loop xs ys \<and> ys = c @ ys' \<and>
     (trim_loop xs ys = [] \<or> ys' = [] \<or> hd (trim_loop xs ys) \<noteq> hd ys')"
proof (induction xs ys rule: trim_loop.induct)
  case (1 x xs y ys)
  show ?case
  proof (cases "x = y")
    case True
    with 1 obtain c ys' where c: "xs = c @ trim_loop xs ys" "ys = c @ ys'"
      "trim_loop xs ys = [] \<or> ys' = [] \<or> hd (trim_loop xs ys) \<noteq> hd ys'" by blast
    then have "x # xs = (x # c) @ trim_loop xs ys" "y # ys = (x # c) @ ys'" using True by simp_all
    with c(3) True show ?thesis by (metis trim_loop.simps(1))
  qed (auto intro!: exI [of _ "[]"])
qed simp_all

text \<open>A trace is cut to the frames above those it shares with the running stack, the largest number
  of frames both have at their outer end; cutting twice is cutting once.\<close>

theorem trim_longest_common:
  "\<exists>common rest. stack_addrs = trim_to_current_stack_frame stack stack_addrs @ common \<and> stack = rest @ common \<and>
     (trim_to_current_stack_frame stack stack_addrs = [] \<or> rest = [] \<or>
      last (trim_to_current_stack_frame stack stack_addrs) \<noteq> last rest)"
proof -
  let ?t = "trim_loop (rev stack_addrs) (rev stack)"
  from trim_loop_common [of "rev stack_addrs" "rev stack"] obtain c ys' where
    c: "rev stack_addrs = c @ ?t" "rev stack = c @ ys'" "?t = [] \<or> ys' = [] \<or> hd ?t \<noteq> hd ys'" by blast
  have "stack_addrs = rev ?t @ rev c" using c(1) by (metis rev_append rev_rev_ident)
  moreover have "stack = rev ys' @ rev c" using c(2) by (metis rev_append rev_rev_ident)
  moreover have "rev ?t = [] \<or> rev ys' = [] \<or> last (rev ?t) \<noteq> last (rev ys')"
    using c(3) by (auto simp: last_rev)
  ultimately show ?thesis unfolding trim_to_current_stack_frame_def analyze_appends append_Nil by blast
qed

text \<open>The causes of an error, the first one first.\<close>

fun cause_chain :: "exn \<Rightarrow> exn list" where
  "cause_chain (KernintError ty msg bt (Some cause)) = cause_chain cause @ [KernintError ty msg bt (Some cause)]"
| "cause_chain e = [e]"

text \<open>An error can be printed exactly if the exception at the root of its causes is a
  \<^verbatim>\<open>std::exception\<close>.\<close>

theorem show_exn_iff: "show_exn symbol_name fmt e \<noteq> None \<longleftrightarrow> hd (cause_chain e) \<noteq> OtherValue"
proof (induction symbol_name fmt e rule: show_exn.induct)
  case (2 symbol_name fmt ty msg bt cause)
  have "cause_chain cause \<noteq> []" by (induction cause rule: cause_chain.induct) auto
  with 2 show ?case by simp
qed simp_all

lemma trim_loop_shared:
  "xs = [] \<or> ys = [] \<or> hd xs \<noteq> hd ys \<Longrightarrow> trim_loop (c @ xs) (c @ ys) = xs"
  by (induction c) (cases xs; cases ys; simp)+

text \<open>While an error is handled another one is created: the frames both have in common stay in the trace
  of the new error only, the trace of the cause keeps those between the handler and the throw.\<close>

theorem Error_new_cause_trimmed:
  assumes "thrown \<noteq> []" and "handler \<noteq> []" and "last thrown \<noteq> last handler"
  shows "Error_new (handler @ common) (Some (KernintError ty msg (Some (thrown @ common)) cause)) ty' msg' True True =
     KernintError ty' msg' (Some (handler @ common)) (Some (KernintError ty msg (Some thrown) cause))"
  using assms trim_loop_shared [of "rev thrown" "rev handler" "rev common"]
  by (simp add: Error_new_def store_cause_def trim_backtrace_def trim_to_current_stack_frame_def hd_rev)

theorem Error_new_cause_trimmed_witness:
  "exn_cause (Error_new [5, 1] (Some (KernintError ''Error'' ''a'' (Some [9, 4, 1]) None)) ''Error'' ''b'' True True) =
     Some (KernintError ''Error'' ''a'' (Some [9, 4]) None)"
  using Error_new_cause_trimmed [of "[9, 4]" "[5]" "[1]"] by simp

end
