(* ===== verification/Output.thy ===== *)
theory Output
  imports MainProgram HostFiles ErrorTrace
begin

text \<open>
  What the program writes to \<^verbatim>\<open>std::cout\<close>: \<^verbatim>\<open>printHexDump\<close> and
  \<^verbatim>\<open>displayChange\<close> of \<^verbatim>\<open>src/helpers.cpp\<close>, the \<^verbatim>\<open>print\<close> methods of sections and
  mappings, the symbol listing of \<^verbatim>\<open>src/elffile.cpp\<close> and the tables of
  \<^verbatim>\<open>src/processvalidator.cpp\<close>. The stream is state that all of them share: its base, its fill
  character and the width of the next field.
\<close>

section \<open>The output stream\<close>

record ostream =
  os_text :: string
  os_hex :: bool
  os_fill :: char
  os_width :: nat

function show_hex :: "nat \<Rightarrow> string" where
  "show_hex n = (if n < 16 then [hex_char n] else show_hex (n div 16) @ [hex_char (n mod 16)])"
  by pat_completeness auto
termination by (relation "measure id") auto

declare show_hex.simps [simp del]

text \<open>A formatted insertion is padded on the left to the width, which it resets.\<close>

definition put_str :: "string \<Rightarrow> ostream \<Rightarrow> ostream" where
  "put_str s os = os\<lparr>os_text := os_text os @ replicate (os_width os - length s) (os_fill os) @ s, os_width := 0\<rparr>"

definition put_nat :: "nat \<Rightarrow> ostream \<Rightarrow> ostream" where
  "put_nat n os = put_str (if os_hex os then show_hex n else decimal n) os"

definition put_endl :: "ostream \<Rightarrow> ostream" where
  "put_endl os = os\<lparr>os_text := os_text os @ endl\<rparr>"

definition set_hex :: "ostream \<Rightarrow> ostream" where "set_hex os = os\<lparr>os_hex := True\<rparr>"
definition set_dec :: "ostream \<Rightarrow> ostream" where "set_dec os = os\<lparr>os_hex := False\<rparr>"
definition setfill :: "char \<Rightarrow> ostream \<Rightarrow> ostream" where "setfill c os = os\<lparr>os_fill := c\<rparr>"
definition setw :: "nat \<Rightarrow> ostream \<Rightarrow> ostream" where "setw n os = os\<lparr>os_width := n\<rparr>"

text \<open>A chain of insertions, the first one first.\<close>

definition writes :: "(ostream \<Rightarrow> ostream) list \<Rightarrow> ostream \<Rightarrow> ostream" where
  "writes fs os = fold (\<lambda>f. f) fs os"

lemma writes_simps [simp]:
  "writes [] os = os" "writes (f # fs) os = writes fs (f os)"
  by (simp_all add: writes_def)

lemma writes_append [simp]: "writes (a @ b) os = writes b (writes a os)"
  by (simp add: writes_def)

lemmas stream_defs = put_str_def put_nat_def put_endl_def set_hex_def set_dec_def setfill_def setw_def

section \<open>The hex dump\<close>

definition dump_code :: "u8 list \<Rightarrow> nat \<Rightarrow> nat \<Rightarrow> ostream \<Rightarrow> ostream" where
  "dump_code buf nread i =
     writes [if i mod 2 = 0 then put_str '' '' else id,
       if i < nread then writes [setw 2, put_nat (unat ((scast (buf ! i) :: u32) AND 0xff))] else put_str ''>>'']"

text \<open>\<^verbatim>\<open>char\<close> is signed: a byte with the top bit set is negative.\<close>

definition dump_char :: "u8 \<Rightarrow> char" where
  "dump_char b = (if sint b < 32 \<or> 126 < sint b then CHR ''.'' else char_of (unat b))"

definition dump_line :: "u8 list \<Rightarrow> nat \<Rightarrow> nat \<Rightarrow> ostream \<Rightarrow> ostream" where
  "dump_line buf nread address =
     writes ([setw 8, put_nat address, put_str '':''] @ map (dump_code buf nread) [0..<16] @
       [put_str ''  ''] @ map (\<lambda>i. put_str [dump_char (buf ! i)]) [0..<nread] @ [put_endl])"

function dump_loop :: "bytes \<Rightarrow> nat \<Rightarrow> ostream \<Rightarrow> ostream" where
  "dump_loop bs address os =
     (if address < length bs
      then let nread = min 16 (length bs - address); buf = take nread (drop address bs) @ replicate (16 - nread) 0 in
        if length bs < address + nread then os else dump_loop bs (address + 16) (dump_line buf nread address os)
      else os)"
  by pat_completeness auto
termination by (relation "measure (\<lambda>(bs, address, os). length bs - address)") auto

declare dump_loop.simps [simp del]

definition printHexDump :: "bytes \<Rightarrow> ostream \<Rightarrow> ostream" where
  "printHexDump bs = writes [set_hex, setfill CHR ''0'', dump_loop bs 0, set_hex]"

section \<open>The report of a change as text\<close>

text \<open>Offsets are 32-bit integers and printed in base 16 without a sign.\<close>

definition print_window :: "bytes \<Rightarrow> int \<Rightarrow> int \<Rightarrow> (ostream \<Rightarrow> ostream) res" where
  "print_window blk off k =
     mapE (\<lambda>b. writes [if k = off then put_str '' # '' else id, setfill CHR ''0'', setw 2, put_nat (unat b), put_str '' ''])
       (byte_at blk k)"

fun print_windows :: "bytes \<Rightarrow> int \<Rightarrow> int list \<Rightarrow> (ostream \<Rightarrow> ostream) res" where
  "print_windows blk off [] = Inr id"
| "print_windows blk off (k # ks) =
     bindE (print_window blk off k) (\<lambda>f. mapE (\<lambda>g. writes [f, g]) (print_windows blk off ks))"

definition print_change :: "bytes \<Rightarrow> bytes \<Rightarrow> int \<Rightarrow> int \<Rightarrow> ostream \<Rightarrow> ostream res" where
  "print_change memory reference off sz os =
     bindE (byte_at reference off) (\<lambda>r. bindE (byte_at memory off) (\<lambda>m.
     bindE (print_windows reference off (change_window off sz)) (\<lambda>rs.
     bindE (print_windows memory off (change_window off sz)) (\<lambda>ms.
       Inr (writes [put_str ''First change'', put_str '' in byte 0x'', set_hex, put_nat (unat (of_int off :: u32)),
         put_str '' is 0x'', put_nat (unat r), put_str '' should be 0x'', put_nat (unat m), set_dec, put_endl,
         put_str ''The loaded block is: '', set_hex, put_endl, rs, put_endl,
         put_str ''The block in mem is: '', set_hex, put_endl, ms, set_dec, put_endl, put_endl] os)))))"

section \<open>Sections, mappings and symbols\<close>

definition SectionInfo_print :: "SectionInfo \<Rightarrow> ostream \<Rightarrow> ostream" where
  "SectionInfo_print s =
     writes [put_str ''Section: '', put_str (si_name s), put_endl,
       put_str (CHR 0x09 # ''id:'' @ [CHR 0x09]), put_nat (unat (secID s)), put_endl,
       put_str (CHR 0x09 # ''offset:'' @ [CHR 0x09]), put_nat (unat (si_offset s)), put_endl,
       put_str (CHR 0x09 # ''index:'' @ [CHR 0x09]), put_nat (unat (si_index s)), put_endl,
       put_str (CHR 0x09 # ''memindex:'' @ [CHR 0x09]), put_nat (unat (memindex s)), put_endl,
       put_str (CHR 0x09 # ''size:'' @ [CHR 0x09]), put_nat (unat (si_size s)), put_endl, put_endl]"

definition VM_MAYSHARE :: u64 where "VM_MAYSHARE = 0x80"

text \<open>The local \<^verbatim>\<open>_name\<close> with its text for anonymous mappings is not used.\<close>

definition VMAInfo_print :: "VMAInfo \<Rightarrow> ostream \<Rightarrow> ostream" where
  "VMAInfo_print v =
     writes [set_hex, put_str ''0x'', put_nat (unat (vma_start v)), put_str '' - 0x'', put_nat (unat (vma_end v)),
       put_str ''   '', setw 5, put_nat (unat (vma_ino v)), put_str ''   '',
       put_str (if vma_flags v AND VM_READ \<noteq> 0 then ''r'' else ''-''),
       put_str (if vma_flags v AND VM_WRITE \<noteq> 0 then ''w'' else ''-''),
       put_str (if vma_flags v AND VM_EXEC \<noteq> 0 then ''x'' else ''-''),
       put_str (if vma_flags v AND VM_MAYSHARE \<noteq> 0 then ''s'' else ''p''),
       put_str ''   '', put_str (vma_name v), set_dec, put_endl]"

definition printVMAs :: "Process \<Rightarrow> ostream \<Rightarrow> ostream" where
  "printVMAs p = writes ([put_str ''Currently mapped VMAs:'', put_endl] @ map VMAInfo_print (mappedVMAs p))"

definition st_size_at :: "hostmem \<Rightarrow> u64 \<Rightarrow> u64 res" where
  "st_size_at m p = mapE (\<lambda>b. fld b 16 8) (hread m p 24)"

text \<open>The labels of the reserved section indices; an index the switch does not name keeps the
  label in use.\<close>

definition SHN_LORESERVE :: u16 where "SHN_LORESERVE = 0xff00"

definition reserved_label :: "u16 \<Rightarrow> string \<Rightarrow> string" where
  "reserved_label shndx label =
     (if shndx = SHN_UNDEF then ''*UND*''
      else if shndx = SHN_LORESERVE then ''*LORESERVE*''
      else if shndx = 0xff01 then ''*AFTER*''
      else if shndx = 0xff1f then ''*HIPROC*''
      else if shndx = 0xff20 then ''*LOOS*''
      else if shndx = 0xff3f then ''*HIOS*''
      else if shndx = SHN_ABS then ''*ABS*''
      else if shndx = SHN_COMMON then ''*COMMON*''
      else if shndx = 0xffff then ''*HIRESERVE*''
      else label)"

definition section_label :: "ElfFile64 \<Rightarrow> u16 \<Rightarrow> string \<Rightarrow> string res" where
  "section_label f shndx label =
     (if shndx < SHN_LORESERVE then sectionName f (unat shndx) else Inr (reserved_label shndx label))"

definition STT_OBJECT :: u8 where "STT_OBJECT = 1"

definition symbol_line :: "Elf64_Sym \<Rightarrow> string \<Rightarrow> string \<Rightarrow> u64 \<Rightarrow> ostream \<Rightarrow> ostream" where
  "symbol_line sy label nm sz =
     writes [put_str ''Symbol: '', set_hex, put_nat (unat (st_value sy)), set_dec, put_str '' '', put_str label,
       put_str '' : '', put_str nm, put_str '' ( '', put_nat (unat sz), put_str '' ) '', put_endl]"

definition symbol_step :: "ElfFile64 \<Rightarrow> u64 \<Rightarrow> u32 \<Rightarrow> nat \<Rightarrow> string \<times> ostream \<Rightarrow> (string \<times> ostream) res" where
  "symbol_step f symBase strindex i =
     (\<lambda>(label, os).
        let p = symBase + 24 * of_nat i in
        bindE (sym_at (mem f) p) (\<lambda>sy.
        bindE (symbolName f (st_name sy) strindex) (\<lambda>nm.
        bindE (section_label f (st_shndx sy) label) (\<lambda>label'.
        bindE (st_size_at (mem f) p) (\<lambda>sz.
          Inr (label', if ELF64_ST_TYPE (st_info sy) = STT_FUNC \<or> ELF64_ST_TYPE (st_info sy) = STT_OBJECT
            then symbol_line sy label' nm sz os else os))))))"

text \<open>The size is cut to 32 bits; the loop runs while the entry starts inside the table.\<close>

definition printSymbols :: "ElfFile64 \<Rightarrow> u32 \<Rightarrow> ostream \<Rightarrow> ostream res" where
  "printSymbols f symindex os =
     bindE (host8 (mem f) (hbase (mem f) + 4)) (\<lambda>cls.
       if cls = 1 then Inr (writes [put_str ''can't print elfclass32 symbols'', put_endl] os)
       else if cls = ELFCLASS64
       then bindE (shdr (mem f) (unat symindex)) (\<lambda>s.
         let symSize = ucast (sh_size s) :: u32; symBase = hbase (mem f) + sh_offset s in
         mapE snd (foldE (symbol_step f symBase (sh_link s)) [0..<(unat symSize + 23) div 24] ('''', os)))
       else Inr os)"

section \<open>The tables of the process validator\<close>

definition ptr_columns :: string where
  "ptr_columns =
     ''Overall ptrs;'' @ ''Unique ptrs;'' @ ''Not PIE;'' @ ''Ptr Known;'' @ ''No corresponding section;'' @
     ''Ptr to start of section;'' @ ''Pointer to Section != .text;'' @ ''Ptr to String (.dynstr);'' @
     ''Ptr to Symbol (.dynsym);'' @ ''Pointer to Symbol;'' @ ''Pointer to EntryPoint;'' @ ''Return Address;'' @
     ''Unknown Ptr;'' @ ''Unknown Ptr Pie;'' @ ''Unknown Pie End Printable;'' @ ''Invalid Instruction;'' @
     ''Unintended Instruction;'' @ ''Unintended Instruction not checked;'' @ ''Unintended Return instruction;'' @
     ''Unintended Usable Gadget''"

definition ptr_numbers :: string where
  "ptr_numbers = ''C1;C2;C3;C4;C5;C6;C7;C8;C9;C10;C11;C12;C13;C14;C15;C16;C17;C18;C19;C20''"

definition header_prefixes :: "string list" where
  "header_prefixes =
     [''Process summary;PID;Name;'', ''Section summary;PID;Name;SectionName;Symcount'',
      ''Mapping summary;PID;Name;FromMapping;ToMapping;Symcount'']"

text \<open>The flag is a static variable of the function.\<close>

definition printHeaders :: "bool \<times> ostream \<Rightarrow> bool \<times> ostream" where
  "printHeaders = (\<lambda>(done, os).
     if done then (done, os)
     else (True, writes (concat (map (\<lambda>p. [put_str p, put_str ptr_columns, put_endl, put_str p, put_str ptr_numbers, put_endl])
       header_prefixes)) os))"

definition show_int :: "int \<Rightarrow> string" where
  "show_int i = (if i < 0 then ''-'' @ decimal (nat (- i)) else decimal (nat i))"

text \<open>The statistics are written to a stream of their own, in base 10; the output itself is in base 10 at
  these places.\<close>

definition stat_text :: "nat list \<Rightarrow> string" where
  "stat_text ns = concat (map (\<lambda>n. '';'' @ decimal n) ns)"

fun stat2_text :: "nat list \<Rightarrow> string" where
  "stat2_text (a # hi # lo # r) =
     '';'' @ decimal a @ '' ('' @ decimal hi @ '' / '' @ decimal lo @ '')'' @ stat2_text r"
| "stat2_text r = ''''"

text \<open>The count of symbols is asked of the loader when there is none.\<close>

definition printMappingInfo :: "int \<Rightarrow> string \<Rightarrow> string \<Rightarrow> string \<Rightarrow> ElfUserspaceLoader option \<Rightarrow> string res" where
  "printMappingInfo pid nm fromVMA toVMA toLoader =
     mapE (\<lambda>n. ''Mapping summary'' @ '';'' @ show_int pid @ '';'' @ nm @ '';'' @ fromVMA @ '';'' @ toVMA @ '';'' @ decimal n)
       (case toLoader of Some l \<Rightarrow> Inr 0 | None \<Rightarrow> Inl NullDeref)"

definition mapping_row :: "int \<Rightarrow> string \<Rightarrow> string \<Rightarrow> string \<Rightarrow> ElfUserspaceLoader option \<Rightarrow> ptr_stats \<Rightarrow> string res" where
  "mapping_row pid nm fromVMA toVMA toLoader st =
     mapE (\<lambda>s. s @ stat_text (printStat st)) (printMappingInfo pid nm fromVMA toVMA toLoader)"

definition segment_row :: "int \<Rightarrow> string \<Rightarrow> string \<Rightarrow> ElfUserspaceLoader option \<Rightarrow> ptr_stats \<Rightarrow> string" where
  "segment_row pid nm vma fromLoader st =
     ''Segment summary'' @ '';'' @ show_int pid @ '';'' @ nm @ '';'' @ vma @ '';'' @
     decimal (case fromLoader of Some l \<Rightarrow> symbolCount (elffile l) | None \<Rightarrow> 0) @ stat_text (printStat st)"

definition process_row :: "int \<Rightarrow> string \<Rightarrow> ptr_stats \<Rightarrow> string" where
  "process_row pid nm st = ''Process summary'' @ '';'' @ show_int pid @ '';'' @ nm @ stat2_text (printStat2 st)"

section \<open>Reading a dump back\<close>

text \<open>What a reader of the dump does: behind the colon, the hexadecimal digits of the 40 columns of
  codes, two for each byte; then to the end of the line.\<close>

fun read_codes :: "string \<Rightarrow> bytes" where
  "read_codes (h # l # r) = of_nat (hex_value 0 [h, l]) # read_codes r"
| "read_codes r = []"

function read_dump :: "string \<Rightarrow> bytes" where
  "read_dump s =
     (if s = [] then []
      else let body = drop 1 (dropWhile (\<lambda>c. c \<noteq> CHR '':'') s) in
        read_codes (filter (\<lambda>c. hex_digit c \<noteq> None) (take 40 body)) @
        read_dump (drop 1 (dropWhile (\<lambda>c. c \<noteq> CHR 0x0A) (drop 40 body))))"
  by pat_completeness auto
termination
proof (relation "measure length")
  fix s body :: string
  assume "s \<noteq> []" and b: "body = drop 1 (dropWhile (\<lambda>c. c \<noteq> CHR '':'') s)"
  have "length body < length s"
    unfolding b using \<open>s \<noteq> []\<close> length_dropWhile_le [of "\<lambda>c. c \<noteq> CHR '':''" s] by (cases s) auto
  moreover have "length (drop 1 (dropWhile (\<lambda>c. c \<noteq> CHR 0x0A) (drop 40 body))) \<le> length body"
    using length_dropWhile_le [of "\<lambda>c. c \<noteq> CHR 0x0A" "drop 40 body"] by simp
  ultimately show "(drop 1 (dropWhile (\<lambda>c. c \<noteq> CHR 0x0A) (drop 40 body)), s) \<in> measure length" by simp
qed simp

declare read_dump.simps [simp del]

text \<open>A line of the dump as text.\<close>

definition pad :: "nat \<Rightarrow> string \<Rightarrow> string" where
  "pad w s = replicate (w - length s) CHR ''0'' @ s"

definition code_text :: "bytes \<Rightarrow> nat \<Rightarrow> string" where
  "code_text chunk i =
     (if i mod 2 = 0 then '' '' else '''') @ (if i < length chunk then pad 2 (show_hex (unat (chunk ! i))) else ''>>'')"

definition line_text :: "nat \<Rightarrow> bytes \<Rightarrow> string" where
  "line_text address chunk =
     pad 8 (show_hex address) @ '':'' @ concat (map (code_text chunk) [0..<16]) @ ''  '' @ map dump_char chunk @ endl"

function dump_text :: "nat \<Rightarrow> bytes \<Rightarrow> string" where
  "dump_text address bs =
     (if bs = [] then [] else line_text address (take 16 bs) @ dump_text (address + 16) (drop 16 bs))"
  by pat_completeness auto
termination by (relation "measure (\<lambda>(address, bs). length bs)") auto

declare dump_text.simps [simp del]

definition dump_mode :: "ostream \<Rightarrow> bool" where
  "dump_mode os \<longleftrightarrow> os_hex os \<and> os_fill os = CHR ''0''"

lemma scast_byte: "unat ((scast (b :: u8) :: u32) AND 0xff) = unat b"
proof -
  have m: "(0xff :: u32) = mask 8" by (simp add: mask_eq_exp_minus_1)
  have "((scast b :: u32) AND 0xff) = ucast b"
  proof (unfold m, rule bit_word_eqI)
    fix n assume "n < LENGTH(32)"
    then show "bit ((scast b :: u32) AND mask 8) n = bit (ucast b :: u32) n"
      using bit_imp_le_length [of b n] by (cases "n < 7"; cases "n = 7") (auto simp: bit_simps min_def)
  qed
  then show ?thesis by (simp add: unat_ucast_up)
qed

text \<open>Insertions of text, in the mode of a dump.\<close>

lemma writes_texts:
  assumes "\<And>x os. x \<in> set xs \<Longrightarrow> dump_mode os \<Longrightarrow> os_width os = 0 \<Longrightarrow> g x os = os\<lparr>os_text := os_text os @ t x\<rparr>"
    and "dump_mode os" and "os_width os = 0"
  shows "writes (map g xs) os = os\<lparr>os_text := os_text os @ concat (map t xs)\<rparr>"
  using assms
proof (induction xs arbitrary: os)
  case (Cons x xs)
  then show ?case by (simp add: dump_mode_def)
qed simp

lemma dump_code_text:
  assumes "i < 16" and "length chunk \<le> 16" and "dump_mode os" and "os_width os = 0"
  shows "dump_code (chunk @ replicate (16 - length chunk) 0) (length chunk) i os =
    os\<lparr>os_text := os_text os @ code_text chunk i\<rparr>"
  using assms
  by (simp add: dump_code_def code_text_def stream_defs dump_mode_def pad_def nth_append scast_byte)

lemma dump_line_text:
  assumes "length chunk \<le> 16" and "dump_mode os"
  shows "dump_line (chunk @ replicate (16 - length chunk) 0) (length chunk) address os =
    os\<lparr>os_text := os_text os @ line_text address chunk, os_width := 0\<rparr>"
proof -
  let ?b = "chunk @ replicate (16 - length chunk) 0"
  have c: "writes (map (dump_code ?b (length chunk)) [0..<16]) o1 =
      o1\<lparr>os_text := os_text o1 @ concat (map (code_text chunk) [0..<16])\<rparr>"
    if "dump_mode o1" "os_width o1 = 0" for o1
    by (rule writes_texts [OF dump_code_text that]) (use assms(1) in auto)
  have p: "writes (map (\<lambda>i. put_str [dump_char (?b ! i)]) [0..<length chunk]) o1 =
      o1\<lparr>os_text := os_text o1 @ map dump_char chunk\<rparr>"
    if "dump_mode o1" "os_width o1 = 0" for o1
  proof -
    have "map (\<lambda>i. dump_char (?b ! i)) [0..<length chunk] = map dump_char chunk"
      by (rule nth_equalityI) (auto simp: nth_append)
    moreover have "concat (map (\<lambda>i. [dump_char (?b ! i)]) xs) = map (\<lambda>i. dump_char (?b ! i)) xs" for xs
      by (induction xs) auto
    ultimately show ?thesis
      using writes_texts [of "[0..<length chunk]" "\<lambda>i. put_str [dump_char (?b ! i)]" "\<lambda>i. [dump_char (?b ! i)]" o1] that
      by (simp add: stream_defs)
  qed
  show ?thesis
    using assms by (simp add: dump_line_def line_text_def stream_defs dump_mode_def pad_def c p del: upt_rec_numeral)
qed

lemma dump_loop_text:
  "dump_mode os \<Longrightarrow> dump_loop bs a os =
     os\<lparr>os_text := os_text os @ dump_text a (drop a bs), os_width := (if a < length bs then 0 else os_width os)\<rparr>"
proof (induction "length bs - a" arbitrary: a os rule: less_induct)
  case less
  show ?case
  proof (cases "a < length bs")
    case True
    let ?c = "take 16 (drop a bs)"
    have n: "min 16 (length bs - a) = length ?c" by simp
    have t: "take (length ?c) (drop a bs) = ?c" by (cases "length bs - a \<le> 16") (simp_all add: min_def)
    have l: "dump_line (?c @ replicate (16 - length ?c) 0) (length ?c) a os =
        os\<lparr>os_text := os_text os @ line_text a ?c, os_width := 0\<rparr>"
      by (rule dump_line_text) (use less.prems in auto)
    have "dump_loop bs a os = dump_loop bs (a + 16) (os\<lparr>os_text := os_text os @ line_text a ?c, os_width := 0\<rparr>)"
      using True by (subst dump_loop.simps) (simp only: n t l Let_def if_True, simp)
    also have "\<dots> = os\<lparr>os_text := os_text os @ line_text a ?c @ dump_text (a + 16) (drop (a + 16) bs), os_width := 0\<rparr>"
      using less True by (subst less.hyps) (auto simp: dump_mode_def)
    also have "line_text a ?c @ dump_text (a + 16) (drop (a + 16) bs) = dump_text a (drop a bs)"
      using True by (subst (2) dump_text.simps) (simp add: add.commute)
    finally show ?thesis using True by simp
  next
    case False
    then show ?thesis by (subst dump_loop.simps, subst dump_text.simps) simp
  qed
qed

definition is_hex :: "char \<Rightarrow> bool" where
  "is_hex c \<longleftrightarrow> hex_digit c \<noteq> None"

lemma show_hex_digits: "c \<in> set (show_hex n) \<Longrightarrow> is_hex c"
proof (induction n rule: show_hex.induct)
  case (1 n)
  have d: "is_hex (hex_char d)" if "d < 16" for d
    using hex_digit_char [OF that] by (simp add: is_hex_def)
  show ?case
  proof (cases "n < 16")
    case True
    with 1(2) d show ?thesis by (subst (asm) show_hex.simps) simp
  next
    case False
    with 1(2) have "c \<in> set (show_hex (n div 16)) \<or> c = hex_char (n mod 16)" by (subst (asm) show_hex.simps) auto
    with 1(1) [OF False] d show ?thesis by auto
  qed
qed

lemma is_hex_chars [simp]: "is_hex CHR ''0''" "\<not> is_hex CHR '' ''" "\<not> is_hex CHR ''>''" "\<not> is_hex CHR '':''"
  by (code_simp)+

lemma pad_digits: "c \<in> set (pad w (show_hex n)) \<Longrightarrow> is_hex c"
  using show_hex_digits by (auto simp: pad_def)

lemma hex_char_zero: "hex_char 0 = CHR ''0''"
  by code_simp

lemma pad_two: "n < 256 \<Longrightarrow> pad 2 (show_hex n) = [hex_char (n div 16), hex_char (n mod 16)]"
  by (subst show_hex.simps, subst show_hex.simps) (auto simp: pad_def hex_char_zero)

definition byte_text :: "u8 \<Rightarrow> string" where
  "byte_text b = [hex_char (unat b div 16), hex_char (unat b mod 16)]"

lemma byte_bound: "unat (b :: u8) < 256"
  using unsigned_less [of b] by simp

lemma code_text_byte:
  "code_text chunk i = (if i mod 2 = 0 then '' '' else '''') @ (if i < length chunk then byte_text (chunk ! i) else ''>>'')"
  by (simp add: code_text_def pad_two [OF byte_bound] byte_text_def)

lemma length_codes: "length (concat (map (code_text chunk) [0..<16])) = 40"
  by (simp add: length_concat code_text_byte byte_text_def comp_def upt_rec)

lemma filter_codes:
  assumes "length chunk \<le> 16"
  shows "filter is_hex (concat (map (code_text chunk) [0..<16])) = concat (map byte_text chunk)"
proof -
  have h: "is_hex (hex_char d)" if "d < 16" for d
    using hex_digit_char [OF that] by (simp add: is_hex_def)
  have b: "filter is_hex (byte_text b) = byte_text b" for b
    using byte_bound [of b] by (simp add: byte_text_def h)
  have f: "filter is_hex (code_text chunk i) = (if i < length chunk then byte_text (chunk ! i) else [])" for i
    by (simp add: code_text_byte b)
  have u: "[0..<16] = [0..<length chunk] @ [length chunk..<16]"
    using assms upt_add_eq_append [of 0 "length chunk" "16 - length chunk"] by simp
  have n: "concat (map (\<lambda>i. if i < length chunk then byte_text (chunk ! i) else []) [length chunk..<16]) = []"
    by simp
  have m: "map (\<lambda>i. if i < length chunk then byte_text (chunk ! i) else []) [0..<length chunk] = map byte_text chunk"
    by (rule nth_equalityI) auto
  have "filter is_hex (concat (map (code_text chunk) [0..<16])) =
      concat (map (\<lambda>i. if i < length chunk then byte_text (chunk ! i) else []) [0..<16])"
    by (simp add: filter_concat comp_def f del: upt_rec_numeral)
  also have "\<dots> = concat (map byte_text chunk)" by (subst u) (simp only: map_append concat_append n m append_Nil2)
  finally show ?thesis .
qed

lemma read_codes_bytes: "read_codes (concat (map byte_text chunk)) = chunk"
proof (induction chunk)
  case (Cons b chunk)
  have "unat b div 16 < 16" using byte_bound [of b] by simp
  then have "(of_nat (hex_value 0 (byte_text b)) :: u8) = b"
    by (simp add: byte_text_def hex_digit_char)
  with Cons show ?case by (simp add: byte_text_def)
qed simp

lemma dump_char_newline: "dump_char b \<noteq> CHR 0x0A"
proof
  assume "dump_char b = CHR 0x0A"
  then have s: "\<not> sint b < 32" "char_of (unat b) = CHR 0x0A" by (auto simp: dump_char_def split: if_splits)
  have "of_char (char_of (unat b) :: char) = unat b" using byte_bound [of b] by simp
  with s(2) have "unat b = 10" by simp
  then have "b = 10" by (simp add: word_unat_eq_iff)
  with s(1) show False by simp
qed

lemma read_line:
  assumes "length chunk \<le> 16"
  shows "read_dump (line_text a chunk @ rest) = chunk @ read_dump rest"
proof -
  let ?codes = "concat (map (code_text chunk) [0..<16])"
  have ih: "(\<lambda>c. hex_digit c \<noteq> None) = is_hex" by (simp add: is_hex_def fun_eq_iff)
  have d: "dropWhile (\<lambda>c. c \<noteq> CHR '':'') (line_text a chunk @ rest) =
      CHR '':'' # ?codes @ ''  '' @ map dump_char chunk @ endl @ rest"
    using pad_digits [of "CHR '':''" 8 a] unfolding line_text_def append_assoc
    by (subst dropWhile_append2) (auto simp del: upt_rec_numeral)
  have r: "dropWhile (\<lambda>c. c \<noteq> CHR 0x0A) (''  '' @ map dump_char chunk @ endl @ rest) = CHR 0x0A # rest"
  proof -
    have "dropWhile (\<lambda>c. c \<noteq> CHR 0x0A) ((''  '' @ map dump_char chunk) @ endl @ rest)
        = dropWhile (\<lambda>c. c \<noteq> CHR 0x0A) (endl @ rest)"
      by (rule dropWhile_append2) (auto simp: dump_char_newline [symmetric] dump_char_newline)
    then show ?thesis by (simp add: endl_def)
  qed
  have ne: "line_text a chunk @ rest \<noteq> []" by (simp add: line_text_def del: upt_rec_numeral)
  have t: "take 40 (?codes @ x) = ?codes" "drop 40 (?codes @ x) = x" for x
    using length_codes [of chunk] by simp_all
  have "read_dump (line_text a chunk @ rest) = read_codes (filter is_hex ?codes) @ read_dump rest"
    using ne by (subst read_dump.simps) (simp only: d t r ih Let_def if_False drop_Suc_Cons drop_0 One_nat_def)
  then show ?thesis by (simp only: filter_codes [OF assms] read_codes_bytes)
qed

lemma read_dump_text: "read_dump (dump_text a bs) = bs"
proof (induction a bs rule: dump_text.induct)
  case (1 a bs)
  show ?case
  proof (cases "bs = []")
    case True
    then show ?thesis by (subst dump_text.simps, subst read_dump.simps) simp
  next
    case False
    with 1 show ?thesis by (subst dump_text.simps) (simp add: read_line)
  qed
qed

section \<open>What the output holds\<close>

lemma printHexDump_text:
  "printHexDump bs os = os\<lparr>os_text := os_text os @ dump_text 0 bs, os_hex := True, os_fill := CHR ''0'',
     os_width := (if bs = [] then os_width os else 0)\<rparr>"
  by (auto simp: printHexDump_def dump_loop_text dump_mode_def set_hex_def setfill_def)

text \<open>C40: The bytes can be read back from a hex dump of any length: the dump determines them, whatever the
  state of the stream before.\<close>

theorem printHexDump_roundtrip:
  "read_dump (drop (length (os_text os)) (os_text (printHexDump bs os))) = bs"
  by (simp add: printHexDump_text read_dump_text)

text \<open>A dump leaves the stream in base 16, a mapping in base 10: the size of a section printed next
  depends on which of them came before.\<close>

theorem section_size_after:
  "(\<exists>p. os_text (SectionInfo_print s (printHexDump bs os)) = p @ show_hex (unat (si_size s)) @ endl @ endl) \<and>
   (\<exists>p. os_text (SectionInfo_print s (VMAInfo_print v os)) = p @ decimal (unat (si_size s)) @ endl @ endl)"
  by (auto simp: SectionInfo_print_def VMAInfo_print_def printHexDump_text stream_defs)

text \<open>An anonymous mapping is printed without a name.\<close>

lemma anonymous_unnamed:
  assumes "vma_name v = ''''"
  shows "\<exists>p. os_text (VMAInfo_print v os) = p @ ''   '' @ endl"
  using assms by (auto simp: VMAInfo_print_def stream_defs)

text \<open>A symbol of a processor specific section is printed with the label of the symbol before it; an
  undefined symbol never gets the label meant for it.\<close>

lemma specific_index_keeps_label:
  "shndx \<in> {0xff02..0xff1e} \<Longrightarrow> section_label f shndx label = Inr label"
  by (auto simp: section_label_def reserved_label_def SHN_LORESERVE_def elf_consts word_le_nat_alt word_less_nat_alt)

lemma undefined_label: "section_label f SHN_UNDEF label = sectionName f 0"
  by (simp add: section_label_def SHN_LORESERVE_def elf_consts)

section \<open>Headers and rows\<close>

definition columns :: "string \<Rightarrow> nat" where
  "columns s = Suc (count_list s CHR '';'')"

lemma decimal_columns [simp]: "count_list (decimal n) CHR '';'' = 0"
proof -
  have "CHR '';'' \<notin> set (decimal n)"
  proof
    assume "CHR '';'' \<in> set (decimal n)"
    then obtain d :: nat where d: "d < 10" "CHR '';'' = char_of (48 + d)" using decimal_digits by blast
    then have "(of_char CHR '';'' :: nat) = 48 + d" by simp
    with d(1) show False by simp
  qed
  then show ?thesis by simp
qed

lemma show_int_columns [simp]: "count_list (show_int i) CHR '';'' = 0"
  by (simp add: show_int_def)

lemma stat_columns: "count_list (stat_text ns) CHR '';'' = length ns"
  by (induction ns) (simp_all add: stat_text_def)

lemma stat2_columns: "count_list (stat2_text ns) CHR '';'' = length ns div 3"
  by (induction ns rule: stat2_text.induct) simp_all

lemma length_printStat: "length (printStat st) = 20" "length (printStat2 st) = 27"
  by (simp_all add: printStat_def printStat2_def split_overall_def split_count_def)

lemma header_columns:
  "map (\<lambda>p. columns (p @ ptr_columns)) header_prefixes = [23, 24, 25]"
  "map (\<lambda>p. columns (p @ ptr_numbers)) header_prefixes = [23, 24, 25]"
  by (simp_all add: columns_def header_prefixes_def ptr_columns_def ptr_numbers_def)

text \<open>The rows do not fit under their headers, for names without a semicolon: a missing separator makes those
  of mappings and segments one column wider than theirs, the row of the process has twelve columns where
  its header has 23.\<close>

theorem rows_and_headers:
  assumes "CHR '';'' \<notin> set nm" and "CHR '';'' \<notin> set a" and "CHR '';'' \<notin> set b"
    and "mapping_row pid nm a b l st = Inr m"
  shows "map columns [process_row pid nm st, segment_row pid nm a l' st, m] = [12, 25, 26] \<and>
    map (\<lambda>p. columns (p @ ptr_columns)) header_prefixes = [23, 24, 25]"
  by (intro conjI header_columns(1)) (use assms in \<open>auto simp: columns_def process_row_def segment_row_def mapping_row_def
    printMappingInfo_def stat_columns stat2_columns length_printStat mapE_def split: option.splits\<close>)

text \<open>The headers are printed once.\<close>

lemma printHeaders_once: "printHeaders (printHeaders s) = printHeaders s"
  by (cases s) (simp add: printHeaders_def)

end
