(* ===== verification/Diagnostics.thy ===== *)
theory Diagnostics
  imports Output
begin

text \<open>
  The names in stack traces (\<^verbatim>\<open>util::demangle\<close> and \<^verbatim>\<open>util::symbol_name\<close> of
  \<^verbatim>\<open>src/helpers.cpp\<close>), the accessors of \<^verbatim>\<open>Error\<close> in \<^verbatim>\<open>src/error.cpp\<close> and the
  three exception classes of \<^verbatim>\<open>src/exceptions.cpp\<close>. \<^verbatim>\<open>dladdr\<close>,
  \<^verbatim>\<open>__cxa_demangle\<close> and the printed form of a pointer are parameters.
\<close>

section \<open>Names of code addresses\<close>

record dl_info =
  dli_sname :: "string option"
  dli_saddr :: u64

record runtime =
  rt_dladdr :: "u64 \<Rightarrow> dl_info option"
  rt_demangle :: "string \<Rightarrow> string option"
  rt_pointer :: "u64 \<Rightarrow> string"

definition demangle :: "runtime \<Rightarrow> string \<Rightarrow> string" where
  "demangle rt sy = (case rt_demangle rt sy of None \<Rightarrow> sy | Some result \<Rightarrow> result)"

definition addr_to_string :: "runtime \<Rightarrow> u64 \<Rightarrow> string" where
  "addr_to_string rt addr = ''['' @ rt_pointer rt addr @ '']''"

definition symbol_name :: "runtime \<Rightarrow> u64 \<Rightarrow> bool \<Rightarrow> bool \<Rightarrow> string" where
  "symbol_name rt addr require_exact_addr no_pure_addrs =
     (let none = (if no_pure_addrs then '''' else addr_to_string rt addr) in
      case rt_dladdr rt addr of
        None \<Rightarrow> none
      | Some info \<Rightarrow>
          let symbol_offset = addr - dli_saddr info in
          (case dli_sname info of
             None \<Rightarrow> none
           | Some sname \<Rightarrow>
               if symbol_offset \<noteq> 0 \<and> require_exact_addr then none
               else if symbol_offset = 0 then demangle rt sname
               else demangle rt sname @ ''+0x'' @ show_hex (unat symbol_offset)))"

text \<open>The trace as \<^verbatim>\<open>Backtrace::get_symbols\<close> asks for the names.\<close>

definition trace_symbols :: "runtime \<Rightarrow> u64 list \<Rightarrow> bool \<Rightarrow> backtrace_symbol list" where
  "trace_symbols rt = get_symbols (\<lambda>pc. symbol_name rt pc False True)"

definition trace_text :: "runtime \<Rightarrow> u64 list \<Rightarrow> string" where
  "trace_text rt = show_backtrace (\<lambda>pc. symbol_name rt pc False True) (rt_pointer rt)"

section \<open>Errors as objects\<close>

definition Error_type_name :: "runtime \<Rightarrow> string \<Rightarrow> string" where
  "Error_type_name rt typeid = demangle rt typeid"

text \<open>What \<^verbatim>\<open>rethrow_cause\<close> throws, if anything.\<close>

definition rethrow_cause :: "exn \<Rightarrow> exn option" where
  "rethrow_cause e = (case e of KernintError ty msg bt cause \<Rightarrow> cause | _ \<Rightarrow> None)"

text \<open>
  Storage of characters a pointer may refer to. \<^verbatim>\<open>Error::what\<close> points into the message, which
  lives as long as the error; \<open>place\<close> is where it is.
\<close>

type_synonym char_store = "u64 \<rightharpoonup> string"

definition read_chars :: "char_store \<Rightarrow> u64 \<Rightarrow> string res" where
  "read_chars st p = (case st p of None \<Rightarrow> Inl OutOfBounds | Some s \<Rightarrow> Inr s)"

definition Error_what :: "u64 \<Rightarrow> char_store \<Rightarrow> u64 \<times> char_store" where
  "Error_what place st = (place, st)"

datatype exception_class = ElfExceptionClass | VMIExceptionClass | NotImplementedExceptionClass

record exception_object =
  eo_class :: exception_class
  eo_reason :: string

definition ElfException_new :: "string \<Rightarrow> exception_object" where
  "ElfException_new reason = \<lparr>eo_class = ElfExceptionClass, eo_reason = reason\<rparr>"

definition VMIException_new :: "string \<Rightarrow> exception_object" where
  "VMIException_new reason = \<lparr>eo_class = VMIExceptionClass, eo_reason = reason\<rparr>"

definition NotImplementedException_new :: "string \<Rightarrow> exception_object" where
  "NotImplementedException_new reason = \<lparr>eo_class = NotImplementedExceptionClass, eo_reason = reason\<rparr>"

fun what_prefix :: "exception_class \<Rightarrow> string" where
  "what_prefix ElfExceptionClass = ''ElfException: ''"
| "what_prefix VMIExceptionClass = ''VMIException: ''"
| "what_prefix NotImplementedExceptionClass = ''NotImplementedException: ''"

text \<open>
  The string \<^verbatim>\<open>result\<close> is a local variable: it is built at \<open>fresh\<close>, its characters are returned
  by address and it is destroyed.
\<close>

definition exception_what :: "exception_object \<Rightarrow> u64 \<Rightarrow> char_store \<Rightarrow> u64 \<times> char_store" where
  "exception_what e fresh st =
     (let built = st(fresh \<mapsto> what_prefix (eo_class e) @ eo_reason e); destroyed = built(fresh := None) in
      (fresh, destroyed))"

text \<open>
  The classes inherit \<^verbatim>\<open>std::exception\<close> privately: a handler for it does not take them, they are
  in flight as any other value.
\<close>

definition in_flight :: "exception_object \<Rightarrow> exn" where
  "in_flight e = OtherValue"

section \<open>What is shown\<close>

lemma trace_symbols_order: "map bs_pc (trace_symbols rt addrs True) = rev addrs"
  by (simp add: trace_symbols_def get_symbols_def comp_def)

text \<open>A name that is asked for exactly never carries an offset, and no name is made up.\<close>

lemma symbol_name_exact:
  assumes "symbol_name rt addr True True \<noteq> ''''"
  shows "\<exists>info sname. rt_dladdr rt addr = Some info \<and> dli_sname info = Some sname \<and> dli_saddr info = addr \<and>
    symbol_name rt addr True True = demangle rt sname"
  using assms by (auto simp: symbol_name_def Let_def split: option.splits if_splits)

text \<open>A frame no symbol is known for is shown by its address only.\<close>

lemma unknown_frame:
  "rt_dladdr rt pc = None \<Longrightarrow> pc \<noteq> 0 \<Longrightarrow>
     trace_text rt [pc] = ''Traceback (most recent call last):'' @ endl @ '' -> ? ['' @ rt_pointer rt pc @ '']'' @ endl"
  by (simp add: trace_text_def show_backtrace_def get_symbols_def symbol_name_def show_symbol_def)

text \<open>The text of an exception of these classes can never be read through \<^verbatim>\<open>what()\<close>, that of an
  \<^verbatim>\<open>Error\<close> always.\<close>

theorem what_dangles:
  "(case exception_what e fresh st of (p, st') \<Rightarrow> read_chars st' p = Inl OutOfBounds) \<and>
   (case Error_what place (st(place \<mapsto> msg)) of (p, st') \<Rightarrow> read_chars st' p = Inr msg)"
  by (simp add: exception_what_def Error_what_def read_chars_def)

text \<open>An error created while an exception of these classes is handled cannot be printed when the
  cause is stored: printing rethrows the exception and does not catch it. Without the cause it is
  printed.\<close>

theorem elf_exception_unprintable:
  "show_exn sn fmt (Error_new stack (Some (in_flight e)) ty msg bt store) = None \<longleftrightarrow> store"
  by (cases store) (simp_all add: Error_new_def in_flight_def store_cause_def)

lemma InternalError_unprintable: "show_exn sn fmt (InternalError_new stack (Some (in_flight e)) msg) = None"
  by (simp add: InternalError_new_def Error_new_def in_flight_def store_cause_def)

end
