(* ===== verification/FileHandles.thy ===== *)
theory FileHandles
  imports HostFiles Libraries
begin

text \<open>
  The object behind an ELF file: \<^verbatim>\<open>ElfFile\<close> of \<^verbatim>\<open>src/elffile.h\<close> with its stream, its
  mapping and its tags, how \<^verbatim>\<open>loadElfFile\<close> and \<^verbatim>\<open>loadElfFileFromBuffer\<close> of
  \<^verbatim>\<open>src/elffile.cpp\<close> obtain them and how the destructor gives them back; then the small file
  functions of \<^verbatim>\<open>src/helpers.h\<close>. What the file contains is \<open>ElfFile\<close>'s business.
\<close>

section \<open>Objects\<close>

datatype ElfType = ELFTYPENONE | ELFTYPE32 | ELFTYPE64

datatype ElfProgramType =
    ELFPROGRAMTYPENONE
  | ELFPROGRAMTYPEKERNEL
  | ELFPROGRAMTYPEMODULE
  | ELFPROGRAMTYPEEXEC

record ElfObject =
  eo_fd :: bool
  eo_fileSize :: nat
  eo_fileContent :: u64
  eo_type :: ElfType
  eo_programType :: ElfProgramType
  eo_filename :: string
  eo_doLazyBind :: bool
  eo_file :: ElfFile64

text \<open>\<^verbatim>\<open>ElfFile::ElfFile\<close>, with the type tags \<^verbatim>\<open>ElfFile64\<close> passes for every file.\<close>

definition ElfObject_new :: "nat \<Rightarrow> u64 \<Rightarrow> ElfFile64 \<Rightarrow> ElfObject" where
  "ElfObject_new sz content f =
     \<lparr>eo_fd = True, eo_fileSize = sz, eo_fileContent = content, eo_type = ELFTYPE64,
      eo_programType = ELFPROGRAMTYPEEXEC, eo_filename = '''', eo_doLazyBind = False, eo_file = f\<rparr>"

definition getType :: "ElfObject \<Rightarrow> ElfType" where "getType = eo_type"
definition getProgramType :: "ElfObject \<Rightarrow> ElfProgramType" where "getProgramType = eo_programType"
definition getSymbolCount :: "ElfObject \<Rightarrow> nat" where "getSymbolCount e = symbolCount (eo_file e)"
definition getFileContent :: "ElfObject \<Rightarrow> u64" where "getFileContent = eo_fileContent"
definition getFileSize :: "ElfObject \<Rightarrow> nat" where "getFileSize = eo_fileSize"
definition getFilename :: "ElfObject \<Rightarrow> string" where "getFilename = eo_filename"

section \<open>Streams and mappings\<close>

text \<open>The process's open streams are counted, its mappings listed with address and size.\<close>

record host_io =
  io_open :: nat
  io_maps :: "(u64 \<times> nat) list"

text \<open>What the host answers: the content of a file, whether the seek to its end succeeds, and where
  \<^verbatim>\<open>mmap\<close> puts it, if it does.\<close>

record host_calls =
  hc_content :: "string \<Rightarrow> bytes option"
  hc_seek :: "string \<Rightarrow> bool"
  hc_mmap :: "string \<Rightarrow> u64 option"

definition io_fopen :: "host_io \<Rightarrow> host_io" where "io_fopen io = io\<lparr>io_open := Suc (io_open io)\<rparr>"
definition io_fclose :: "host_io \<Rightarrow> host_io" where "io_fclose io = io\<lparr>io_open := io_open io - 1\<rparr>"

definition io_mmap :: "u64 \<Rightarrow> nat \<Rightarrow> host_io \<Rightarrow> host_io" where
  "io_mmap p sz io = io\<lparr>io_maps := (p, sz) # io_maps io\<rparr>"

definition io_munmap :: "u64 \<Rightarrow> nat \<Rightarrow> host_io \<Rightarrow> host_io" where
  "io_munmap p sz io = io\<lparr>io_maps := remove1 (p, sz) (io_maps io)\<rparr>"

text \<open>\<^verbatim>\<open>loadElfFile\<close> behind the test of the magic number, with the stream open.\<close>

definition map_and_parse :: "host_calls \<Rightarrow> string \<Rightarrow> bytes \<Rightarrow> host_io \<Rightarrow> ElfObject option res \<times> host_io" where
  "map_and_parse h nm bs io =
     (if hc_seek h nm
      then (case hc_mmap h nm of
          None \<Rightarrow> (Inl (ElfException ''MMAP failed!!!''), io_fclose io)
        | Some p \<Rightarrow>
            let io1 = io_mmap p (length bs) io; m = \<lparr>hbase = p, hbytes = bs\<rparr> in
            (case host8 m (p + 4) of
               Inl e \<Rightarrow> (Inl e, io1)
             | Inr cls \<Rightarrow>
                 if cls = ELFCLASS64
                 then (mapE (\<lambda>f. Some ((ElfObject_new (length bs) p f)\<lparr>eo_filename := nm\<rparr>)) (ElfFile64_new m), io1)
                 else (Inl (ElfException ''unsupported elfclass!''), io_fclose io1)))
      else (Inl NullDeref, io))"

definition loadElfObject :: "host_calls \<Rightarrow> string \<Rightarrow> host_io \<Rightarrow> ElfObject option res \<times> host_io" where
  "loadElfObject h nm io =
     (case hc_content h nm of
        None \<Rightarrow> (Inr None, io)
      | Some bs \<Rightarrow>
          let io1 = io_fopen io in
          if take 4 bs \<noteq> ELFMAG then (Inr None, io_fclose io1) else map_and_parse h nm bs io1)"

text \<open>\<^verbatim>\<open>loadElfFileFromBuffer\<close>: the buffer at \<open>p\<close> belongs to the caller.\<close>

definition loadElfFileFromBuffer :: "string \<Rightarrow> u64 \<Rightarrow> bytes \<Rightarrow> host_io \<Rightarrow> ElfObject res \<times> host_io" where
  "loadElfFileFromBuffer nm p buf io =
     (mapE (\<lambda>f. (ElfObject_new (length buf) p f)\<lparr>eo_filename := nm\<rparr>) (vdso_file p buf), io_fopen io)"

definition ElfObject_destroy :: "ElfObject \<Rightarrow> host_io \<Rightarrow> host_io" where
  "ElfObject_destroy e io =
     io_fclose (if eo_fileContent e \<noteq> 0 then io_munmap (eo_fileContent e) (eo_fileSize e) io else io)"

section \<open>Small helpers for files and buffers\<close>

text \<open>A file that cannot be opened for writing is left as it is, without an error.\<close>

definition dumpToFile ::
  "(string \<Rightarrow> bool) \<Rightarrow> string \<Rightarrow> bytes \<Rightarrow> (string \<Rightarrow> bytes option) \<Rightarrow> string \<Rightarrow> bytes option" where
  "dumpToFile writable filename content files =
     (if writable filename then files(filename := Some content) else files)"

definition fexists :: "(string \<Rightarrow> bytes option) \<Rightarrow> string \<Rightarrow> bool" where
  "fexists files filename \<longleftrightarrow> files filename \<noteq> None"

text \<open>\<^verbatim>\<open>std::search\<close> gives the end of the buffer when the string is not in it.\<close>

fun search_pos :: "'a list \<Rightarrow> 'a list \<Rightarrow> nat" where
  "search_pos [] s = 0"
| "search_pos (c # buf) s = (if take (length s) (c # buf) = s then 0 else Suc (search_pos buf s))"

definition offset :: "string \<Rightarrow> string \<Rightarrow> nat" where
  "offset buf str = search_pos buf str"

definition vector_add :: "'a::plus list \<Rightarrow> 'a list \<Rightarrow> 'a list res" where
  "vector_add a b = bindE (assertE (length a = length b)) (\<lambda>_. Inr (map2 (+) a b))"

section \<open>What is given back\<close>

lemma loadElfObject_fopen [simp]: "io_fclose (io_fopen io) = io" "io_munmap p n (io_mmap p n io) = io"
  by (simp_all add: io_fclose_def io_fopen_def io_munmap_def io_mmap_def)

text \<open>The object is the file \<open>ElfFile.loadElfFile\<close> describes: when seek and \<^verbatim>\<open>mmap\<close> succeed, both
  give the same result.\<close>

lemma loadElfObject_file:
  assumes "hc_seek h nm" and "hc_mmap h nm = Some p"
  shows "mapE (map_option eo_file) (fst (loadElfObject h nm io)) = loadElfFile (hc_content h nm) p"
  using assms
  by (auto simp: loadElfObject_def map_and_parse_def loadElfFile_def ElfObject_new_def Let_def mapE_def bindE_def
      split: option.splits sum.splits)

text \<open>A loaded file holds one stream and one mapping, and destroying it gives both back; a file that is
  missing or not ELF leaves nothing behind.\<close>

theorem loadElfObject_resources:
  assumes "loadElfObject h nm io = (Inr r, io')" and "hc_mmap h nm \<noteq> Some 0"
  shows "case r of
      None \<Rightarrow> io' = io
    | Some e \<Rightarrow> ElfObject_destroy e io' = io \<and> io_open io' = Suc (io_open io) \<and>
        io_maps io' = (getFileContent e, getFileSize e) # io_maps io"
  using assms
  by (auto simp: loadElfObject_def map_and_parse_def Let_def mapE_def bindE_def ElfObject_new_def ElfObject_destroy_def
      getFileContent_def getFileSize_def split: option.splits sum.splits if_splits)
    (auto simp: io_fopen_def io_mmap_def io_munmap_def io_fclose_def)

text \<open>Both exceptions close the stream, but the one for the class of the file leaves the mapping.\<close>

theorem unsupported_class_leaks:
  assumes "hc_content h nm = Some (ELFMAG @ cls # rest)" and "cls \<noteq> ELFCLASS64" and "hc_seek h nm"
    and "hc_mmap h nm = Some p"
  shows "loadElfObject h nm io = (Inl (ElfException ''unsupported elfclass!''), io_mmap p (Suc (4 + length rest)) io)"
proof -
  have "host8 \<lparr>hbase = p, hbytes = ELFMAG @ cls # rest\<rparr> (p + 4) = Inr cls"
    by (simp add: host8_def hread_def ELFMAG_def bread_def)
  then show ?thesis using assms
    by (simp add: loadElfObject_def map_and_parse_def ELFMAG_def io_fopen_def io_fclose_def io_mmap_def)
qed

text \<open>A file parsed from the caller's buffer is destroyed as if it had mapped it: the region is not in the
  list of mappings, and the mapping at that place, if there is one, is taken from its owner.\<close>

theorem buffer_file_unmaps:
  assumes "loadElfFileFromBuffer nm p buf io = (Inr e, io')" and "p \<noteq> 0"
  shows "ElfObject_destroy e io' = io_munmap p (length buf) io"
  using assms by (auto simp: loadElfFileFromBuffer_def ElfObject_destroy_def ElfObject_new_def mapE_def bindE_def
      io_fopen_def io_fclose_def io_munmap_def split: sum.splits)

text \<open>Every file is tagged as a 64-bit executable, kernels and modules too.\<close>

lemma type_tags:
  "loadElfObject h nm io = (Inr (Some e), io') \<Longrightarrow> getType e = ELFTYPE64 \<and> getProgramType e = ELFPROGRAMTYPEEXEC"
  by (auto simp: loadElfObject_def map_and_parse_def Let_def mapE_def bindE_def ElfObject_new_def getType_def
      getProgramType_def split: option.splits sum.splits if_splits)

section \<open>Search and sums\<close>

lemma dump_exists: "fexists (dumpToFile w nm content files) nm \<longleftrightarrow> w nm \<or> fexists files nm"
  by (simp add: fexists_def dumpToFile_def)

text \<open>The place is that of the first occurrence, or behind the buffer when there is none.\<close>

lemma search_pos_found:
  "s \<noteq> [] \<Longrightarrow> search_pos buf s < length buf \<Longrightarrow> take (length s) (drop (search_pos buf s) buf) = s"
  by (induction buf) (auto split: if_splits)

lemma search_pos_first:
  "s \<noteq> [] \<Longrightarrow> take (length s) (drop i buf) = s \<Longrightarrow> search_pos buf s \<le> i"
proof (induction buf arbitrary: i)
  case (Cons c buf)
  then show ?case by (cases i) auto
qed simp

lemma search_pos_bound: "search_pos buf s \<le> length buf"
  by (induction buf) auto

theorem offset_spec:
  assumes "str \<noteq> ''''"
  shows "offset buf str = length buf \<longleftrightarrow> (\<nexists>a b. buf = a @ str @ b)"
proof
  assume e: "offset buf str = length buf"
  show "\<nexists>a b. buf = a @ str @ b"
  proof
    assume "\<exists>a b. buf = a @ str @ b"
    then obtain a b where b: "buf = a @ str @ b" by blast
    then have "offset buf str \<le> length a"
      using search_pos_first [OF assms, of "length a" buf] by (simp add: offset_def)
    with e b assms show False by simp
  qed
next
  assume n: "\<nexists>a b. buf = a @ str @ b"
  show "offset buf str = length buf"
  proof (rule ccontr)
    assume "offset buf str \<noteq> length buf"
    then have l: "offset buf str < length buf" using search_pos_bound [of buf str] by (simp add: offset_def)
    let ?r = "drop (offset buf str) buf"
    have "buf = take (offset buf str) buf @ take (length str) ?r @ drop (length str) ?r"
      by (simp only: append_take_drop_id)
    with search_pos_found [OF assms, of buf] l n show False by (metis offset_def)
  qed
qed

lemma vector_add_length: "vector_add a b = Inr c \<Longrightarrow> length c = length a \<and> length c = length b"
  by (auto simp: vector_add_def assertE_def split: if_splits)

section \<open>The other constructors\<close>

definition SectionInfo_new :: "string \<Rightarrow> u32 \<Rightarrow> u64 \<Rightarrow> u64 \<Rightarrow> u64 \<Rightarrow> u64 \<Rightarrow> u64 \<Rightarrow> SectionInfo" where
  "SectionInfo_new nm sec off idx memidx sz flags =
     \<lparr>si_name = nm, secID = sec, si_offset = off, si_index = idx, memindex = memidx, si_size = sz, si_flags = flags\<rparr>"

definition SegmentInfo_new :: "u32 \<Rightarrow> u32 \<Rightarrow> u64 \<Rightarrow> u64 \<Rightarrow> u64 \<Rightarrow> u64 \<Rightarrow> u64 \<Rightarrow> u64 \<Rightarrow> SegmentInfo" where
  "SegmentInfo_new ty flags off vaddr paddr filesz memsz align =
     \<lparr>sg_type = ty, sg_flags = flags, sg_offset = off, sg_vaddr = vaddr, sg_paddr = paddr, sg_filesz = filesz,
      sg_memsz = memsz, sg_align = align\<rparr>"

definition ElfSymbol_default :: ElfSymbol where
  "ElfSymbol_default = \<lparr>sy_name = '''', sy_value = 0, sy_info = 0, sy_shndx = 0, sy_section = None, sy_segment = None\<rparr>"

definition ElfSymbol_new :: "string \<Rightarrow> u64 \<Rightarrow> u8 \<Rightarrow> u32 \<Rightarrow> nat option \<Rightarrow> nat option \<Rightarrow> ElfSymbol" where
  "ElfSymbol_new nm v info shndx sec seg =
     \<lparr>sy_name = nm, sy_value = v, sy_info = info, sy_shndx = shndx, sy_section = sec, sy_segment = seg\<rparr>"

text \<open>The constructor of a section and of a segment as \<^verbatim>\<open>ElfFile64\<close> calls them.\<close>

lemma section_of_new:
  "section_of m nm i s = SectionInfo_new nm (of_nat i) (sh_offset s) (hbase m + sh_offset s) (sh_addr s) (sh_size s) (sh_flags s)"
  by (simp add: section_of_def SectionInfo_new_def)

lemma segment_of_new:
  "segment_of h = SegmentInfo_new (p_type h) (p_flags h) (p_offset h) (p_vaddr h) (p_paddr h) (p_filesz h) (p_memsz h) (p_align h)"
  by (simp add: segment_of_def SegmentInfo_new_def)

end
