(* ===== verification/ModuleImages.thy ===== *)
theory ModuleImages
  imports ModuleThreads ModuleLoader Output
begin

text \<open>
  The modules the threads of \<open>ModuleThreads\<close> load are here the images \<open>ModuleLoader\<close> builds from the
  files of the host: \<^verbatim>\<open>ElfFile64::parseKernelModule\<close> of \<^verbatim>\<open>src/elffile64.cpp\<close> and
  \<^verbatim>\<open>Kernel::loadModule\<close> of \<^verbatim>\<open>src/kernel.cpp\<close>. Read as the recursive function it is
  in the source, \<^verbatim>\<open>loadModule\<close> is what a single thread does.
\<close>

section \<open>The kernel object\<close>

text \<open>The members of \<^verbatim>\<open>Kernel\<close> that its setters change: the connection to the guest, not set by
  the constructor, the directory of the trusted binaries and the task list of the task manager.\<close>

record 'v Kernel =
  kernel_vmi :: "'v option"
  kernelDirName :: string
  kernel_initTask :: "u64 option"

definition Kernel_new :: "'v Kernel" where
  "Kernel_new = \<lparr>kernel_vmi = None, kernelDirName = '''', kernel_initTask = None\<rparr>"

definition setVMIInstance :: "'v \<Rightarrow> 'v Kernel \<Rightarrow> 'v Kernel" where
  "setVMIInstance vmi k = k\<lparr>kernel_vmi := Some vmi\<rparr>"

definition setKernelDir :: "string \<Rightarrow> 'v Kernel \<times> ostream \<Rightarrow> 'v Kernel \<times> ostream" where
  "setKernelDir dirName =
     (\<lambda>(k, os). (k\<lparr>kernelDirName := dirName\<rparr>, writes [put_str ''setting kernel dir to '', put_str dirName, put_endl] os))"

definition initTaskManager :: "guest_tasks \<Rightarrow> 'v Kernel \<Rightarrow> 'v Kernel" where
  "initTaskManager g k = k\<lparr>kernel_initTask := Some (init_tasks g)\<rparr>"

section \<open>Images of module files\<close>

definition ElfModuleLoader_new :: "ElfFile64 \<Rightarrow> string \<Rightarrow> ElfModuleLoader" where
  "ElfModuleLoader_new f nm =
     \<lparr>elffile = f, textSegment = SectionInfo_default, dataSection = SectionInfo_default,
      bssSection = SectionInfo_default, roDataSection = SectionInfo_default, jumpTable = [], roData = [],
      textSegmentContent = [], dataSegmentContent = [], jumpEntries = [], jumpDestinations = {}, smpOffsets = {},
      modName = nm\<rparr>"

text \<open>
  The symbols \<^verbatim>\<open>initText\<close> adds to the store of the kernel are part of its result
  (\<open>store_op\<close>) and are dropped here: the store a module's relocations look symbols up in is a
  parameter of the surroundings of that module (\<open>me_symbol\<close>), which stands for the store at the time the
  module is built. So the theorems about the map of modules hold for any contents of the store, and do not
  say what the store contains.
\<close>

definition parseKernelModule :: "modload_env \<Rightarrow> string \<Rightarrow> ElfFile64 \<Rightarrow> ElfModuleLoader res" where
  "parseKernelModule env nm f =
     initImage (\<lambda>l. mapE (fst \<circ> snd) (ElfModuleLoader_initText env l)) (ElfModuleLoader_initData env)
       (ElfModuleLoader_new f nm)"

text \<open>The host's files and, for every module, the surroundings in which it is built.\<close>

record module_host =
  mh_find :: "string \<Rightarrow> string \<Rightarrow> string \<Rightarrow> string list \<Rightarrow> string"
  mh_dir :: string
  mh_content :: "string \<Rightarrow> bytes option"
  mh_base :: "string \<Rightarrow> u64"
  mh_env :: "string \<Rightarrow> modload_env"

definition module_path :: "module_host \<Rightarrow> string \<Rightarrow> string" where
  "module_path h nm = findModuleFile (mh_find h) (mh_dir h) nm"

definition module_elf :: "module_host \<Rightarrow> string \<Rightarrow> ElfFile64 res" where
  "module_elf h nm =
     bindE (loadElfFile (mh_content h (module_path h nm)) (mh_base h (module_path h nm))) (\<lambda>f. case f of
        None \<Rightarrow> Inl NullDeref
      | Some elf \<Rightarrow> Inr elf)"

text \<open>The dependencies \<^verbatim>\<open>initText\<close> loads first. Where they cannot be read nothing is loaded and
  building the image fails.\<close>

definition module_depends :: "module_host \<Rightarrow> string \<Rightarrow> string list option" where
  "module_depends h nm =
     (if module_path h nm = '''' then None
      else Some (case bindE (module_elf h nm) (\<lambda>f. loadDependencies (ElfModuleLoader_new f nm)) of
        Inr (deps, l) \<Rightarrow> deps
      | Inl e \<Rightarrow> []))"

definition image_env :: "module_host \<Rightarrow> ElfModuleLoader module_env" where
  "image_env h = \<lparr>dependencies = module_depends h,
     build = (\<lambda>nm. bindE (module_elf h nm) (parseKernelModule (mh_env h nm) nm))\<rparr>"

section \<open>The recursive function\<close>

text \<open>
  \<^verbatim>\<open>Kernel::loadModule\<close> without other threads: an entry that is null stays null, so the loop
  that waits for it does not end. The bound is the depth of the calls.
\<close>

fun loadModule :: "nat \<Rightarrow> 'm module_env \<Rightarrow> string \<Rightarrow> (string \<rightharpoonup> 'm option) \<Rightarrow> (string \<rightharpoonup> 'm option) res" where
  "loadModule 0 env nm m = Inl DoesNotReturn"
| "loadModule (Suc k) env nm m =
     (let n = replace_dash nm in
      case m n of
        Some (Some x) \<Rightarrow> Inr m
      | Some None \<Rightarrow> Inl DoesNotReturn
      | None \<Rightarrow>
          (case dependencies env n of
             None \<Rightarrow> Inl AssertFailed
           | Some ds \<Rightarrow>
               bindE (foldE (loadModule k env) ds (m(n \<mapsto> None))) (\<lambda>m1.
               mapE (\<lambda>x. m1(n \<mapsto> Some x)) (build env n))))"

text \<open>\<^verbatim>\<open>loadAllModules\<close> with one thread: the names in their order.\<close>

definition loadAllModules :: "nat \<Rightarrow> 'm module_env \<Rightarrow> string list \<Rightarrow> (string \<rightharpoonup> 'm option) res" where
  "loadAllModules k env names = foldE (loadModule k env) names Map.empty"

section \<open>One thread runs the recursive function\<close>

definition one_thread :: "string list \<Rightarrow> (string \<rightharpoonup> 'm option) \<Rightarrow> frame list \<Rightarrow> 'm modules" where
  "one_thread q m fs = \<lparr>ms_queue = q, ms_map = m, ms_threads = [Running fs]\<rparr>"

definition runs :: "'m module_env \<Rightarrow> 'm modules \<Rightarrow> 'm modules \<Rightarrow> bool" where
  "runs env s s' \<longleftrightarrow> (\<exists>j. run_schedule env (replicate j 0) s = Inr s')"

lemma run_schedule_append:
  "run_schedule env (a @ b) s = bindE (run_schedule env a s) (run_schedule env b)"
proof (induction a arbitrary: s)
  case (Cons i a)
  then show ?case by (auto simp: bindE_def split: thread.split sum.split)
qed simp

lemma runs_refl [intro]: "runs env s s"
  unfolding runs_def by (rule exI [of _ 0]) simp

lemma runs_trans [trans]: "runs env s s' \<Longrightarrow> runs env s' s'' \<Longrightarrow> runs env s s''"
proof -
  assume "runs env s s'" "runs env s' s''"
  then obtain i j where "run_schedule env (replicate i 0) s = Inr s'" "run_schedule env (replicate j 0) s' = Inr s''"
    by (auto simp: runs_def)
  then have "run_schedule env (replicate (i + j) 0) s = Inr s''"
    by (simp add: replicate_add run_schedule_append)
  then show ?thesis unfolding runs_def by blast
qed

lemma runs_step:
  assumes "thread_step env fs (one_thread q m fs) = Inr (Running fs', one_thread q' m' fs)"
  shows "runs env (one_thread q m fs) (one_thread q' m' fs')"
  unfolding runs_def using assms by (intro exI [of _ 1]) (simp add: one_thread_def)

lemma runs_frame:
  "frame_step env m f = Inr (m', gs) \<Longrightarrow> runs env (one_thread q m (f # r)) (one_thread q m' (gs @ r))"
  by (rule runs_step) (simp add: thread_step_def one_thread_def)

lemma runs_dependencies:
  assumes step: "\<And>d m m' r. d \<in> set ds \<Longrightarrow> load d m = Inr m' \<Longrightarrow> runs env (one_thread q m (Enter d # r)) (one_thread q m' r)"
    and "foldE load ds m = Inr m'"
  shows "runs env (one_thread q m (Loading n ds # r)) (one_thread q m' (Loading n [] # r))"
  using assms
proof (induction ds arbitrary: m)
  case Nil
  then show ?case by auto
next
  case (Cons d ds)
  from Cons.prems(2) obtain m1 where m1: "load d m = Inr m1" "foldE load ds m1 = Inr m'"
    by (auto simp: bindE_def split: sum.splits)
  have "runs env (one_thread q m (Loading n (d # ds) # r)) (one_thread q m (Enter d # Loading n ds # r))"
    using runs_frame [of env m "Loading n (d # ds)" m "[Enter d, Loading n ds]" q r] by simp
  also have "runs env \<dots> (one_thread q m1 (Loading n ds # r))" by (rule Cons.prems(1) [OF _ m1(1)]) simp
  also have "runs env \<dots> (one_thread q m' (Loading n [] # r))"
    using Cons.IH [OF Cons.prems(1) m1(2)] by simp
  finally show ?case .
qed

lemma loadModule_runs:
  "loadModule k env nm m = Inr m' \<Longrightarrow> runs env (one_thread q m (Enter nm # r)) (one_thread q m' r)"
proof (induction k arbitrary: nm m m' r)
  case (Suc k)
  let ?n = "replace_dash nm"
  show ?case
  proof (cases "m ?n")
    case None
    with Suc.prems obtain ds m1 x where d: "dependencies env ?n = Some ds"
      and f: "foldE (loadModule k env) ds (m(?n \<mapsto> None)) = Inr m1"
      and b: "build env ?n = Inr x" "m' = m1(?n \<mapsto> Some x)"
      by (auto simp: Let_def bindE_def mapE_def split: option.splits sum.splits)
    have "runs env (one_thread q m (Enter nm # r)) (one_thread q (m(?n \<mapsto> None)) (Loading ?n ds # r))"
      using runs_frame [of env m "Enter nm" "m(?n \<mapsto> None)" "[Loading ?n ds]" q r] None d by (simp add: Let_def)
    also have "runs env \<dots> (one_thread q m1 (Loading ?n [] # r))"
      by (rule runs_dependencies [OF Suc.IH f])
    also have "runs env \<dots> (one_thread q m' r)"
      using runs_frame [of env m1 "Loading ?n []" m' "[]" q r] b by simp
    finally show ?thesis .
  next
    case (Some o)
    with Suc.prems have "m' = m" "\<exists>x. m ?n = Some (Some x)" by (auto simp: Let_def split: option.splits)
    with runs_frame [of env m "Enter nm" m "[]" q r] show ?thesis by (auto simp: Let_def)
  qed
qed simp

lemma loadAll_runs:
  "foldE (loadModule k env) names m = Inr m' \<Longrightarrow> runs env (one_thread names m []) (one_thread [] m' [])"
proof (induction names arbitrary: m)
  case Nil
  then show ?case by auto
next
  case (Cons nm q)
  then obtain m1 where m1: "loadModule k env nm m = Inr m1" "foldE (loadModule k env) q m1 = Inr m'"
    by (auto simp: bindE_def split: sum.splits)
  have "runs env (one_thread (nm # q) m []) (one_thread q m [Enter nm])"
    by (rule runs_step) (simp add: thread_step_def one_thread_def)
  also have "runs env \<dots> (one_thread q m1 [])" by (rule loadModule_runs [OF m1(1)])
  also have "runs env \<dots> (one_thread [] m' [])" by (rule Cons.IH [OF m1(2)])
  finally show ?case .
qed

text \<open>With one processor the thread of \<^verbatim>\<open>loadAllModules\<close> ends with the modules the recursive
  function loads when it is called for the names in their order.\<close>

theorem one_processor_refines:
  assumes "loadAllModules k env names = Inr m"
  shows "\<exists>schedule. run_schedule env schedule (load_start 1 names) =
    Inr \<lparr>ms_queue = [], ms_map = m, ms_threads = [Finished]\<rparr>"
proof -
  have "runs env (one_thread names Map.empty []) (one_thread [] m [])"
    using assms unfolding loadAllModules_def by (rule loadAll_runs)
  then obtain j where j: "run_schedule env (replicate j 0) (one_thread names Map.empty []) = Inr (one_thread [] m [])"
    by (auto simp: runs_def)
  have s: "load_start 1 names = one_thread names Map.empty []" by (simp add: load_start_def one_thread_def)
  have "run_schedule env (replicate j 0 @ [0]) (load_start 1 names) =
      Inr \<lparr>ms_queue = [], ms_map = m, ms_threads = [Finished]\<rparr>"
    unfolding run_schedule_append s j by (simp add: one_thread_def thread_step_def)
  then show ?thesis by blast
qed

section \<open>Acyclic dependencies\<close>

definition extends :: "(string \<rightharpoonup> 'm option) \<Rightarrow> (string \<rightharpoonup> 'm option) \<Rightarrow> bool" where
  "extends m m' \<longleftrightarrow> (\<forall>y. m' y = Some None \<longleftrightarrow> m y = Some None) \<and> (\<forall>y x. m y = Some (Some x) \<longrightarrow> m' y = Some (Some x))"

lemma extends_refl [simp]: "extends m m"
  by (simp add: extends_def)

lemma extends_trans: "extends m m' \<Longrightarrow> extends m' m'' \<Longrightarrow> extends m m''"
  by (simp add: extends_def)

lemma extends_publish: "m n = None \<Longrightarrow> extends (m(n \<mapsto> None)) m1 \<Longrightarrow> extends m (m1(n \<mapsto> Some x))"
  unfolding extends_def by (metis fun_upd_apply option.distinct(1) option.inject)

lemma fold_succeeds:
  assumes "\<And>d m. d \<in> set ds \<Longrightarrow> (\<forall>x. rank x < R \<longrightarrow> m x \<noteq> Some None) \<Longrightarrow>
      \<exists>m'. load d m = Inr m' \<and> (\<exists>x. m' (replace_dash d) = Some (Some x)) \<and> extends m m'"
    and "\<forall>x. rank x < (R :: nat) \<longrightarrow> m x \<noteq> Some None"
  shows "\<exists>m'. foldE load ds m = Inr m' \<and> (\<forall>d \<in> set ds. \<exists>x. m' (replace_dash d) = Some (Some x)) \<and> extends m m'"
  using assms
proof (induction ds arbitrary: m)
  case (Cons d ds)
  from Cons.prems(1) [OF _ Cons.prems(2), of d] obtain m1 x where
    m1: "load d m = Inr m1" "m1 (replace_dash d) = Some (Some x)" "extends m m1" by auto
  from m1(3) Cons.prems(2) have free: "\<forall>x. rank x < R \<longrightarrow> m1 x \<noteq> Some None" by (simp add: extends_def)
  have "\<exists>m'. foldE load ds m1 = Inr m' \<and> (\<forall>d \<in> set ds. \<exists>x. m' (replace_dash d) = Some (Some x)) \<and> extends m1 m'"
    by (rule Cons.IH [OF Cons.prems(1) free]) simp_all
  then obtain m' where m': "foldE load ds m1 = Inr m'" "\<forall>d \<in> set ds. \<exists>x. m' (replace_dash d) = Some (Some x)"
    "extends m1 m'" by blast
  from m1(2) m'(3) have "m' (replace_dash d) = Some (Some x)" by (simp add: extends_def)
  with m1 m' extends_trans [OF m1(3) m'(3)] show ?case by auto
qed simp

lemma loadModule_succeeds:
  assumes "loadable env U" and rank: "\<And>y x. needs env y x \<Longrightarrow> rank x < (rank y :: nat)"
  shows "replace_dash nm \<in> U \<Longrightarrow> rank (replace_dash nm) < k \<Longrightarrow>
    (\<forall>x. rank x \<le> rank (replace_dash nm) \<longrightarrow> m x \<noteq> Some None) \<Longrightarrow>
    \<exists>m'. loadModule k env nm m = Inr m' \<and> (\<exists>x. m' (replace_dash nm) = Some (Some x)) \<and> extends m m'"
proof (induction k arbitrary: nm m)
  case (Suc k)
  let ?n = "replace_dash nm"
  show ?case
  proof (cases "m ?n")
    case None
    from assms(1) Suc.prems(1) obtain ds b where d: "dependencies env ?n = Some ds" "replace_dash ` set ds \<subseteq> U"
      "build env ?n = Inr b" by (auto simp: loadable_def)
    have lower: "rank (replace_dash d) < rank ?n" if "d \<in> set ds" for d
      by (rule rank) (use d(1) that in \<open>auto simp: needs_def\<close>)
    have "\<exists>m'. foldE (loadModule k env) ds (m(?n \<mapsto> None)) = Inr m' \<and>
        (\<forall>d \<in> set ds. \<exists>x. m' (replace_dash d) = Some (Some x)) \<and> extends (m(?n \<mapsto> None)) m'"
    proof (rule fold_succeeds)
      fix e and u :: "string \<rightharpoonup> 'a option"
      assume e: "e \<in> set ds" and "\<forall>x. rank x < rank ?n \<longrightarrow> u x \<noteq> Some None"
      with lower [OF e] have "\<forall>x. rank x \<le> rank (replace_dash e) \<longrightarrow> u x \<noteq> Some None" by auto
      then show "\<exists>m'. loadModule k env e u = Inr m' \<and> (\<exists>x. m' (replace_dash e) = Some (Some x)) \<and> extends u m'"
        using Suc.IH [of e u] lower [OF e] e d(2) Suc.prems(2) by auto
    next
      show "\<forall>x. rank x < rank ?n \<longrightarrow> (m(?n \<mapsto> None)) x \<noteq> Some None" using Suc.prems(3) by auto
    qed
    then obtain m1 where m1: "foldE (loadModule k env) ds (m(?n \<mapsto> None)) = Inr m1" "extends (m(?n \<mapsto> None)) m1"
      by blast
    from extends_publish [OF None m1(2), of b] None d m1(1) show ?thesis by (simp add: Let_def mapE_def)
  next
    case (Some v)
    with Suc.prems(3) obtain x where "m ?n = Some (Some x)" by (cases v) auto
    then show ?thesis by (simp add: Let_def)
  qed
qed simp

text \<open>With acyclic dependencies the recursion is bounded, and then every module asked for is loaded.\<close>

theorem loadAllModules_returns:
  assumes "loadable env U" and "replace_dash ` set names \<subseteq> U"
    and rank: "\<And>y x. needs env y x \<Longrightarrow> rank x < (rank y :: nat)"
  shows "\<exists>k m. loadAllModules k env names = Inr m \<and> (\<forall>q \<in> set names. \<exists>x. m (replace_dash q) = Some (Some x))"
proof -
  let ?k = "Suc (Max (rank ` U))"
  have fin: "finite U" using assms(1) by (simp add: loadable_def)
  have "\<exists>m'. foldE (loadModule ?k env) names Map.empty = Inr m' \<and>
      (\<forall>q \<in> set names. \<exists>x. m' (replace_dash q) = Some (Some x)) \<and> extends Map.empty m'"
  proof (rule fold_succeeds)
    fix q and u :: "string \<rightharpoonup> 'a option"
    assume q: "q \<in> set names" and free: "\<forall>x. rank x < ?k \<longrightarrow> u x \<noteq> Some None"
    show "\<exists>m'. loadModule ?k env q u = Inr m' \<and> (\<exists>x. m' (replace_dash q) = Some (Some x)) \<and> extends u m'"
    proof (rule loadModule_succeeds [OF assms(1) rank])
      show "replace_dash q \<in> U" using q assms(2) by auto
      then have "rank (replace_dash q) \<le> Max (rank ` U)" using fin by simp
      then show "rank (replace_dash q) < ?k" by simp
      with free show "\<forall>x. rank x \<le> rank (replace_dash q) \<longrightarrow> u x \<noteq> Some None" by auto
    qed
  qed simp
  then show ?thesis unfolding loadAllModules_def by blast
qed

section \<open>What is loaded\<close>

text \<open>Whatever the interleaving, a loaded module is the image of the file found for its name, built with
  that name.\<close>

theorem loaded_is_image:
  assumes "load_reachable (image_env h) cpus names s" and "ms_map s n = Some (Some l)"
  shows "\<exists>f. module_elf h n = Inr f \<and> parseKernelModule (mh_env h n) n f = Inr l"
proof -
  from built_reachable [OF assms(1)] assms(2) have "build (image_env h) n = Inr l" by blast
  then show ?thesis by (auto simp: image_env_def bindE_def split: sum.splits)
qed

section \<open>An example\<close>

definition ex_two_env :: "string module_env" where
  "ex_two_env = \<lparr>dependencies = (\<lambda>nm. if nm = ''a_b'' then Some [''c''] else if nm = ''c'' then Some [] else None),
     build = (\<lambda>nm. Inr (nm @ ''.ko''))\<rparr>"

theorem one_processor_refines_witness:
  "\<exists>schedule. run_schedule ex_two_env schedule (load_start 1 [''a-b'', ''c'']) =
     Inr \<lparr>ms_queue = [], ms_map = [''a_b'' \<mapsto> Some ''a_b.ko'', ''c'' \<mapsto> Some ''c.ko''], ms_threads = [Finished]\<rparr>"
proof (rule one_processor_refines [of 2 ex_two_env "[''a-b'', ''c'']"])
  have "loadAllModules 2 ex_two_env [''a-b'', ''c''] =
      Inr (Map.empty(''a_b'' \<mapsto> None, ''c'' \<mapsto> None, ''c'' \<mapsto> Some ''c.ko'', ''a_b'' \<mapsto> Some ''a_b.ko''))"
    by (simp add: loadAllModules_def ex_two_env_def replace_dash_def mapE_def numeral_2_eq_2)
  then show "loadAllModules 2 ex_two_env [''a-b'', ''c''] =
      Inr [''a_b'' \<mapsto> Some ''a_b.ko'', ''c'' \<mapsto> Some ''c.ko'']"
    by (simp add: fun_upd_twist)
qed

end
