(* ===== verification/ModuleShape.thy ===== *)
theory ModuleShape
  imports ModuleImages
begin

text \<open>
  What the image of a module looks like, whatever its file: the steps of \<^verbatim>\<open>initText\<close> and
  \<^verbatim>\<open>initData\<close> keep the name, and the text is a whole number of pages.
\<close>

section \<open>What the steps keep\<close>

definition named :: "string \<Rightarrow> ElfModuleLoader \<Rightarrow> bool" where
  "named nm l \<longleftrightarrow> modName l = nm"

named_theorems keeps_name \<open>steps that keep the name of a module\<close>

lemma named_updates [simp]:
  "named nm (set_loader_mem m l) = named nm l"
  "named nm (append_text bs l) = named nm l"
  "named nm (textSegmentContent_update f l) = named nm l"
  "named nm (textSegment_update f1 l) = named nm l"
  "named nm (elffile_update f2 l) = named nm l"
  "named nm (roData_update f3 l) = named nm l"
  "named nm (dataSection_update f1 l) = named nm l"
  "named nm (bssSection_update f1 l) = named nm l"
  "named nm (roDataSection_update f1 l) = named nm l"
  "named nm (smpOffsets_update f4 l) = named nm l"
  by (simp_all add: named_def set_loader_mem_def append_text_def)

lemma loadDependencies_named [keeps_name]:
  "loadDependencies l = Inr (deps, l') \<Longrightarrow> named nm l \<Longrightarrow> named nm l'"
  by (auto simp: loadDependencies_def Let_def mapE_def bindE_def split: sum.splits if_splits prod.splits)

lemma mcount_site_named: "mcount_site st p l = Inr l' \<Longrightarrow> named nm l \<Longrightarrow> named nm l'"
  by (auto simp: mcount_site_def bindE_Inr_iff)

lemma applyMcount_named [keeps_name]: "applyMcount info st l = Inr l' \<Longrightarrow> named nm l \<Longrightarrow> named nm l'"
  unfolding applyMcount_def by (rule foldE_invariant) (auto intro: mcount_site_named)

lemma alt_step_named: "alt_step kind cs st altrepl p s = Inr s' \<Longrightarrow> named nm (snd s) \<Longrightarrow> named nm (snd s')"
  by (cases s) (auto simp: alt_step_def bindE_Inr_iff Let_def split: if_splits)

lemma applyAltinstr_named [keeps_name]:
  assumes "applyAltinstr kind upd caps st buf l = Inr l'" and "named nm l"
  shows "named nm l'"
proof -
  have "named nm (snd s')" if "foldE (alt_step kind cs st altrepl) ps (buf, l) = Inr s'" for cs altrepl ps s'
    using that by (rule foldE_invariant) (use assms(2) alt_step_named in auto)
  with assms show ?thesis
    by (auto simp: applyAltinstr_def bindE_Inr_iff mapE_def split: if_splits option.splits)
qed

lemma applyParainstr_named [keeps_name]:
  "applyParainstr native st buf l = Inr l' \<Longrightarrow> named nm l \<Longrightarrow> named nm l'"
  by (auto simp: applyParainstr_def bindE_Inr_iff mapE_def split: if_splits)

lemma smp_step_named: "smp_step lock add info p l = Inr l' \<Longrightarrow> named nm l \<Longrightarrow> named nm l'"
  by (auto simp: smp_step_def bindE_Inr_iff Let_def split: if_splits)

lemma applySmpLocks_named [keeps_name]:
  assumes "applySmpLocks upd caps l = Inr l'" and "named nm l"
  shows "named nm l'"
proof -
  have "named nm u" if "foldE (smp_step lock add info) ps l = Inr u" for lock add info ps u
    using that by (rule foldE_invariant) (use assms(2) smp_step_named in auto)
  with assms show ?thesis by (auto simp: applySmpLocks_def bindE_Inr_iff split: if_splits option.splits)
qed

lemma patch_module_named [keeps_name]:
  assumes "patch_module env l = Inr l'" and "named nm l"
  shows "named nm l'"
proof -
  from assms(1) obtain upd l1 l2 where
    a: "applyAltinstr ModuleLoader upd (me_caps env) (me_paravirt env) (me_insnbuf env) l = Inr l1" and
    p: "applyParainstr (me_native env) (me_paravirt env) (me_insnbuf env) l1 = Inr l2" and
    s: "applySmpLocks upd (me_caps env) l2 = Inr l'"
    by (auto simp: patch_module_def Let_def bindE_Inr_iff)
  show ?thesis by (rule applySmpLocks_named [OF s applyParainstr_named [OF p applyAltinstr_named [OF a assms(2)]]])
qed

lemma exec_step_named: "exec_step i l = Inr l' \<Longrightarrow> named nm l \<Longrightarrow> named nm l'"
  by (auto simp: exec_step_def bindE_Inr_iff Let_def mapE_def split: if_splits)

lemma rodata_step_named: "module_rodata_step i l = Inr l' \<Longrightarrow> named nm l \<Longrightarrow> named nm l'"
  by (auto simp: module_rodata_step_def bindE_Inr_iff Let_def mapE_def split: if_splits)

lemma initData_named [keeps_name]:
  assumes "ElfModuleLoader_initData env l = Inr l'" and "named nm l"
  shows "named nm l'"
proof -
  from assms(1) obtain l1 xs data bss rod where
    f: "foldE module_rodata_step xs (l\<lparr>dataSection := data, bssSection := bss, roDataSection := rod\<rparr>) = Inr l1"
    and l': "l' = l1\<lparr>roDataSection := (roDataSection l1)\<lparr>si_size := of_nat (length (roData l1))\<rparr>\<rparr>"
    by (auto simp: ElfModuleLoader_initData_def bindE_Inr_iff Let_def)
  from f have "named nm l1" by (rule foldE_invariant) (use assms(2) rodata_step_named in auto)
  then show ?thesis by (simp add: l')
qed
section \<open>The length of the text\<close>

lemma add_nops_length: "add_nops t buf pos n = Inr buf' \<Longrightarrow> length buf' = length buf"
proof (induction t buf pos n arbitrary: buf' rule: add_nops.induct)
  case (1 t buf pos n)
  show ?case
  proof (cases "0 < n")
    case True
    let ?k = "min (unat n) ASM_NOP_MAX"
    from 1(2) True obtain x b where x: "nop_read t ?k ?k = Inr x" and b: "bwrite buf pos x = Inr b"
      and rest: "add_nops t b (pos + ?k) (n - of_nat ?k) = Inr buf'"
      by (subst (asm) add_nops.simps) (auto simp: Let_def bindE_Inr_iff)
    from 1(1) [OF True refl x b rest] length_bwrite [OF b] show ?thesis by simp
  next
    case False
    with 1(2) show ?thesis by (subst (asm) add_nops.simps) simp
  qed
qed

lemma patcher_nops_length: "patcher_nops st buf pos n = Inr buf' \<Longrightarrow> length buf' = length buf"
  by (auto simp: patcher_nops_def bindE_Inr_iff add_nops_length split: if_splits)

lemma applyMcount_length:
  assumes "applyMcount info st l = Inr l'"
  shows "length (textSegmentContent l') = length (textSegmentContent l)"
  using assms unfolding applyMcount_def
  by (rule foldE_invariant) (auto simp: mcount_site_def bindE_Inr_iff patcher_nops_length)

lemma fill_up: "0 < p \<Longrightarrow> n + (p - n mod p) = (n div p + 1) * (p :: nat)"
proof -
  assume p: "0 < p"
  have "n + (p - n mod p) = n div p * p + (n mod p + (p - n mod p))" by (metis add.assoc div_mult_mod_eq)
  also have "n mod p + (p - n mod p) = p" using mod_less_divisor [OF p, of n] by simp
  finally show ?thesis by simp
qed

lemma fill_page_pages:
  assumes "fill_page PAGE_SIZE v = Inr c"
  shows "length c = (length v div 0x1000 + 1) * 0x1000"
proof -
  let ?n = "0x1000 - length v mod 0x1000"
  have "unat (of_nat ?n :: u64) = ?n" by (rule unat_of_nat_eq) (simp add: less_le_trans [of _ "0x1001"])
  with append_fill_Inr assms have "c = v @ replicate ?n 0"
    unfolding fill_page_def page_fill_def PAGE_SIZE_def by metis
  then show ?thesis using fill_up [of "0x1000" "length v"] by (simp only: length_append length_replicate)
qed

lemma rodata_step_text: "module_rodata_step i l = Inr l' \<Longrightarrow> textSegmentContent l' = textSegmentContent l"
  by (auto simp: module_rodata_step_def bindE_Inr_iff Let_def mapE_def split: if_splits)

lemma initData_text:
  assumes "ElfModuleLoader_initData env l = Inr l'"
  shows "textSegmentContent l' = textSegmentContent l"
proof -
  from assms obtain l1 xs data bss rod where
    f: "foldE module_rodata_step xs (l\<lparr>dataSection := data, bssSection := bss, roDataSection := rod\<rparr>) = Inr l1"
    and l': "l' = l1\<lparr>roDataSection := (roDataSection l1)\<lparr>si_size := of_nat (length (roData l1))\<rparr>\<rparr>"
    by (auto simp: ElfModuleLoader_initData_def bindE_Inr_iff Let_def)
  from f have "textSegmentContent l1 = textSegmentContent l"
    by (rule foldE_invariant) (auto simp: rodata_step_text)
  then show ?thesis by (simp add: l')
qed

text \<open>The patched text section and the executable sections behind it, before they are padded.\<close>

lemma initText_shape:
  assumes "ElfModuleLoader_initText env l0 = Inr (deps, l, ops)" and "named nm l0"
  shows "named nm l \<and> (\<exists>raw :: bytes. length (textSegmentContent l) = (length raw div 0x1000 + 1) * 0x1000)"
proof -
  from assms(1) obtain l1 f ts l2 bs xs l3 c info where
    l1: "loadDependencies l0 = Inr (deps, l1)" and
    l2: "patch_module env (l1\<lparr>elffile := f, textSegment := ts\<rparr>) = Inr l2" and
    l3: "foldE exec_step xs (l2\<lparr>textSegmentContent := bs\<rparr>) = Inr l3" and
    c: "fill_page PAGE_SIZE (textSegmentContent l3) = Inr c" and
    l: "applyMcount info (me_paravirt env) (l3\<lparr>textSegmentContent := c\<rparr>) = Inr l"
    by (auto simp: ElfModuleLoader_initText_def bindE_Inr_iff mapE_def)
  from loadDependencies_named [OF l1 assms(2)] have "named nm (l1\<lparr>elffile := f, textSegment := ts\<rparr>)" by simp
  with l2 have "named nm l2" by (rule patch_module_named)
  then have s: "named nm (l2\<lparr>textSegmentContent := bs\<rparr>)" by simp
  have "named nm l3" using l3 s exec_step_named by (rule foldE_invariant)
  then have "named nm l" using applyMcount_named [OF l] by simp
  moreover have "length (textSegmentContent l) = (length (textSegmentContent l3) div 0x1000 + 1) * 0x1000"
    using applyMcount_length [OF l] fill_page_pages [OF c] by simp
  ultimately show ?thesis by blast
qed

lemma parseKernelModule_shape:
  assumes "parseKernelModule env nm f = Inr l"
  shows "modName l = nm \<and> (\<exists>raw :: bytes. length (textSegmentContent l) = (length raw div 0x1000 + 1) * 0x1000)"
proof -
  from assms obtain deps l1 ops where t: "ElfModuleLoader_initText env (ElfModuleLoader_new f nm) = Inr (deps, l1, ops)"
    and d: "ElfModuleLoader_initData env l1 = Inr l"
    by (auto simp: parseKernelModule_def initImage_def bindE_Inr_iff mapE_def)
  have "named nm (ElfModuleLoader_new f nm)" by (simp add: named_def ElfModuleLoader_new_def)
  from initText_shape [OF t this] show ?thesis
    using initData_named [OF d] initData_text [OF d] by (auto simp: named_def)
qed

text \<open>C28: The image of a module has the module's name, and its text is at least one page and a whole
  number of pages.\<close>

theorem module_image_shape:
  assumes "parseKernelModule env nm f = Inr l"
  shows "modName l = nm \<and> 0x1000 \<le> length (textSegmentContent l) \<and> 0x1000 dvd length (textSegmentContent l)"
proof -
  from parseKernelModule_shape [OF assms] obtain raw where n: "modName l = nm"
    and len: "length (textSegmentContent l) = (length (raw :: bytes) div 0x1000 + 1) * 0x1000" by blast
  have "0x1000 dvd length (textSegmentContent l)" unfolding len by (rule dvd_triv_right)
  moreover have "0x1000 \<le> length (textSegmentContent l)" unfolding len by simp
  ultimately show ?thesis using n by simp
qed

section \<open>An example\<close>

text \<open>A file without section headers in its count; the header the alignment of \<^verbatim>\<open>.bss\<close> is read from
  follows the file header. Its text is four bytes.\<close>

definition ex_text_section :: SectionInfo where
  "ex_text_section = (ex_named_section ''.text'')\<lparr>si_index := 0x10000, si_size := 4\<rparr>"

definition ex_shape_file :: ElfFile64 where
  "ex_shape_file = ex_module_file (replicate 64 0 @ ex_ro_shdr)
     (ex_text_section # map ex_named_section [''.modinfo'', ''.altinstructions'', ''.parainstructions'', ''.smp_locks'',
       ''__mcount_loc'', ''.data'', ''.bss'', ''.note.gnu.build-id''])"

lemma ex_shape_sections:
  "findSectionWithName ex_shape_file ''.modinfo'' = Inr (ex_named_section ''.modinfo'')"
  "findSectionWithName ex_shape_file ''.altinstructions'' = Inr (ex_named_section ''.altinstructions'')"
  "findSectionWithName ex_shape_file ''.parainstructions'' = Inr (ex_named_section ''.parainstructions'')"
  "findSectionWithName ex_shape_file ''.smp_locks'' = Inr (ex_named_section ''.smp_locks'')"
  by code_simp+

lemma ex_shape_located:
  "located_section (me_instance ex_modload_env) ex_shape_file ''.text'' = Inr ex_text_section"
  "located_section (me_instance ex_modload_env) ex_shape_file ''__mcount_loc'' = Inr (ex_named_section ''__mcount_loc'')"
  "located_section (me_instance ex_modload_env) ex_shape_file ''.data'' =
     Inr ((ex_named_section ''.data'')\<lparr>memindex := 0xffffffffa0003000\<rparr>)"
  "located_section (me_instance ex_modload_env) ex_shape_file ''.bss'' =
     Inr ((ex_named_section ''.bss'')\<lparr>memindex := 0xffffffffa0002180\<rparr>)"
  "located_section (me_instance ex_modload_env) ex_shape_file ''.note.gnu.build-id'' =
     Inr (ex_named_section ''.note.gnu.build-id'')"
  by code_simp+

lemma ex_shape_text: "section_bytes (mem ex_shape_file) ex_text_section = Inr [0, 0, 0, 0]"
  by code_simp

lemma ex_shape_ehdr: "\<exists>e. ehdr (mem ex_shape_file) = Inr e \<and> e_type e = 0 \<and> e_shnum e = 0"
proof -
  have "mapE (\<lambda>e. (e_type e, e_shnum e)) (ehdr (mem ex_shape_file)) = Inr (0, 0)" by code_simp
  then show ?thesis by (auto simp: mapE_def bindE_Inr_iff)
qed

lemma ex_shape_parses: "\<exists>l. parseKernelModule ex_modload_env ''snd'' ex_shape_file = Inr l"
proof -
  obtain e where e: "ehdr (mem ex_shape_file) = Inr e" "e_type e = 0" "e_shnum e = 0" using ex_shape_ehdr by blast
  let ?l0 = "ElfModuleLoader_new ex_shape_file ''snd''"
  have el: "elffile ?l0 = ex_shape_file" by (simp add: ElfModuleLoader_new_def)
  have index: "si_index (ex_named_section nm) = 0" "si_size (ex_named_section nm) = 0" for nm
    by (simp_all add: ex_named_section_def SectionInfo_default_def)
  have dep: "loadDependencies ?l0 = Inr ([], ?l0)"
    by (simp add: loadDependencies_def el ex_shape_sections index)
  have rel: "applyRelocations env ex_shape_file = Inr ex_shape_file" for env
    by (simp add: applyRelocations_def e elf_consts)
  let ?l1 = "?l0\<lparr>elffile := ex_shape_file, textSegment := ex_text_section\<rparr>"
  have patch: "patch_module ex_modload_env ?l1 = Inr ?l1"
    by (simp add: patch_module_def applyAltinstr_def applyParainstr_def applySmpLocks_def ex_shape_sections index Let_def)
  have fill: "\<exists>c. fill_page PAGE_SIZE v = Inr c" if "length v = 4" for v :: bytes
    using that by (simp add: fill_page_def append_fill_def page_fill_def PAGE_SIZE_def max_vector_def)
  then obtain c where c: "fill_page PAGE_SIZE [0, 0, 0, 0] = Inr c" by fastforce
  have none: "applyMcount (ex_named_section nm) st l = Inr l" for nm st and l :: ElfModuleLoader
    by (simp add: applyMcount_def pointers_def index)
  have n: "getNrOfSections ex_shape_file = Inr 0" by (simp add: getNrOfSections_def e mapE_def)
  have sym: "addSymbolsToStore ex_shape_file base = Inr []" for base by (simp add: addSymbolsToStore_def n)
  let ?l2 = "?l1\<lparr>textSegmentContent := [0, 0, 0, 0], textSegmentContent := c\<rparr>"
  have t: "ElfModuleLoader_initText ex_modload_env ?l0 = Inr ([], ?l2, [])"
    by (simp add: ElfModuleLoader_initText_def dep rel el ex_shape_located patch ex_shape_text e c none sym mapE_def)
  have "\<exists>l. ElfModuleLoader_initData ex_modload_env ?l2 = Inr l"
    by (simp add: ElfModuleLoader_initData_def Let_def ex_shape_located e)
  with t show ?thesis by (simp add: parseKernelModule_def initImage_def mapE_def)
qed

theorem module_image_shape_witness:
  "\<exists>l. parseKernelModule ex_modload_env ''snd'' ex_shape_file = Inr l \<and> modName l = ''snd'' \<and>
     0x1000 dvd length (textSegmentContent l)"
proof -
  obtain l where l: "parseKernelModule ex_modload_env ''snd'' ex_shape_file = Inr l" using ex_shape_parses by blast
  with module_image_shape [OF l] show ?thesis by blast
qed

end
