(* ===== verification/KernelRun.thy ===== *)
theory KernelRun
  imports ModuleShape
begin

text \<open>
  The validation of the kernel from the files of the host to the verdicts: the constructor of
  \<^verbatim>\<open>KernelValidator\<close> with \<^verbatim>\<open>loadAllModules\<close> as the threads of \<open>ModuleThreads\<close> run it on the
  images of \<open>ModuleImages\<close>, then the rounds of \<open>KernelValidator\<close>. The example has two module files.
\<close>

text \<open>
  \<^verbatim>\<open>loadAllModules\<close>: the threads run in the order of the schedule; the main thread waits for all of
  them, then every entry is asserted to be a loader. \<open>order\<close> is the order in which the unordered map is
  iterated.
\<close>

definition loadAll_threads ::
  "module_host \<Rightarrow> nat list \<Rightarrow> nat \<Rightarrow> string list \<Rightarrow> ((string \<rightharpoonup> ElfModuleLoader option) \<Rightarrow> string list) \<Rightarrow>
   ElfKernelLoader \<Rightarrow> ElfKernelLoader res" where
  "loadAll_threads h schedule cpus names order k =
     bindE (run_schedule (image_env h) schedule (load_start cpus names)) (\<lambda>s.
     bindE (guardE DoesNotReturn (\<forall>t \<in> set (ms_threads s). t = Finished)) (\<lambda>_.
     let m = ms_map s; entries = map (\<lambda>n. (n, case m n of Some l \<Rightarrow> l | None \<Rightarrow> None)) (order m) in
     bindE (assertE (\<forall>(n, l) \<in> set entries. l \<noteq> None)) (\<lambda>_.
       Inr (k\<lparr>moduleMap := entries\<rparr>))))"

lemma find_module_in:
  "find_module P ms = Inr (Some l) \<Longrightarrow> \<exists>n. (n, Some l) \<in> set ms"
proof (induction ms)
  case (Cons e ms)
  then show ?case by (cases e) (auto split: option.splits if_splits)
qed simp

lemma getModuleForAddress_cases:
  assumes "getModuleForAddress k a = Inr (Some m)"
  shows "m = kernel_found k \<or> (\<exists>n l. (n, Some l) \<in> set (moduleMap k) \<and> m = module_found l)"
  using assms find_module_in by (fastforce simp: getModuleForAddress_def bindE_def mapE_def split: sum.splits if_splits)

lemma loadAll_threads_images:
  assumes "loadAll_threads h schedule cpus names order k = Inr k'" and "(n, Some l) \<in> set (moduleMap k')"
  shows "\<exists>f. module_elf h n = Inr f \<and> parseKernelModule (mh_env h n) n f = Inr l"
proof -
  from assms obtain s where s: "run_schedule (image_env h) schedule (load_start cpus names) = Inr s"
    and "ms_map s n = Some (Some l)"
    by (auto simp: loadAll_threads_def bindE_def guardE_def assertE_def Let_def split: sum.splits if_splits option.splits)
  with loaded_is_image run_schedule_reachable [OF s load_reachable_start] show ?thesis by blast
qed

lemma loadAll_threads_wanted:
  assumes "loadAll_threads h schedule cpus names order k = Inr k'" and "(n, Some l) \<in> set (moduleMap k')"
  shows "wanted (image_env h) names n \<and> module_path h n \<noteq> ''''"
proof -
  from assms obtain s where s: "run_schedule (image_env h) schedule (load_start cpus names) = Inr s"
    and n: "ms_map s n = Some (Some l)"
    by (auto simp: loadAll_threads_def bindE_def guardE_def assertE_def Let_def split: sum.splits if_splits option.splits)
  note r = run_schedule_reachable [OF s load_reachable_start]
  have "wanted (image_env h) names n"
    using entries_reachable [OF r wanted_closed wanted_names] n by simp
  moreover from entered_reachable [OF r] n have "entered (image_env h) (ms_map s) n [] None"
    by (auto simp: map_entered_def)
  then have "module_path h n \<noteq> ''''" by (auto simp: entered_def image_env_def module_depends_def)
  ultimately show ?thesis ..
qed

text \<open>C17: Code validation is on and a round comes to its end. A page of the guest that lies in the text of a
  module has been compared with the image of a module that was asked for, built under its name from the file
  the host has for that name, and the verdict is among the reports, however the loader threads were
  interleaved and however many there were.\<close>

theorem module_pages_against_files:
  assumes "KernelValidator_new (loadAll_threads h schedule cpus names order) garbage files k targets = Inr v"
    and "validate_round env dis vm (setOptions lm True pe v) = Inr (v', out)"
    and "page \<in> set (vm_pages vm)"
    and "getModuleForAddress (kernelLoader v) (vaddr page) = Inr (Some m)"
    and "ElfLoader_isCodeAddress (fl_loader m) (vaddr page)" and "fl_kind m = ModuleLoader"
  shows "\<exists>n f l c. wanted (image_env h) names n \<and> module_path h n \<noteq> '''' \<and>
    loadElfFile (mh_content h (module_path h n)) (mh_base h (module_path h n)) = Inr (Some f) \<and>
    parseKernelModule (mh_env h n) n f = Inr l \<and> m = module_found l \<and> fl_name m = n \<and>
    validateCodePage (paravirt (kernelLoader v)) (genericUnrolledAddress (kernelLoader v)) page m
      (vm_read vm (vaddr page) (unat (pg_size page))) = Inr c \<and> CodeVerdict c \<in> set out"
proof -
  let ?v = "(setOptions lm True pe v)\<lparr>globalCodePtrs := 0\<rparr>"
  from assms(2) obtain v1 where st: "validate_stacks env dis vm ?v = Inr v1"
    and ps: "foldE (page_step env dis vm) (vm_pages vm) (v1, []) = Inr (v', out)"
    by (auto simp: validate_round_def)
  from validate_stacks_same [OF st] have "kernelLoader v1 = kernelLoader v" "codeValidation (options v1)"
    by (simp_all add: same_kernel_def setOptions_def)
  with page_steps_verdicts [OF ps] assms(3-5)
  obtain c where c: "page_verdict (kernelLoader v) vm page m = Inr c" "CodeVerdict c \<in> set out" by fastforce
  from assms(1) have k: "loadAll_threads h schedule cpus names order k = Inr (kernelLoader v)"
    by (auto simp: KernelValidator_new_def setOptions_def bindE_def split: sum.splits)
  have "m \<noteq> kernel_found (kernelLoader v)" using assms(6) by (auto simp: kernel_found_def)
  with getModuleForAddress_cases [OF assms(4)] obtain n l where
    nl: "(n, Some l) \<in> set (moduleMap (kernelLoader v))" "m = module_found l" by blast
  from loadAll_threads_images [OF k nl(1)] obtain f where
    f: "module_elf h n = Inr f" "parseKernelModule (mh_env h n) n f = Inr l" by blast
  have "fl_name m = n" using parseKernelModule_shape [OF f(2)] nl(2) by (simp add: module_found_def)
  moreover have "loadElfFile (mh_content h (module_path h n)) (mh_base h (module_path h n)) = Inr (Some f)"
    using f(1) by (auto simp: module_elf_def bindE_Inr_iff split: option.splits)
  ultimately show ?thesis
    using loadAll_threads_wanted [OF k nl(1)] f(2) nl(2) c unfolding page_verdict_def page_content_def by blast
qed

section \<open>An example\<close>

text \<open>
  A module file as the host has it: the four instructions of its text, the sections the loader asks for,
  empty, and the table of their names.
\<close>

definition ko_shdr :: "u32 \<Rightarrow> u32 \<Rightarrow> u64 \<Rightarrow> u64 \<Rightarrow> u64 \<Rightarrow> bytes" where
  "ko_shdr nm type flags off sz = to_le 4 nm @ to_le 4 type @ to_le 8 flags @ replicate 8 0 @ to_le 8 off @ to_le 8 sz @
     replicate 8 0 @ to_le 8 (8 :: u64) @ replicate 8 0"

definition ko_names :: bytes where
  "ko_names = map (\<lambda>c. if c = CHR ''?'' then 0 else u8_of_char c)
     ''.text?.modinfo?.altinstructions?.parainstructions?.smp_locks?__mcount_loc?.data?.bss?.note.gnu.build-id?.altinstr_replacement?.shstrtab?''"

definition ko_text :: bytes where
  "ko_text = [0x55, 0x90, 0x5d, 0xc3]"

definition ko_bytes :: bytes where
  "ko_bytes = demo_ehdr 1 0 64 0 11 10 @ ko_shdr 0 1 6 768 4 @ ko_shdr 6 1 0 772 0 @ ko_shdr 15 1 0 772 0 @
     ko_shdr 32 1 0 772 0 @ ko_shdr 50 1 0 772 0 @ ko_shdr 61 1 0 772 0 @ ko_shdr 74 1 3 772 0 @ ko_shdr 80 8 3 772 0 @
     ko_shdr 85 7 0 772 0 @ ko_shdr 104 1 0 772 0 @ ko_shdr 126 3 0 772 136 @ ko_text @ ko_names"

definition ko_mem :: "u64 \<Rightarrow> hostmem" where
  "ko_mem b = \<lparr>hbase = b, hbytes = ko_bytes\<rparr>"

lemma ko_lengths [simp]:
  "length (ko_shdr nm type flags off sz) = 64" "length ko_text = 4" "length ko_names = 136"
  by (simp_all add: ko_shdr_def ko_text_def ko_names_def)

lemma hbase_ko_mem [simp]: "hbase (ko_mem b) = b"
  by (simp add: ko_mem_def)

lemma ko_reads:
  "hread (ko_mem b) b 64 = Inr (demo_ehdr 1 0 64 0 11 10)"
  "hread (ko_mem b) (b + 64) 64 = Inr (ko_shdr 0 1 6 768 4)"
  "hread (ko_mem b) (b + 128) 64 = Inr (ko_shdr 6 1 0 772 0)"
  "hread (ko_mem b) (b + 192) 64 = Inr (ko_shdr 15 1 0 772 0)"
  "hread (ko_mem b) (b + 256) 64 = Inr (ko_shdr 32 1 0 772 0)"
  "hread (ko_mem b) (b + 320) 64 = Inr (ko_shdr 50 1 0 772 0)"
  "hread (ko_mem b) (b + 384) 64 = Inr (ko_shdr 61 1 0 772 0)"
  "hread (ko_mem b) (b + 448) 64 = Inr (ko_shdr 74 1 3 772 0)"
  "hread (ko_mem b) (b + 512) 64 = Inr (ko_shdr 80 8 3 772 0)"
  "hread (ko_mem b) (b + 576) 64 = Inr (ko_shdr 85 7 0 772 0)"
  "hread (ko_mem b) (b + 640) 64 = Inr (ko_shdr 104 1 0 772 0)"
  "hread (ko_mem b) (b + 704) 64 = Inr (ko_shdr 126 3 0 772 136)"
  "hread (ko_mem b) (b + 768) 4 = Inr ko_text"
  by (simp_all add: ko_mem_def ko_bytes_def hread_def bread_chunk del: take_append drop_append)

definition ko_section_names :: "string list" where
  "ko_section_names = [''.text'', ''.modinfo'', ''.altinstructions'', ''.parainstructions'', ''.smp_locks'',
     ''__mcount_loc'', ''.data'', ''.bss'', ''.note.gnu.build-id'', ''.altinstr_replacement'', ''.shstrtab'']"

lemma ko_name_table:
  "map (\<lambda>i. c_string (drop i ko_names)) [0, 6, 15, 32, 50, 61, 74, 80, 85, 104, 126] = map Inr ko_section_names"
  by code_simp

lemma ko_strings:
  "host_string (ko_mem b) (b + 772) = Inr ''.text''"
  "host_string (ko_mem b) (b + 778) = Inr ''.modinfo''"
  "host_string (ko_mem b) (b + 787) = Inr ''.altinstructions''"
  "host_string (ko_mem b) (b + 804) = Inr ''.parainstructions''"
  "host_string (ko_mem b) (b + 822) = Inr ''.smp_locks''"
  "host_string (ko_mem b) (b + 833) = Inr ''__mcount_loc''"
  "host_string (ko_mem b) (b + 846) = Inr ''.data''"
  "host_string (ko_mem b) (b + 852) = Inr ''.bss''"
  "host_string (ko_mem b) (b + 857) = Inr ''.note.gnu.build-id''"
  "host_string (ko_mem b) (b + 876) = Inr ''.altinstr_replacement''"
  "host_string (ko_mem b) (b + 898) = Inr ''.shstrtab''"
  using ko_name_table
  by (simp_all add: ko_section_names_def ko_mem_def ko_bytes_def host_string_def drop_chunk del: take_append drop_append)

lemma ko_headers:
  "dec_ehdr (demo_ehdr 1 0 64 0 11 10) = \<lparr>e_type = 1, e_entry = 0x1040, e_phoff = 0, e_shoff = 64, e_phnum = 0,
     e_shnum = 11, e_shstrndx = 10\<rparr>"
  by code_simp

lemma ko_zeros: "of_le (replicate 4 0) = (0 :: u32)" "of_le (replicate 8 0) = (0 :: u64)"
  by code_simp+

lemma ko_header:
  "dec_shdr (ko_shdr nm type flags off sz) = \<lparr>sh_name = nm, sh_type = type, sh_flags = flags, sh_addr = 0,
     sh_offset = off, sh_size = sz, sh_link = 0, sh_info = 0, sh_addralign = 8\<rparr>"
  by (simp add: dec_shdr_def ko_shdr_def fld_def of_le_to_le ko_zeros)

definition ko_section :: "u64 \<Rightarrow> string \<Rightarrow> u32 \<Rightarrow> u64 \<Rightarrow> u64 \<Rightarrow> u64 \<Rightarrow> SectionInfo" where
  "ko_section b nm i off sz flags = \<lparr>si_name = nm, secID = i, si_offset = off, si_index = b + off, memindex = 0,
     si_size = sz, si_flags = flags\<rparr>"

definition ko_file :: "u64 \<Rightarrow> ElfFile64" where
  "ko_file b = \<lparr>mem = (ko_mem b), shstrindex = 10,
     sections = [ko_section b ''.text'' 0 768 4 6, ko_section b ''.modinfo'' 1 772 0 0,
       ko_section b ''.altinstructions'' 2 772 0 0, ko_section b ''.parainstructions'' 3 772 0 0,
       ko_section b ''.smp_locks'' 4 772 0 0, ko_section b ''__mcount_loc'' 5 772 0 0, ko_section b ''.data'' 6 772 0 3,
       ko_section b ''.bss'' 7 772 0 3, ko_section b ''.note.gnu.build-id'' 8 772 0 0, 
       ko_section b ''.altinstr_replacement'' 9 772 0 0, ko_section b ''.shstrtab'' 10 772 136 0],
     segments = [],
     section_ids = [0 \<mapsto> 0, 1 \<mapsto> 1, 2 \<mapsto> 2, 3 \<mapsto> 3, 4 \<mapsto> 4, 5 \<mapsto> 5, 6 \<mapsto> 6, 7 \<mapsto> 7, 8 \<mapsto> 8, 9 \<mapsto> 9, 10 \<mapsto> 10],
     section_names = map_of (zip ko_section_names [0, 1, 2, 3, 4, 5, 6, 7, 8, 9, 10]), symbolCount = 0\<rparr>"

definition ko_ehdr :: Elf64_Ehdr where
  "ko_ehdr = \<lparr>e_type = 1, e_entry = 0x1040, e_phoff = 0, e_shoff = 64, e_phnum = 0, e_shnum = 11, e_shstrndx = 10\<rparr>"

lemma ko_ehdr_read: "ehdr (ko_mem b) = Inr ko_ehdr"
  by (simp add: ehdr_def mapE_def ko_reads ko_headers ko_ehdr_def)

lemma ko_shdrs:
  "shdr (ko_mem b) 0 = Inr (dec_shdr (ko_shdr 0 1 6 768 4))"
  "shdr (ko_mem b) (Suc 0) = Inr (dec_shdr (ko_shdr 6 1 0 772 0))"
  "shdr (ko_mem b) 2 = Inr (dec_shdr (ko_shdr 15 1 0 772 0))"
  "shdr (ko_mem b) 3 = Inr (dec_shdr (ko_shdr 32 1 0 772 0))"
  "shdr (ko_mem b) 4 = Inr (dec_shdr (ko_shdr 50 1 0 772 0))"
  "shdr (ko_mem b) 5 = Inr (dec_shdr (ko_shdr 61 1 0 772 0))"
  "shdr (ko_mem b) 6 = Inr (dec_shdr (ko_shdr 74 1 3 772 0))"
  "shdr (ko_mem b) 7 = Inr (dec_shdr (ko_shdr 80 8 3 772 0))"
  "shdr (ko_mem b) 8 = Inr (dec_shdr (ko_shdr 85 7 0 772 0))"
  "shdr (ko_mem b) 9 = Inr (dec_shdr (ko_shdr 104 1 0 772 0))"
  "shdr (ko_mem b) 10 = Inr (dec_shdr (ko_shdr 126 3 0 772 136))"
  by (simp_all add: shdr_def mapE_def add.assoc ko_reads ko_ehdr_read ko_ehdr_def)

lemmas ko_shdr_reads = ko_shdrs [unfolded ko_header]

lemma upt_eleven: "[0..<11] = [0, 1, 2, 3, 4, 5, 6, 7, 8, 9, 10 :: nat]"
  by (simp add: upt_rec)

lemma ko_load_sections:
  assumes "mem f = (ko_mem b)" and "i < 11"
  shows "load_section i f = Inr (add_section_name (ko_section_names ! i) i (add_section_id (of_nat i) i
    (f\<lparr>sections := sections f @ [sections (ko_file b) ! i]\<rparr>)))"
proof -
  from assms(2) have "i \<in> set [0..<11]" by simp
  then show ?thesis using assms(1) unfolding upt_eleven set_simps
    by (elim insertE emptyE) (simp_all add: load_section_def host_sectionName_def add.assoc
      ko_ehdr_read ko_shdr_reads ko_ehdr_def ko_strings
      section_of_def ko_section_def ko_file_def ko_section_names_def Let_def)
qed

lemma ko_load: "loadElfFile (Some ko_bytes) b = Inr (Some (ko_file b))"
proof -
  have m: "\<lparr>hbase = b, hbytes = ko_bytes\<rparr> = (ko_mem b)" by (simp add: ko_mem_def)
  have magic: "take 4 ko_bytes = ELFMAG" by (simp add: ko_bytes_def demo_ehdr_def ELFMAG_def)
  have cls: "host8 (ko_mem b) (b + 4) = Inr ELFCLASS64"
    by (simp add: host8_def ko_mem_def hread_def bread_def ko_bytes_def demo_ehdr_def elf_consts)
  have "ElfFile64_new (ko_mem b) = Inr (ko_file b)"
    by (simp add: ElfFile64_new_def ko_ehdr_read upt_eleven ko_load_sections ko_ehdr_def)
      (simp add: ko_file_def ko_section_names_def add_section_id_def add_section_name_def map_insert_def fun_eq_iff)
  with m magic cls show ?thesis by (simp add: loadElfFile_def mapE_def)
qed

definition ko_env :: "u64 \<Rightarrow> modload_env" where
  "ko_env a = ex_modload_env\<lparr>me_caps := Some (\<lambda>_. 0),
     me_instance := Inr \<lparr>mi_size = 0x180, mi_address = a, mi_gpl_syms = 0, mi_nsections = 1,
     mi_attr = (\<lambda>_. (''.text'', a))\<rparr>\<rparr>"

lemma ko_find:
  "findSectionWithName (ko_file b) ''.text'' = Inr (ko_section b ''.text'' 0 768 4 6)"
  "findSectionWithName (ko_file b) ''.modinfo'' = Inr (ko_section b ''.modinfo'' 1 772 0 0)"
  "findSectionWithName (ko_file b) ''.altinstructions'' = Inr (ko_section b ''.altinstructions'' 2 772 0 0)"
  "findSectionWithName (ko_file b) ''.altinstr_replacement'' = Inr (ko_section b ''.altinstr_replacement'' 9 772 0 0)"
  "findSectionWithName (ko_file b) ''.parainstructions'' = Inr (ko_section b ''.parainstructions'' 3 772 0 0)"
  "findSectionWithName (ko_file b) ''.smp_locks'' = Inr (ko_section b ''.smp_locks'' 4 772 0 0)"
  "findSectionWithName (ko_file b) ''__mcount_loc'' = Inr (ko_section b ''__mcount_loc'' 5 772 0 0)"
  "findSectionWithName (ko_file b) ''.data'' = Inr (ko_section b ''.data'' 6 772 0 3)"
  "findSectionWithName (ko_file b) ''.bss'' = Inr (ko_section b ''.bss'' 7 772 0 3)"
  "findSectionWithName (ko_file b) ''.note.gnu.build-id'' = Inr (ko_section b ''.note.gnu.build-id'' 8 772 0 0)"
  by (simp_all add: findSectionWithName_def ko_file_def ko_section_names_def)

lemma ko_mem_file [simp]: "mem (ko_file b) = (ko_mem b)"
  by (simp add: ko_file_def)

lemma ko_located:
  "nm \<in> {''__mcount_loc'', ''.data'', ''.note.gnu.build-id''} \<Longrightarrow>
     located_section (me_instance (ko_env a)) (ko_file b) nm = findSectionWithName (ko_file b) nm"
  "located_section (me_instance (ko_env a)) (ko_file b) ''.text'' = Inr ((ko_section b ''.text'' 0 768 4 6)\<lparr>memindex := a\<rparr>)"
  "located_section (me_instance (ko_env a)) (ko_file b) ''.bss'' = Inr ((ko_section b ''.bss'' 7 772 0 3)\<lparr>memindex := a + 0x180\<rparr>)"
  by (auto simp: located_section_def ko_find module_updateSectionInfoMemAddress_def findMemAddressOfSegment_def ko_env_def
    ko_section_def mapE_def sectionAlign_def ko_shdr_reads guardE_def)

lemma ko_sectionName: "i < 11 \<Longrightarrow> sectionName (ko_file b) i = Inr (ko_section_names ! i)"
proof -
  assume "i < 11"
  then have "i \<in> set [0..<11]" by simp
  then show ?thesis unfolding upt_eleven set_simps
    by (elim insertE emptyE) (simp_all add: sectionName_def host_sectionName_def add.assoc
      ko_ehdr_read ko_shdr_reads ko_ehdr_def ko_strings
      ko_section_names_def)
qed

lemma ko_dependencies: "loadDependencies (ElfModuleLoader_new (ko_file b) nm) = Inr ([], ElfModuleLoader_new (ko_file b) nm)"
proof -
  have "set_loader_mem ((ko_mem b)\<lparr>hbytes := hbytes (ko_mem b)\<rparr>) (ElfModuleLoader_new (ko_file b) nm)
      = ElfModuleLoader_new (ko_file b) nm"
    by (simp add: set_loader_mem_def ElfModuleLoader_new_def ko_file_def)
  then show ?thesis
    by (simp add: loadDependencies_def ElfModuleLoader_new_def ko_find ko_section_def modinfo_loop.simps mapE_def Let_def)
qed

lemma ko_relocations: "applyRelocations env (ko_file b) = Inr (ko_file b)"
  by (simp add: applyRelocations_def ko_ehdr_read ko_ehdr_def getNrOfSections_def mapE_def elf_consts upt_eleven
    reloc_section_step_def ko_shdr_reads)

definition ko_padded :: bytes where
  "ko_padded = ko_text @ replicate 4092 0"

definition ko_image :: "u64 \<Rightarrow> u64 \<Rightarrow> string \<Rightarrow> ElfModuleLoader" where
  "ko_image b a nm = (ElfModuleLoader_new (ko_file b) nm)\<lparr>textSegment := (ko_section b ''.text'' 0 768 4 6)\<lparr>memindex := a\<rparr>,
     textSegmentContent := ko_padded\<rparr>"

lemma ko_same_mem: "elffile l = (ko_file b) \<Longrightarrow> set_loader_mem (ko_mem b) l = l"
proof -
  assume l: "elffile l = (ko_file b)"
  have "l\<lparr>elffile := elffile l\<rparr> = l" "(ko_file b)\<lparr>mem := (ko_mem b)\<rparr> = (ko_file b)" by (simp_all add: ko_file_def)
  then show ?thesis by (simp add: set_loader_mem_def l)
qed

lemma ko_patched:
  fixes l :: ElfModuleLoader
  assumes "elffile l = (ko_file b)"
  shows "patch_module (ko_env a) l = Inr l"
  using assms ko_same_mem [OF assms] by (simp add: patch_module_def applyAltinstr_def applyParainstr_def applySmpLocks_def ko_find
    module_updateSectionInfoMemAddress_def findMemAddressOfSegment_def ko_env_def pointers_def site_pointers_def mapE_def
    ko_section_def Let_def)

lemma ko_exec: "elffile l = (ko_file b) \<Longrightarrow> foldE exec_step [0..<11] l = Inr l"
  by (simp add: upt_eleven exec_step_def Let_def ko_sectionName ko_section_names_def ko_shdr_reads elf_consts)

lemma ko_rodata: "elffile l = (ko_file b) \<Longrightarrow> foldE module_rodata_step [0..<11] l = Inr l"
  by (simp add: upt_eleven module_rodata_step_def Let_def ko_shdr_reads elf_consts rodata_header_def)

lemma ko_fill: "fill_page PAGE_SIZE ko_text = Inr ko_padded"
  by (simp add: fill_page_def append_fill_def page_fill_def PAGE_SIZE_def max_vector_def ko_padded_def)

lemma ko_symbols: "addSymbolsToStore (ko_file b) a = Inr []"
  by (simp add: addSymbolsToStore_def getNrOfSections_def ko_ehdr_read ko_ehdr_def mapE_def upt_eleven ko_shdr_reads elf_consts)

lemma ko_initText:
  "ElfModuleLoader_initText (ko_env a) (ElfModuleLoader_new (ko_file b) nm) = Inr ([], ko_image b a nm, [])"
proof -
  have el: "elffile (ElfModuleLoader_new (ko_file b) nm) = (ko_file b)" by (simp add: ElfModuleLoader_new_def)
  have n: "unat (e_shnum ko_ehdr) = 11" by (simp add: ko_ehdr_def)
  have b: "section_bytes (ko_mem b) ((ko_section b ''.text'' 0 768 4 6)\<lparr>memindex := a\<rparr>) = Inr ko_text"
    by (simp add: section_bytes_def ko_section_def ko_reads)
  have m: "applyMcount (ko_section b ''__mcount_loc'' 5 772 0 0) st l = Inr l" for st and l :: ElfModuleLoader
    by (simp add: applyMcount_def pointers_def ko_section_def)
  show ?thesis
    by (simp add: ElfModuleLoader_initText_def ko_dependencies ko_relocations ko_located ko_find el ko_patched b ko_ehdr_read
        n ko_exec ko_fill m ko_symbols mapE_def ko_image_def)
qed

lemma ko_parses:
  "\<exists>l. parseKernelModule (ko_env a) nm (ko_file b) = Inr l \<and> textSegment l = textSegment (ko_image b a nm) \<and>
   textSegmentContent l = ko_padded \<and> modName l = nm \<and> jumpEntries l = []"
proof -
  have el: "elffile (ko_image b a nm) = (ko_file b)" by (simp add: ElfModuleLoader_new_def ko_image_def)
  have "\<exists>l. ElfModuleLoader_initData (ko_env a) (ko_image b a nm) = Inr l \<and> textSegment l = textSegment (ko_image b a nm) \<and>
     textSegmentContent l = ko_padded \<and> modName l = nm \<and> jumpEntries l = []"
    by (simp add: ElfModuleLoader_initData_def Let_def el ko_located ko_find ko_ehdr_read ko_ehdr_def ko_rodata)
      (simp add: ko_image_def ElfModuleLoader_new_def)
  then show ?thesis by (auto simp: parseKernelModule_def initImage_def ko_initText mapE_def)
qed

text \<open>A host with the files of two modules, their texts in the guest a page apart from each other.\<close>

definition ko_host :: module_host where
  "ko_host = \<lparr>mh_find = (\<lambda>dir pat ext excl. if pat = ''hda'' then ''/k/hda.ko'' else if pat = ''snd'' then ''/k/snd.ko'' else ''''),
     mh_dir = ''/k'', mh_content = (\<lambda>p. if p = ''/k/hda.ko'' \<or> p = ''/k/snd.ko'' then Some ko_bytes else None),
     mh_base = (\<lambda>p. if p = ''/k/hda.ko'' then 0x7f0000010000 else 0x7f0000020000),
     mh_env = (\<lambda>nm. ko_env (if nm = ''hda'' then 0xffffffffc0010000 else 0xffffffffc0020000))\<rparr>"

lemma ko_paths: "module_path ko_host ''hda'' = ''/k/hda.ko''" "module_path ko_host ''snd'' = ''/k/snd.ko''"
  by (simp_all add: module_path_def findModuleFile_def ko_host_def replace_dash_def underscore_loop.simps find_char_def upt_rec)

lemma ko_elfs: "module_elf ko_host ''hda'' = Inr (ko_file 0x7f0000010000)" "module_elf ko_host ''snd'' = Inr (ko_file 0x7f0000020000)"
  by (simp_all add: module_elf_def ko_paths) (simp_all add: ko_host_def ko_load)

lemma ko_depends: "module_depends ko_host ''hda'' = Some []" "module_depends ko_host ''snd'' = Some []"
  by (simp_all add: module_depends_def ko_paths ko_elfs ko_dependencies)

text \<open>The two threads take a module each, and then both build theirs.\<close>

lemma ko_loaded:
  obtains x y where "loadAll_threads ko_host [1, 0, 1, 0, 0, 1, 1, 0] 2 [''hda'', ''snd''] (\<lambda>_. [''snd'', ''hda'']) ex_kernel =
      Inr (ex_kernel\<lparr>moduleMap := [(''snd'', Some y), (''hda'', Some x)]\<rparr>)"
    and "memindex (textSegment y) = 0xffffffffc0020000" and "si_size (textSegment y) = 4"
    and "textSegmentContent y = ko_padded" and "modName y = ''snd''" and "jumpEntries y = []"
proof -
  have env: "mh_env ko_host ''hda'' = ko_env 0xffffffffc0010000" "mh_env ko_host ''snd'' = ko_env 0xffffffffc0020000"
    by (simp_all add: ko_host_def)
  obtain x where x: "parseKernelModule (ko_env 0xffffffffc0010000) ''hda'' (ko_file 0x7f0000010000) = Inr x" using ko_parses by blast
  obtain y where y: "parseKernelModule (ko_env 0xffffffffc0020000) ''snd'' (ko_file 0x7f0000020000) = Inr y"
    "textSegment y = textSegment (ko_image 0x7f0000020000 0xffffffffc0020000 ''snd'')"
    "textSegmentContent y = ko_padded" "modName y = ''snd''" "jumpEntries y = []" using ko_parses by blast
  have "loadAll_threads ko_host [1, 0, 1, 0, 0, 1, 1, 0] 2 [''hda'', ''snd''] (\<lambda>_. [''snd'', ''hda'']) ex_kernel =
      Inr (ex_kernel\<lparr>moduleMap := [(''snd'', Some y), (''hda'', Some x)]\<rparr>)"
    by (simp add: loadAll_threads_def load_start_def thread_step_def numeral_2_eq_2 guardE_def assertE_def image_env_def
      ko_depends ko_elfs env x y(1) replace_dash_def Let_def)
  then show thesis using that y by (simp add: ko_image_def ko_section_def)
qed

text \<open>The first instruction of the second module has been overwritten by a breakpoint.\<close>

definition ko_page :: page_info where
  "ko_page = \<lparr>vaddr = 0xffffc0020000, pg_size = 4\<rparr>"

definition ko_vm :: vm_env where
  "ko_vm = ex_vm\<lparr>vm_pages := [ko_page], vm_read := (\<lambda>_ _. [0xcc, 0x90, 0x5d, 0xc3])\<rparr>"

lemma mem_eq_first: "x \<noteq> y \<Longrightarrow> 0 < n \<Longrightarrow> mem_eq (x # a) (y # b) n = Inr False"
  by (cases n) simp_all

lemma ko_verdict:
  assumes "textSegmentContent y = ko_padded" and "jumpEntries y = []" and "memindex (textSegment y) = 0xffffffffc0020000"
  shows "\<exists>d. validateCodePage st generic ko_page (module_found y) [0xcc, 0x90, 0x5d, 0xc3]
    = Inr (CodeChanged 0xffffffffc0020000 d)"
proof -
  have l: "4 \<le> length ko_padded" by (simp add: ko_padded_def)
  then obtain d where d: "displayChange [0xcc, 0x90, 0x5d, 0xc3] ko_padded 0 4 = Inr d"
    using displayChange_ok [of 0 4 "[0xcc, 0x90, 0x5d, 0xc3]" ko_padded] by auto
  have b: "ko_padded ! 0 = 0x55" "ko_padded \<noteq> []" by (simp_all add: ko_padded_def ko_text_def)
  have m: "mem_eq ko_padded (0xe9 # xs) 5 = Inr False" "mem_eq ko_padded (0x0f # xs) 5 = Inr False" for xs
    by (simp_all add: ko_padded_def ko_text_def mem_eq_first)
  from l d b m assms show ?thesis
    by (simp add: validateCodePage_def page_setup_def page_offset_def module_found_def ElfKernelspaceLoader.defs ko_page_def
      assertE_def code_loop.simps code_step_def byte_of_def excuse_def in_hypercall_page_def code_address_def
      skip_if_def else_try_def mapE_def atomic_nop_def split_nop_def ftrace_nop_def isValidJmpLabel_def generic_call_def
      smp_lock_def empty_jump_def beyond_content_def Let_def)
qed

lemma ko_not_kernel:
  "\<not> ElfLoader_isCodeAddress ex_kernel 0xffffc0020000" "ElfKernelLoader_isDataAddress ex_kernel 0xffffc0020000 = Inr False"
  by code_simp+

theorem module_pages_against_files_witness:
  "\<exists>l d. parseKernelModule (ko_env 0xffffffffc0020000) ''snd'' (ko_file 0x7f0000020000) = Inr l \<and>
     validateCodePage (paravirt ex_kernel) (genericUnrolledAddress ex_kernel) ko_page (module_found l)
       [0xcc, 0x90, 0x5d, 0xc3]
    = Inr (CodeChanged 0xffffffffc0020000 d)"
proof -
  let ?names = "[''hda'', ''snd'']" and ?order = "\<lambda>_ :: string \<rightharpoonup> ElfModuleLoader option. [''snd'', ''hda'']"
  obtain x y where k: "loadAll_threads ko_host [1, 0, 1, 0, 0, 1, 1, 0] 2 ?names ?order ex_kernel =
      Inr (ex_kernel\<lparr>moduleMap := [(''snd'', Some y), (''hda'', Some x)]\<rparr>)"
    and y: "memindex (textSegment y) = 0xffffffffc0020000" "si_size (textSegment y) = 4"
      "textSegmentContent y = ko_padded" "modName y = ''snd''" "jumpEntries y = []"
    by (rule ko_loaded)
  let ?k = "ex_kernel\<lparr>moduleMap := [(''snd'', Some y), (''hda'', Some x)]\<rparr>"
  let ?v = "setOptions False True True (ex_validator\<lparr>kernelLoader := ?k\<rparr>)"
  have new: "KernelValidator_new (loadAll_threads ko_host [1, 0, 1, 0, 0, 1, 1, 0] 2 ?names ?order) (0, 0) (\<lambda>_. None) ex_kernel ''''
      = Inr ?v"
    using k by (simp add: KernelValidator_new_def load_targets_def setOptions_def ex_validator_def)
  have kl: "kernelLoader ?v = ?k" by (simp add: setOptions_def)
  have code: "ElfLoader_isCodeAddress y (vaddr ko_page)"
    using y by (simp add: ko_page_def ElfLoader_isCodeAddress_def containsMemAddress_def kernel_half_def)
  have found: "getModuleForAddress ?k (vaddr ko_page) = Inr (Some (module_found y))"
    using code ko_not_kernel by (simp add: getModuleForAddress_def ko_page_def ElfLoader_isCodeAddress_def
      ElfKernelLoader_isDataAddress_def mapE_def)
  have fl: "ElfLoader_isCodeAddress (fl_loader (module_found y)) (vaddr ko_page)" "fl_kind (module_found y) = ModuleLoader"
    using code by (simp_all add: module_found_def ElfLoader_isCodeAddress_def ElfKernelspaceLoader.defs)
  obtain d where d: "validateCodePage (paravirt ex_kernel) (genericUnrolledAddress ex_kernel) ko_page (module_found y)
      [0xcc, 0x90, 0x5d, 0xc3] = Inr (CodeChanged 0xffffffffc0020000 d)"
    using ko_verdict y by blast
  have run: "validate_round ex_symbols ex_call ko_vm (setOptions False True False ?v)
      = Inr (setOptions False True False ?v, [CodeVerdict (CodeChanged 0xffffffffc0020000 d)])"
    using found fl d by (simp add: validate_round_def validate_stacks_def setOptions_def ko_vm_def ex_vm_def page_step_def
      is_identity_page_def is_c9_page_def validatePage_def ex_validator_def page_content_def mapE_def ko_page_def)
  have p: "ko_page \<in> set (vm_pages ko_vm)" by (simp add: ko_vm_def)
  from module_pages_against_files [OF new run p, unfolded kl, OF found fl] obtain n f l where
    "loadElfFile (mh_content ko_host (module_path ko_host n)) (mh_base ko_host (module_path ko_host n)) = Inr (Some f)"
    and l: "parseKernelModule (mh_env ko_host n) n f = Inr l" "module_found y = module_found l"
    and n: "fl_name (module_found y) = n" by blast
  moreover have "n = ''snd''" using n y(4) by (simp add: module_found_def)
  ultimately have "parseKernelModule (ko_env 0xffffffffc0020000) ''snd'' (ko_file 0x7f0000020000) = Inr l"
    using ko_elfs(2) by (simp add: module_elf_def) (simp add: ko_host_def)
  with d l(2) show ?thesis by auto
qed

end
