(* ===== verification/Spec2Isabelle.thy ===== *)
theory Spec2Isabelle
  imports ModuleThreads Relocation ModuleLoader MainProgram Diagnostics FileHandles KernelRun ModuleShape Returns KernelReturns
begin

text \<open>
  A verification development for \<^verbatim>\<open>kernel_integrity\<close>, a program that compares the code and data
  of a running virtual machine with an image it builds itself from the trusted files of the guest.
  All paths below are relative to \<^verbatim>\<open>src/\<close> of the repository.

  \<^bold>\<open>The program.\<close> \<^verbatim>\<open>kernint.cpp\<close> parses the options, loads the kernel and starts the
  validators. \<^verbatim>\<open>elffile.cpp\<close> and \<^verbatim>\<open>elffile64.cpp\<close> parse ELF files and relocate them;
  the classes \<^verbatim>\<open>Elf*Loader\<close> build from them the text and data images a guest must have, which for
  the kernel and its modules includes the patches the kernel applies to itself at boot (alternatives, SMP locks,
  ftrace, jump labels, paravirtualised calls). \<^verbatim>\<open>kernel.cpp\<close> keeps the list of modules and loads them
  in one thread each; \<^verbatim>\<open>taskmanager.cpp\<close> reads the tasks of the guest and loads libraries;
  \<^verbatim>\<open>process.cpp\<close> relocates the images of one process. \<^verbatim>\<open>kernelvalidator.cpp\<close> and
  \<^verbatim>\<open>processvalidator.cpp\<close> compare the memory of the guest with those images and look for pointers
  that lead into code.

  \<^bold>\<open>Conventions\<close> (theory \<open>Prelude\<close>). A computation that may end in an exception, a failed assertion,
  an access outside a buffer or a null pointer returns \<open>error + 'a\<close>; \<open>bindE\<close> sequences,
  \<open>foldE\<close> is the loop over a list, \<open>ends P E\<close> says that a result satisfies \<open>P\<close> or an error
  \<open>E\<close>. A loop without a bound is a \<open>partial_function\<close> whose \<open>None\<close> is not returning.
  Integers have the width of the source as words. Buffers are byte lists, the mapped ELF file is a byte list with
  its host address; C structures are read and written through a little-endian codec. In the validators output that
  is a verdict is a value; how text is printed is the subject of \<open>Output\<close>. What is not under \<^verbatim>\<open>src/\<close>
  (the introspection library, the DWARF parser with its symbol store and \<^verbatim>\<open>Instance\<close>, Capstone,
  Boost's file system, \<^verbatim>\<open>getopt\<close>) is a parameter of the definitions that use it.

  \<^bold>\<open>Theories.\<close>
  \<^item> \<open>Helpers\<close>: \<^verbatim>\<open>helpers.h\<close>, \<^verbatim>\<open>helpers.cpp\<close>. Flag macros, \<^verbatim>\<open>displayChange\<close>
    and the questions asked of the disassembler. An intended instruction is an instruction boundary of a
    linear sweep; \<^verbatim>\<open>isReturnAddress\<close> never reports a target in the kernel.
  \<^item> \<open>Nops\<close>: \<^verbatim>\<open>kernel_headers.*\<close>. The nop tables and \<^verbatim>\<open>add_nops\<close>; the locale
    \<open>nop_table\<close> is interpreted on both tables.
  \<^item> \<open>ElfFile\<close>, \<open>ElfSymbols\<close>, \<open>Relocation\<close>: \<^verbatim>\<open>elffile.*\<close>,
    \<^verbatim>\<open>elffile64.*\<close>. Sections and segments, symbol tables and \<^verbatim>\<open>.dynamic\<close>, and
    relocation with the store into the file. Symbols are located in a segment, dependencies are the encoded ones, a
    pc-relative entry leads to its symbol, a 32-bit absolute one overwrites its successor.
  \<^item> \<open>Loader\<close>, \<open>KernelspaceLoader\<close>, \<open>Paravirt\<close>, \<open>KernelLoader\<close>,
    \<open>ModuleLoader\<close>, \<open>UserspaceLoader\<close>: \<^verbatim>\<open>elfloader.*\<close>,
    \<^verbatim>\<open>elfkernelspaceloader.*\<close>, \<^verbatim>\<open>paravirt_*\<close>, \<^verbatim>\<open>elfkernelloader*\<close>,
    \<^verbatim>\<open>elfmoduleloader*\<close>, \<^verbatim>\<open>elfuserspaceloader*\<close>. The images. The recorded locks and labels
    are the ones applied; the patcher refines a per-site specification; the dependencies of a module are those of
    \<^verbatim>\<open>.modinfo\<close>; a second section of read-only data ends loading; the data image of a program is zero.
  \<^item> \<open>GuestList\<close>, \<open>KernelModules\<close>, \<open>ModuleThreads\<close>, \<open>SystemMap\<close>: \<^verbatim>\<open>kernel.*\<close>.
    Walks over the lists of the guest, the module map, the threads of \<^verbatim>\<open>loadAllModules\<close> as a step
    relation (every interleaving), and the symbol file. A module is parsed once, acyclic dependencies can always be
    loaded, what is loaded in the end is exactly the modules asked for and what they depend on, a cycle waits forever,
    the symbol file is read back with one entry too many.
  \<^item> \<open>HostFiles\<close>: \<^verbatim>\<open>helpers.cpp\<close>, \<^verbatim>\<open>helpers.h\<close>, \<^verbatim>\<open>elffile.cpp\<close>. The
    search of a directory tree, with the file it finds for a module, and the debug file of a build id.
  \<^item> \<open>CodeValidator\<close>, \<open>DataValidator\<close>, \<open>StackValidator\<close>, \<open>KernelValidator\<close>:
    \<^verbatim>\<open>kernelvalidator.*\<close>. One page of code, one page of data, the kernel stacks, and the rounds. An
    accepted page differs only where a known patch explains it; a report names a real change; the pointers
    reported are exactly those that fail the examination; a stack raises no suspicion under an exact condition; every
    code page is compared in a round. The file of call targets is read through a model of \<^verbatim>\<open>std::ifstream\<close>
    (\<open>ifstream\<close>, \<open>target_pass\<close>), pass by pass: its records come out sorted, a missing file is an endless loop.
    What \<open>KernelValidator\<close> says of several rounds holds as long as no signal arrives.
  \<^item> \<open>TaskManager\<close>, \<open>Libraries\<close>: \<^verbatim>\<open>taskmanager.*\<close>. The tasks, paths, mappings and strings
    of the guest; the loading of libraries, which keeps the library map closed under dependencies and ends
    on acyclic ones only.
  \<^item> \<open>Process\<close>, \<open>ProcessValidator\<close>: \<^verbatim>\<open>process.*\<close>, \<^verbatim>\<open>processvalidator.*\<close>.
    Where symbols are registered (exactly, and by how much too high); the comparison of code mappings, the search for
    pointers into executable mappings, their classification and the statistics.
  \<^item> \<open>CommandLine\<close>, \<open>MainProgram\<close>: \<^verbatim>\<open>kernint.cpp\<close>. Options and checks, the signal
    handler, one process and the list mode; then the loading of the kernel and \<^verbatim>\<open>main\<close> itself,
    composed of the definitions of the other theories. A signal arrives before the stacks or before any page of
    any round (\<open>signal_place\<close>), which is every place where the options it turns off are read; it stops the
    checks at once and ends the rounds.
  \<^item> \<open>Returns\<close>, \<open>KernelReturns\<close>: results other than \<open>DoesNotReturn\<close>, and that parsing a file and
    a round of the validation have them. With these the theorems on returning exclude a computation that never does.
  \<^item> \<open>ModuleImages\<close>: \<^verbatim>\<open>kernel.*\<close>, \<^verbatim>\<open>parseKernelModule\<close>. The threads of
    \<open>ModuleThreads\<close> on the files of the host: whatever the interleaving, a loaded module is the image of the file
    found for its name. \<^verbatim>\<open>loadModule\<close> as the recursive function of the source is implemented by the
    thread of a single processor and returns on acyclic dependencies. The symbols a module adds to the store are
    computed but not carried from module to module: each module is built with its own store as a parameter.
  \<^item> \<open>ModuleShape\<close>: the image of a module keeps its name and is a whole number of pages.
  \<^item> \<open>KernelRun\<close>: the constructor of \<^verbatim>\<open>KernelValidator\<close> with these threads and a round: a module's
    page is compared with the image parsed from its file. The example loads two module files, byte for byte, with
    two threads and finds a breakpoint in the text of one.
  \<^item> \<open>FileHandles\<close>: \<^verbatim>\<open>elffile.*\<close>, \<^verbatim>\<open>helpers.h\<close>. The stream and the mapping behind an ELF
    file: destroying a file gives both back, an exception may not. What it holds is the file of \<open>ElfFile\<close>.
  \<^item> \<open>Output\<close>: the standard output as shared state with base, fill and width. A hex dump can be read back; it
    changes the base for what follows; the rows of the tables do not fit their headers.
  \<^item> \<open>ErrorTrace\<close>, \<open>Diagnostics\<close>: \<^verbatim>\<open>error.*\<close>, \<^verbatim>\<open>exceptions.*\<close>. Stack traces, the
    names in them, the causes of errors and the text of exceptions, which dangles.
  \<^item> this theory: what joins the task manager and the process validator.

  \<^bold>\<open>Interfaces.\<close> \<open>byte_memory\<close> (reads and writes within bounds) is interpreted on plain buffers and on
  the mapped file; \<open>first_wins\<close> (\<^verbatim>\<open>insert\<close> of a map) on the section tables and the jump entries;
  \<open>last_wins\<close> (\<^verbatim>\<open>m[k] = v\<close>) on ordered and unordered maps; \<open>nop_table\<close> on the nop tables.

  \<^bold>\<open>Bounds and fuel.\<close> Loading a library recurses over files of the host and takes fuel; exhausting it is
  \<open>DoesNotReturn\<close>. \<open>loadLibrary_terminates\<close> shows that fuel above the rank of the library in an
  acyclic dependency order gives another result than this and that more changes nothing, \<open>loadLibrary_cycle_diverges\<close> that on
  a cycle no fuel does. \<^verbatim>\<open>isDependency\<close> and the recursive \<^verbatim>\<open>loadModule\<close> take fuel in the same way
  (\<open>loadAllModules_returns\<close>). Walks over lists and paths of
  the guest and the validation loop are partial functions, and that they return, or do not, is stated with them. Every other loop
  has a termination proof.

  \<^bold>\<open>What is not modelled\<close>, and why: progress messages, colours and measured times, which are text without further use; \<^verbatim>\<open>mmap\<close>, the
  iteration over directories and the C++ runtime's symbol lookup and demangler, which are not the program's
  (parameters); destructors with an empty body, accessors that return a member and subclasses that only
  forward their constructor; \<^verbatim>\<open>parseDwarf\<close>, which calls the DWARF parser; the handle of Capstone, which is
  opened once and never closed; code that is commented out; the
  scheduling of \<^verbatim>\<open>std::thread\<close> other than as interleaving; the contents of the symbol store from one module to
  the next; a directory that changes or cannot be read while it is searched.
\<close>

section \<open>From the guest's memory areas to the verdict on a process\<close>

lemma guest_mappings:
  assumes "getVMAInfo g vo (Some mm) = Inr vec"
    and "\<And>i. i < nat (mm_map_count mm) \<Longrightarrow> va_start (mm_area mm i) < va_end (mm_area mm i)"
    and "\<And>i j. i < j \<Longrightarrow> j < nat (mm_map_count mm) \<Longrightarrow> va_end (mm_area mm i) \<le> va_start (mm_area mm j)"
  shows "sorted_wrt (\<lambda>a b. vma_end a \<le> vma_start b) vec" "v \<in> set vec \<Longrightarrow> vma_start v < vma_end v"
proof -
  have vec: "length vec = nat (mm_map_count mm)" "area_of (mm_area mm i) (vec ! i)" if "i < length vec" for i
    using vma_fold_areas [of g vo mm "nat (mm_map_count mm)" vec] assms(1) that by (simp_all add: getVMAInfo_def)
  have "vma_end (vec ! i) \<le> vma_start (vec ! j)" if "i < j" "j < length vec" for i j
    using vec [of i] vec [of j] assms(3) [of i j] that by (simp add: area_of_def)
  then show "sorted_wrt (\<lambda>a b. vma_end a \<le> vma_start b) vec" by (simp add: sorted_wrt_iff_nth_less)
  show "vma_start v < vma_end v" if v: "v \<in> set vec"
  proof -
    obtain i where "i < length vec" "v = vec ! i" using v by (auto simp: in_set_conv_nth)
    with vec [of i] assms(2) [of i] show ?thesis by (simp add: area_of_def)
  qed
qed

text \<open>C32: A process is described by the guest's memory areas, which do not overlap. Then the pointer
  tables of its validation never contradict each other and the assertions on that do not fail: what
  stops the validation comes from comparing a code mapping, from a missing executable or from
  classifying a collected pointer.\<close>

theorem guest_process_errors:
  assumes "getVMAInfo g vo (Some mm) = Inr (mappedVMAs p)"
    and "\<And>i. i < nat (mm_map_count mm) \<Longrightarrow> va_start (mm_area mm i) < va_end (mm_area mm i)"
    and "\<And>i j. i < j \<Longrightarrow> j < nat (mm_map_count mm) \<Longrightarrow> va_end (mm_area mm i) \<le> va_start (mm_area mm j)"
    and "validateUserspace u dis tm p = Inl e"
  shows "\<exists>v \<in> set (mappedVMAs p).
     process_validateCodePage (ug_read u) tm p v = Inl e \<or> from_loader tm p v = Inl e \<or>
     (\<exists>pi \<in> set (collect_pointers (vma_name v) (ug_read_data u (vma_start v) (vma_end v - vma_start v)) (mappedVMAs p)).
        showPtrs dis (ug_symbols u (pr_symbols p)) tm pi = Inl e)"
proof (rule validateProcess_errors)
  show "sorted_wrt (\<lambda>a b. vma_end a \<le> vma_start b) (mappedVMAs p)"
    using assms(1,2,3) by (rule guest_mappings(1))
  show "vma_start v < vma_end v" if "v \<in> set (mappedVMAs p)" for v
    using assms(1,2,3) that by (rule guest_mappings(2))
  show "validateProcess (ug_read u) (ug_read_data u) (ug_pages u) dis (ug_symbols u (pr_symbols p)) tm p = Inl e"
    using assms(4) by (cases "validateProcess (ug_read u) (ug_read_data u) (ug_pages u) dis (ug_symbols u (pr_symbols p)) tm p")
      (simp_all add: validateUserspace_def mapE_def)
qed

text \<open>A heap below an executable mapping of a task whose executable is not known.\<close>

definition ex_heap_mm :: guest_mm where
  "ex_heap_mm = \<lparr>mm_map_count = 2, mm_area = (\<lambda>i. if i = 0
       then \<lparr>va_start = 0x600000, va_end = 0x601000, va_flags = 3, va_file = None\<rparr>
       else \<lparr>va_start = 0x7f0000001000, va_end = 0x7f0000002000, va_flags = 5, va_file = Some (1, 9, 3)\<rparr>),
     mm_vdso = 0x7fff0000, mm_brk = 0x601000, mm_start_brk = 0x600000, mm_start_stack = 0\<rparr>"

definition ex_user_guest :: user_guest where
  "ex_user_guest = \<lparr>ug_read = (\<lambda>_ _. []), ug_read_data = (\<lambda>_ _. []), ug_pages = [], ug_env = [],
     ug_symbols = (\<lambda>_. \<lparr>ps_name = (\<lambda>_. ''''), ps_containing = id\<rparr>)\<rparr>"

definition ex_guest_mapping :: VMAInfo where
  "ex_guest_mapping = \<lparr>vma_start = 0x7f0000001000, vma_end = 0x7f0000002000, vma_ino = 9, vma_off = 1, vma_flags = 5,
     vma_name = ''/lib/libc.so.6''\<rparr>"

theorem guest_process_errors_witness:
  "\<exists>v \<in> {ex_heap_mapping, ex_guest_mapping}.
     from_loader ex_task_manager (ex_process\<lparr>mappedVMAs := [ex_heap_mapping, ex_guest_mapping]\<rparr>) v = Inl AssertFailed"
proof -
  let ?d = "(\<lambda>_ _. None) :: disasm" and ?p = "ex_process\<lparr>mappedVMAs := [ex_heap_mapping, ex_guest_mapping]\<rparr>"
  have f: "file_of ex_dentry (mm_area ex_heap_mm 1) = Inr (1, 9, ''/lib/libc.so.6'')"
    "file_of ex_dentry (mm_area ex_heap_mm 0) = Inr (0, 0, '''')" by code_simp+
  have n: "[0..<nat (mm_map_count ex_heap_mm)] = [0, 1]" by (simp add: ex_heap_mm_def upt_rec)
  have h: "anonymous_name 0 ex_heap_mm [] 0x600000 0x601000 0 = ''[heap]''"
    by (simp add: anonymous_name_def ex_heap_mm_def)
  have a: "va_start (mm_area ex_heap_mm 0) = 0x600000" "va_end (mm_area ex_heap_mm 0) = 0x601000"
    "va_flags (mm_area ex_heap_mm 0) = 3" "va_start (mm_area ex_heap_mm 1) = 0x7f0000001000"
    "va_end (mm_area ex_heap_mm 1) = 0x7f0000002000" "va_flags (mm_area ex_heap_mm 1) = 5"
    by (simp_all add: ex_heap_mm_def)
  have g: "getVMAInfo ex_dentry 0 (Some ex_heap_mm) = Inr (mappedVMAs ?p)"
    unfolding getVMAInfo_def option.case n foldE.simps vma_step_def f Let_def bindE_simps prod.case a append_Nil
    by (simp add: h ex_heap_mapping_def ex_guest_mapping_def)
  have ar: "va_start (mm_area ex_heap_mm i) < va_end (mm_area ex_heap_mm i)" for i
    by (simp add: ex_heap_mm_def)
  have so: "va_end (mm_area ex_heap_mm i) \<le> va_start (mm_area ex_heap_mm j)"
    if "i < j" "j < nat (mm_map_count ex_heap_mm)" for i j
    using that by (simp add: ex_heap_mm_def)
  have none: "findLoaderByFileName ex_task_manager nm = None" for nm
    by (simp add: findLoaderByFileName_def findLibByName_def ex_task_manager_def)
  have fl: "from_loader ex_task_manager ?p ex_heap_mapping = Inl AssertFailed"
    by (simp add: from_loader_def ex_heap_mapping_def getExecLoader_def ex_process_def mapE_def)
  have rng: "executable_range [ex_heap_mapping, ex_guest_mapping] \<noteq> []"
    by (simp add: executable_range_def ex_guest_mapping_def CHECKFLAGS_def VM_EXEC_def)
  have "validateUserspace ex_user_guest ?d ex_task_manager ?p = Inl AssertFailed"
    using rng fl by (simp add: validateUserspace_def validateProcess_def process_step_def vma_check_def
        process_validateDataPage_def mapE_def) (simp add: ex_heap_mapping_def)
  from guest_process_errors [OF g ar so this] obtain v where v: "v \<in> {ex_heap_mapping, ex_guest_mapping}"
    and e: "process_validateCodePage (\<lambda>_ _. []) ex_task_manager ?p v = Inl AssertFailed \<or>
      from_loader ex_task_manager ?p v = Inl AssertFailed \<or>
      (\<exists>pi \<in> set (collect_pointers (vma_name v) [] (mappedVMAs ?p)).
        showPtrs ?d \<lparr>ps_name = (\<lambda>_. ''''), ps_containing = id\<rparr> ex_task_manager pi = Inl AssertFailed)"
    by (auto simp: ex_user_guest_def)
  have "process_validateCodePage (\<lambda>_ _. []) ex_task_manager ?p v \<noteq> Inl AssertFailed"
    using v by (auto simp: process_validateCodePage_def mapping_loader_def ex_process_def hasEnding_def
        ex_heap_mapping_def ex_guest_mapping_def none)
  moreover have "showPtrs ?d \<lparr>ps_name = (\<lambda>_. ''''), ps_containing = id\<rparr> ex_task_manager pi \<noteq> Inl AssertFailed"
    if "pi \<in> set (collect_pointers (vma_name v) [] (mappedVMAs ?p))" for pi
    using that by (auto simp: collect_pointers_def executable_range_def PagePtrInfo_new_def showPtrs_def)
  ultimately show ?thesis using e v by blast
qed

end
